(* ===== verification/Prelude.thy ===== *)
theory Prelude
  imports Main "HOL-Library.AList" "HOL-Library.Word"
begin

text \<open>
  Shared vocabulary of the development: Python strings, the values \<^verbatim>\<open>json.loads\<close> produces,
  exceptions, dictionaries, and the generic facts on lists, maps and transition systems that the
  component theories share.

  \<^item> A Python \<^verbatim>\<open>str\<close> is its list of code points (\<^typ>\<open>nat list\<close>); \<open>lit\<close> writes an ASCII literal.
  \<^item> A Python \<^verbatim>\<open>dict\<close> is an association list in insertion order, with the update and delete of
    \<^verbatim>\<open>HOL-Library.AList\<close>, which replace in place and append at the end as the language does.
  \<^item> An exception is a value of type \<open>exn\<close>; a computation that may raise has the sum type
    \<open>exn + 'a\<close> with \<open>Inl\<close> for the exception.
\<close>

named_theorems py_dict_simps \<open>look-ups after updates and deletions of Python dictionaries\<close>
named_theorems segment_defs \<open>definitions of the synchronous code segments between two awaits\<close>

section \<open>Strings\<close>

type_synonym pystr = "nat list"
type_synonym bytes = "8 word list"

definition lit :: "string \<Rightarrow> pystr" where
  "lit s = map of_char s"

lemma lit_inject [simp]: "lit s = lit t \<longleftrightarrow> s = t"
proof -
  have "inj (of_char :: char \<Rightarrow> nat)"
    by (rule injI) simp
  then show ?thesis by (simp add: lit_def)
qed

lemma lit_Nil [simp]: "lit s = [] \<longleftrightarrow> s = []" "[] = lit s \<longleftrightarrow> s = []"
  by (auto simp: lit_def)

lemma length_lit [simp]: "length (lit s) = length s"
  by (simp add: lit_def)

section \<open>Decoded JSON values\<close>

text \<open>
  The values that \<^verbatim>\<open>json.loads\<close> returns: \<^verbatim>\<open>None\<close>, \<^verbatim>\<open>bool\<close>, \<^verbatim>\<open>int\<close>, \<^verbatim>\<open>float\<close>
  (the 64 bits of the double), \<^verbatim>\<open>str\<close>, \<^verbatim>\<open>list\<close> and \<^verbatim>\<open>dict\<close>. Two of them are equal in the model
  when they are structurally equal; the language also identifies \<^verbatim>\<open>1\<close>, \<^verbatim>\<open>1.0\<close> and
  \<^verbatim>\<open>True\<close>. The program compares ids of models and deployments, addresses and ports, which the
  orchestrator sends as strings and integers; one that sent the same number in two of these forms is
  outside the model.
\<close>

datatype json =
    JNull
  | JBool bool
  | JInt int
  | JFloat "64 word"
  | JStr pystr
  | JArr "json list"
  | JObj "(pystr \<times> json) list"

abbreviation jstr :: "string \<Rightarrow> json" where
  "jstr s \<equiv> JStr (lit s)"

text \<open>The truth value that \<^verbatim>\<open>if x\<close> takes.\<close>

fun truthy :: "json \<Rightarrow> bool" where
  "truthy JNull = False"
| "truthy (JBool b) = b"
| "truthy (JInt i) = (i \<noteq> 0)"
| "truthy (JFloat w) = (w \<noteq> 0 \<and> w \<noteq> push_bit 63 1)"
| "truthy (JStr s) = (s \<noteq> [])"
| "truthy (JArr xs) = (xs \<noteq> [])"
| "truthy (JObj kvs) = (kvs \<noteq> [])"

fun hashable :: "json \<Rightarrow> bool" where
  "hashable (JArr _) = False"
| "hashable (JObj _) = False"
| "hashable _ = True"

section \<open>Exceptions\<close>

text \<open>The gRPC status codes (\<^verbatim>\<open>grpc.StatusCode\<close>).\<close>

datatype status_code =
    SC_OK | SC_CANCELLED | SC_UNKNOWN | SC_INVALID_ARGUMENT | SC_DEADLINE_EXCEEDED
  | SC_NOT_FOUND | SC_ALREADY_EXISTS | SC_PERMISSION_DENIED | SC_RESOURCE_EXHAUSTED
  | SC_FAILED_PRECONDITION | SC_ABORTED | SC_OUT_OF_RANGE | SC_UNIMPLEMENTED | SC_INTERNAL
  | SC_UNAVAILABLE | SC_DATA_LOSS | SC_UNAUTHENTICATED

text \<open>
  The exceptions the code distinguishes, each by its own class; every other subclass of
  \<^verbatim>\<open>Exception\<close> is \<open>OtherException\<close>. \<open>SSLError\<close> stands for itself and its subclasses on
  certificates. \<^verbatim>\<open>asyncio.CancelledError\<close> derives from
  \<^verbatim>\<open>BaseException\<close> only, so \<^verbatim>\<open>except Exception\<close> does not catch it.
\<close>

datatype exn =
    AioRpcError status_code pystr
  | TimeoutError
  | InvalidCoordinatorUsageError pystr
  | AuthError pystr
  | TlsProbeError pystr
  | JSONDecodeError
  | UnicodeDecodeError
  | UnicodeEncodeError
  | ValueError pystr
  | StructError
  | OverflowError
  | TypeError
  | AttributeError
  | KeyError
  | UsageError
  | ConnectionClosed
  | InvalidState
  | ConnectionRefusedError
  | ConnectionError pystr
  | SSLError
  | OSError
  | OtherException
  | CancelledError

text \<open>\<^verbatim>\<open>isinstance(e, Exception)\<close>, \<^verbatim>\<open>isinstance(e, ValueError)\<close>, \<^verbatim>\<open>isinstance(e, OSError)\<close>.\<close>

fun is_Exception :: "exn \<Rightarrow> bool" where
  "is_Exception CancelledError = False"
| "is_Exception _ = True"

fun is_ValueError :: "exn \<Rightarrow> bool" where
  "is_ValueError JSONDecodeError = True"
| "is_ValueError UnicodeDecodeError = True"
| "is_ValueError UnicodeEncodeError = True"
| "is_ValueError (ValueError _) = True"
| "is_ValueError _ = False"

fun is_OSError :: "exn \<Rightarrow> bool" where
  "is_OSError TimeoutError = True"
| "is_OSError ConnectionRefusedError = True"
| "is_OSError (ConnectionError _) = True"
| "is_OSError SSLError = True"
| "is_OSError OSError = True"
| "is_OSError _ = False"

lemma not_is_Exception [simp]: "\<not> is_Exception e \<longleftrightarrow> e = CancelledError"
  by (cases e) auto

type_synonym 'a result = "exn + 'a"

lemma map_sum_Inl_conv: "map_sum (\<lambda>e. e) g x = Inl e \<longleftrightarrow> x = Inl e"
  by (cases x) auto

lemma map_sum_Inr_conv: "map_sum f g x = Inr y \<longleftrightarrow> (\<exists>z. x = Inr z \<and> y = g z)"
  by (cases x) auto

text \<open>Sequencing of two computations that may raise.\<close>

definition bind_result :: "'a result \<Rightarrow> ('a \<Rightarrow> 'b result) \<Rightarrow> 'b result" where
  "bind_result m k = (case m of Inl e \<Rightarrow> Inl e | Inr x \<Rightarrow> k x)"

lemma bind_result_simps [simp]:
  "bind_result (Inl e) k = Inl e"
  "bind_result (Inr x) k = k x"
  by (simp_all add: bind_result_def)

lemma bind_result_Inr:
  "bind_result m k = Inr y \<longleftrightarrow> (\<exists>x. m = Inr x \<and> k x = Inr y)"
  by (cases m) auto

lemma bind_result_Inl:
  "bind_result m k = Inl e \<longleftrightarrow> m = Inl e \<or> (\<exists>x. m = Inr x \<and> k x = Inl e)"
  by (cases m) auto

text \<open>
  Attribute access on a decoded value: \<^verbatim>\<open>x.get\<close> exists on a \<^verbatim>\<open>dict\<close> only; iteration is
  defined on lists, strings (by characters) and dictionaries (by keys).
\<close>

fun as_dict :: "json \<Rightarrow> (pystr \<times> json) list result" where
  "as_dict (JObj kvs) = Inr kvs"
| "as_dict _ = Inl AttributeError"

fun iterate :: "json \<Rightarrow> json list result" where
  "iterate (JArr xs) = Inr xs"
| "iterate (JStr s) = Inr (map (\<lambda>c. JStr [c]) s)"
| "iterate (JObj kvs) = Inr (map (JStr \<circ> fst) kvs)"
| "iterate _ = Inl TypeError"

text \<open>\<^verbatim>\<open>d.get(k)\<close>: \<^verbatim>\<open>None\<close> where the key is missing.\<close>

definition dget :: "(pystr \<times> json) list \<Rightarrow> pystr \<Rightarrow> json" where
  "dget kvs k = (case map_of kvs k of None \<Rightarrow> JNull | Some v \<Rightarrow> v)"

lemma dget_simps [simp]:
  "dget [] k = JNull"
  "dget ((k', v) # kvs) k = (if k' = k then v else dget kvs k)"
  by (simp_all add: dget_def)

section \<open>Dictionaries keyed by identity-carrying values\<close>

text \<open>
  The interface of a mutable dictionary: what a look-up returns after a store and after a
  deletion, and that keys stay distinct. The clients delete an entry only after checking that it
  still holds the object they mean (\<^verbatim>\<open>if d.get(k) is v: del d[k]\<close>); the lemmas on that idiom
  are proved once, from the laws.
\<close>

locale dictionary =
  fixes look :: "'d \<Rightarrow> 'k \<Rightarrow> 'v option"
    and store_at :: "'k \<Rightarrow> 'v \<Rightarrow> 'd \<Rightarrow> 'd"
    and drop_key :: "'k \<Rightarrow> 'd \<Rightarrow> 'd"
    and ok :: "'d \<Rightarrow> bool"
  assumes look_store: "look (store_at k v d) k' = (if k' = k then Some v else look d k')"
    and look_drop: "look (drop_key k d) k' = (if k' = k then None else look d k')"
    and ok_store: "ok d \<Longrightarrow> ok (store_at k v d)"
    and ok_drop: "ok d \<Longrightarrow> ok (drop_key k d)"
begin

lemma guarded_drop_gone:
  "look (if look d k = Some v then drop_key k d else d) k \<noteq> Some v"
  by (simp add: look_drop)

lemma guarded_drop_other:
  "k' \<noteq> k \<Longrightarrow> look (if look d k = Some v then drop_key k d else d) k' = look d k'"
  by (simp add: look_drop)

lemma guarded_drop_Some:
  "look (if look d k = Some v then drop_key k d else d) k' = Some w \<Longrightarrow> look d k' = Some w"
  by (auto simp: look_drop split: if_splits)

lemma guarded_drop_keeps:
  "look d k' = Some w \<Longrightarrow> w \<noteq> v \<Longrightarrow>
   look (if look d k = Some v then drop_key k d else d) k' = Some w"
  by (auto simp: look_drop)

lemma guarded_drop_ok: "ok d \<Longrightarrow> ok (if look d k = Some v then drop_key k d else d)"
  by (simp add: ok_drop)

end

abbreviation distinct_keys :: "('k \<times> 'v) list \<Rightarrow> bool" where
  "distinct_keys d \<equiv> distinct (map fst d)"

lemma delete_map_of [py_dict_simps]:
  "map_of (AList.delete k d) k' = (if k' = k then None else map_of d k')"
  by (simp add: AList.delete_conv)

lemma update_map_of [py_dict_simps]:
  "map_of (AList.update k v d) k' = (if k' = k then Some v else map_of d k')"
  by (simp add: AList.update_conv)

interpretation pydict: dictionary map_of AList.update AList.delete distinct_keys
  by unfold_locales (auto simp: py_dict_simps AList.distinct_update AList.distinct_delete)

text \<open>\<^verbatim>\<open>if d.get(k) is v: del d[k]\<close>\<close>

definition drop_if_is :: "'k \<Rightarrow> 'v \<Rightarrow> ('k \<times> 'v) list \<Rightarrow> ('k \<times> 'v) list" where
  "drop_if_is k v d = (if map_of d k = Some v then AList.delete k d else d)"

lemmas drop_if_is_gone = pydict.guarded_drop_gone [folded drop_if_is_def]
lemmas drop_if_is_other = pydict.guarded_drop_other [folded drop_if_is_def]
lemmas drop_if_is_Some = pydict.guarded_drop_Some [folded drop_if_is_def]
lemmas drop_if_is_keeps = pydict.guarded_drop_keeps [folded drop_if_is_def]
lemmas drop_if_is_ok = pydict.guarded_drop_ok [folded drop_if_is_def]

lemma drop_if_is_map_of [py_dict_simps]:
  "map_of (drop_if_is k v d) k' =
     (if k' = k \<and> map_of d k = Some v then None else map_of d k')"
  by (auto simp: drop_if_is_def py_dict_simps)

section \<open>Transition systems\<close>

text \<open>
  Every safety property of the concurrent part is an invariant of a step relation; reachability
  is the reflexive transitive closure, and the closure argument is made once.
\<close>

locale stepwise =
  fixes step :: "'s \<Rightarrow> 's \<Rightarrow> bool"
    and Inv :: "'s \<Rightarrow> bool"
  assumes preserved: "step s t \<Longrightarrow> Inv s \<Longrightarrow> Inv t"
begin

lemma always: "rtranclp step s t \<Longrightarrow> Inv s \<Longrightarrow> Inv t"
  by (induction rule: rtranclp_induct) (auto intro: preserved)

end

lemma map_of_SomeI: "distinct_keys d \<Longrightarrow> (k, v) \<in> set d \<Longrightarrow> map_of d k = Some v"
  by simp

end
