(* ===== verification/Credentials.thy ===== *)
theory Credentials
  imports Prelude
begin

text \<open>
  \<^verbatim>\<open>security/credentials.py\<close>: the credentials of the secure mode, loaded from three files. The
  TLS context of the standard library is a record with the setters the code calls, which are not
  independent of each other. The files, and what OpenSSL thinks of their contents, are parameters.
\<close>

section \<open>TLS contexts\<close>

datatype verify_mode = CERT_NONE | CERT_OPTIONAL | CERT_REQUIRED

record ssl_context =
  check_hostname :: bool
  verify_mode :: verify_mode
  alpn_protocols :: "string list"
  trusted_ca :: "bytes option"
  cert_chain :: "(bytes \<times> bytes) option"

text \<open>\<^verbatim>\<open>ssl.SSLContext(ssl.PROTOCOL_TLS_CLIENT)\<close> verifies by default.\<close>

definition new_client_context :: ssl_context where
  "new_client_context =
     \<lparr>check_hostname = True, verify_mode = CERT_REQUIRED, alpn_protocols = [], trusted_ca = None,
      cert_chain = None\<rparr>"

text \<open>
  Verification cannot be switched off while host names are checked, and checking host names switches
  verification on.
\<close>

definition set_verify_mode :: "verify_mode \<Rightarrow> ssl_context \<Rightarrow> ssl_context result" where
  "set_verify_mode m ctx =
     (if m = CERT_NONE \<and> check_hostname ctx
      then Inl (ValueError
        (lit ''Cannot set verify_mode to CERT_NONE when check_hostname is enabled.''))
      else Inr (ctx\<lparr>verify_mode := m\<rparr>))"

definition set_check_hostname :: "bool \<Rightarrow> ssl_context \<Rightarrow> ssl_context result" where
  "set_check_hostname b ctx =
     Inr (ctx\<lparr>check_hostname := b,
              verify_mode := (if b \<and> verify_mode ctx = CERT_NONE then CERT_REQUIRED
                              else verify_mode ctx)\<rparr>)"

section \<open>Files\<close>

text \<open>A path by its components, and what is outside the program.\<close>

type_synonym path = "string list"

record platform =
  read_bytes :: "path \<Rightarrow> bytes result"
  refuses_ca :: "bytes \<Rightarrow> exn option"
  refuses_chain :: "bytes \<Rightarrow> bytes \<Rightarrow> exn option"

definition load_verify_locations :: "platform \<Rightarrow> path \<Rightarrow> ssl_context \<Rightarrow> ssl_context result" where
  "load_verify_locations S cafile ctx =
     bind_result (read_bytes S cafile) (\<lambda>ca.
       case refuses_ca S ca of
         Some e \<Rightarrow> Inl e
       | None \<Rightarrow> Inr (ctx\<lparr>trusted_ca := Some ca\<rparr>))"

definition load_cert_chain ::
  "platform \<Rightarrow> path \<Rightarrow> path \<Rightarrow> ssl_context \<Rightarrow> ssl_context result" where
  "load_cert_chain S certfile keyfile ctx =
     bind_result (read_bytes S certfile) (\<lambda>crt.
     bind_result (read_bytes S keyfile) (\<lambda>key.
       case refuses_chain S crt key of
         Some e \<Rightarrow> Inl e
       | None \<Rightarrow> Inr (ctx\<lparr>cert_chain := Some (crt, key)\<rparr>)))"

section \<open>The credentials\<close>

text \<open>
  The context is set by \<^verbatim>\<open>from_files\<close> only: the attribute does not exist on an object that was
  made by the constructor.
\<close>

record secure_credentials =
  ca_bytes :: bytes
  cert_bytes :: bytes
  key_bytes :: bytes
  tls_ctx :: "ssl_context option"

definition new_secure_credentials :: "bytes \<Rightarrow> bytes \<Rightarrow> bytes \<Rightarrow> secure_credentials" where
  "new_secure_credentials ca crt key =
     \<lparr>ca_bytes = ca, cert_bytes = crt, key_bytes = key, tls_ctx = None\<rparr>"

definition build_ssl_context :: "platform \<Rightarrow> path \<Rightarrow> path \<Rightarrow> path \<Rightarrow> ssl_context result" where
  "build_ssl_context S ca_cert_path tls_cert_path tls_key_path =
     bind_result (set_verify_mode CERT_REQUIRED (new_client_context\<lparr>alpn_protocols := [''h2'']\<rparr>))
       (\<lambda>ctx. bind_result (set_check_hostname True ctx)
       (\<lambda>ctx. bind_result (load_verify_locations S ca_cert_path ctx)
       (load_cert_chain S tls_cert_path tls_key_path)))"

definition from_files :: "platform \<Rightarrow> path \<Rightarrow> path \<Rightarrow> path \<Rightarrow> secure_credentials result" where
  "from_files S ca_cert_path tls_cert_path tls_key_path =
     bind_result (read_bytes S ca_cert_path) (\<lambda>ca.
     bind_result (read_bytes S tls_cert_path) (\<lambda>crt.
     bind_result (read_bytes S tls_key_path) (\<lambda>key.
     bind_result (build_ssl_context S ca_cert_path tls_cert_path tls_key_path) (\<lambda>ctx.
       Inr (new_secure_credentials ca crt key\<lparr>tls_ctx := Some ctx\<rparr>)))))"

definition from_directory :: "platform \<Rightarrow> path \<Rightarrow> secure_credentials result" where
  "from_directory S dir =
     from_files S (dir @ [''ca.crt'']) (dir @ [''tls.crt'']) (dir @ [''tls.key''])"

section \<open>What is loaded\<close>

text \<open>A context that lets only a peer with the right name and a certificate of the given authority pass.\<close>

definition verifying :: "bytes \<Rightarrow> bytes \<Rightarrow> bytes \<Rightarrow> ssl_context" where
  "verifying ca crt key =
     \<lparr>check_hostname = True, verify_mode = CERT_REQUIRED, alpn_protocols = [''h2''],
      trusted_ca = Some ca, cert_chain = Some (crt, key)\<rparr>"

lemma build_ssl_context_verifies:
  assumes "read_bytes S a = Inr ca" and "read_bytes S b = Inr crt" and "read_bytes S c = Inr key"
  shows "build_ssl_context S a b c =
    (case refuses_ca S ca of
       Some e \<Rightarrow> Inl e
     | None \<Rightarrow> (case refuses_chain S crt key of
                 Some e \<Rightarrow> Inl e
               | None \<Rightarrow> Inr (verifying ca crt key)))"
  using assms
  by (auto simp: build_ssl_context_def load_verify_locations_def load_cert_chain_def
      set_verify_mode_def set_check_hostname_def new_client_context_def verifying_def
      split: option.split)

lemma from_files_verifies:
  "from_files S a b c = Inr creds \<longleftrightarrow>
     (\<exists>ca crt key. read_bytes S a = Inr ca \<and> read_bytes S b = Inr crt \<and> read_bytes S c = Inr key \<and>
        refuses_ca S ca = None \<and> refuses_chain S crt key = None \<and>
        creds = \<lparr>ca_bytes = ca, cert_bytes = crt, key_bytes = key,
                 tls_ctx = Some (verifying ca crt key)\<rparr>)"
  by (auto simp: from_files_def bind_result_Inr build_ssl_context_verifies
      new_secure_credentials_def split: option.splits)

text \<open>Credentials for the examples.\<close>

definition sample_credentials :: secure_credentials where
  "sample_credentials =
     \<lparr>ca_bytes = [], cert_bytes = [], key_bytes = [], tls_ctx = Some (verifying [] [] [])\<rparr>"

lemma sample_tls_ctx [simp]: "tls_ctx sample_credentials = Some (verifying [] [] [])"
  by (simp add: sample_credentials_def)

end
