(* ===== verification/Model_Runner.thy ===== *)
theory Model_Runner
  imports Credentials
begin

text \<open>
  \<^verbatim>\<open>model_runners/model_runner.py\<close>: one connected model. The object is a record; its subclass
  extends the record, so every operation here is defined on the record scheme. The
  connection procedure \<^verbatim>\<open>init\<close> is a coroutine: \<open>init_pc\<close> names the await it is suspended
  at, \<open>init_begin\<close> runs it to its first await and \<open>init_resume\<close> from one await to the next,
  given what the awaited operation delivered. What gRPC, the TLS probe and the remote service
  answer is an input of those steps. \<^verbatim>\<open>runner_id\<close>, which nothing reads, is left out: the
  identity of an object is its address in the cluster's heap.
\<close>

section \<open>State\<close>

text \<open>The RSA key object belongs to the \<^verbatim>\<open>cryptography\<close> package: a handle here.\<close>

record gateway_credentials =
  private_key :: nat

datatype error_type =
  GRPC_CONNECTION_FAILED | FAILED | BAD_IMPLEMENTATION | ABORTED | AUTH_ERROR

text \<open>
  A channel is named by the attempt that opened it; \<^verbatim>\<open>None\<close> before the first one. The
  backoff factor is an integer, as in every use of the class.
\<close>

record runner =
  deployment_id :: json
  model_id :: json
  model_name :: json
  ip :: json
  port :: json
  infos :: json
  retry_backoff_factor :: int
  grpc_channel :: "nat option"
  grpc_health_channel :: "nat option"
  retry_attempts :: nat
  min_retry_interval :: nat
  closed :: bool
  consecutive_failures :: nat
  consecutive_timeouts :: nat
  cooldown_calls_remaining :: int
  secure_creds :: "secure_credentials option"
  gateway_creds :: "gateway_credentials option"

definition new_runner ::
  "secure_credentials option \<Rightarrow> gateway_credentials option \<Rightarrow>
   json \<Rightarrow> json \<Rightarrow> json \<Rightarrow> json \<Rightarrow> json \<Rightarrow> json \<Rightarrow> runner result" where
  "new_runner sec gw dep mid name addr prt info =
     (if sec \<noteq> None \<and> gw \<noteq> None
      then Inl (ValueError
        (lit ''secure_credentials and gateway_credentials are mutually exclusive''))
      else Inr
        \<lparr>deployment_id = dep, model_id = mid, model_name = name, ip = addr, port = prt,
         infos = info, retry_backoff_factor = 2, grpc_channel = None,
         grpc_health_channel = None, retry_attempts = 5, min_retry_interval = 2,
         closed = False, consecutive_failures = 0, consecutive_timeouts = 0,
         cooldown_calls_remaining = 0, secure_creds = sec, gateway_creds = gw\<rparr>)"

text \<open>
  \<^verbatim>\<open>server_hostname\<close>: the name the TLS certificate of the model node must carry; \<open>render\<close> is
  the language's \<^verbatim>\<open>str\<close> on a decoded value.
\<close>

definition server_hostname :: "(json \<Rightarrow> pystr) \<Rightarrow> 'a runner_scheme \<Rightarrow> pystr" where
  "server_hostname render r =
     lit ''model-node-'' @ render (model_id r) @ lit ''.crunchdao.internal''"

section \<open>Failure and timeout counters\<close>

definition register_failure :: "'a runner_scheme \<Rightarrow> 'a runner_scheme" where
  "register_failure r = r\<lparr>consecutive_failures := consecutive_failures r + 1\<rparr>"

definition register_timeout :: "'a runner_scheme \<Rightarrow> 'a runner_scheme" where
  "register_timeout r = r\<lparr>consecutive_timeouts := consecutive_timeouts r + 1\<rparr>"

definition reset_failures :: "'a runner_scheme \<Rightarrow> 'a runner_scheme" where
  "reset_failures r = r\<lparr>consecutive_failures := 0\<rparr>"

definition reset_timeouts :: "'a runner_scheme \<Rightarrow> 'a runner_scheme" where
  "reset_timeouts r = r\<lparr>consecutive_timeouts := 0\<rparr>"

text \<open>\<^verbatim>\<open>math.ceil(n / 2)\<close>; the division is exact in a double for any counter below \<open>2 ^ 53\<close>.\<close>

definition ceil_half :: "nat \<Rightarrow> int" where
  "ceil_half n = int ((n + 1) div 2)"

definition should_skip_for_timeout_reason ::
  "'a runner_scheme \<Rightarrow> bool \<times> 'a runner_scheme" where
  "should_skip_for_timeout_reason r =
     (if cooldown_calls_remaining r > 0
      then (True, r\<lparr>cooldown_calls_remaining := cooldown_calls_remaining r - 1\<rparr>)
      else if cooldown_calls_remaining r = 0
      then (False, r\<lparr>cooldown_calls_remaining := - 1\<rparr>)
      else if consecutive_timeouts r > 0
      then (let cooldown_calls = ceil_half (consecutive_timeouts r);
                r' = r\<lparr>cooldown_calls_remaining := cooldown_calls\<rparr>
            in if cooldown_calls > 0
               then (True, r'\<lparr>cooldown_calls_remaining := cooldown_calls_remaining r' - 1\<rparr>)
               else (False, r'))
      else (False, r))"

section \<open>Connecting\<close>

definition is_secure :: "'a runner_scheme \<Rightarrow> bool" where
  "is_secure r = (secure_creds r \<noteq> None)"

definition is_gateway :: "'a runner_scheme \<Rightarrow> bool" where
  "is_gateway r = (gateway_creds r \<noteq> None)"

text \<open>The channel options: a name and an integer or a string.\<close>

definition grpc_options ::
  "(json \<Rightarrow> pystr) \<Rightarrow> 'a runner_scheme \<Rightarrow> (pystr \<times> (nat + pystr)) list" where
  "grpc_options render r =
     [(lit ''grpc.initial_reconnect_backoff_ms'', Inl 100),
      (lit ''grpc.min_reconnect_backoff_ms'', Inl 100),
      (lit ''grpc.max_reconnect_backoff_ms'', Inl 1000),
      (lit ''grpc.keepalive_time_ms'', Inl 300000),
      (lit ''grpc.keepalive_timeout_ms'', Inl 500),
      (lit ''grpc.keepalive_permit_without_calls'', Inl 0)] @
     (if is_secure r
      then [(lit ''grpc.ssl_target_name_override'', Inr (server_hostname render r)),
            (lit ''grpc.default_authority'', Inr (server_hostname render r))]
      else [])"

text \<open>
  Opening the two channels is synchronous and belongs to gRPC: it succeeds, or fails on the
  credentials, on the main channel or on the health channel.
\<close>

datatype conn_outcome =
  Conn_ok | Conn_fail_creds exn | Conn_fail_main exn | Conn_fail_health exn

fun open_channels ::
  "conn_outcome \<Rightarrow> nat \<Rightarrow> 'a runner_scheme \<Rightarrow> 'a runner_scheme \<times> exn option" where
  "open_channels Conn_ok n r = (r\<lparr>grpc_channel := Some n, grpc_health_channel := Some n\<rparr>, None)"
| "open_channels (Conn_fail_creds e) n r = (r, Some e)"
| "open_channels (Conn_fail_main e) n r = (r, Some e)"
| "open_channels (Conn_fail_health e) n r = (r\<lparr>grpc_channel := Some n\<rparr>, Some e)"

definition connect_insecure_channels ::
  "conn_outcome \<Rightarrow> nat \<Rightarrow> 'a runner_scheme \<Rightarrow> 'a runner_scheme \<times> exn option" where
  "connect_insecure_channels conn n r = open_channels conn n r"

definition connect_gateway_channels ::
  "conn_outcome \<Rightarrow> nat \<Rightarrow> 'a runner_scheme \<Rightarrow> 'a runner_scheme \<times> exn option" where
  "connect_gateway_channels conn n r = open_channels conn n r"

text \<open>
  The part of \<^verbatim>\<open>_connect_secure_channels\<close> after the TLS probe: the interceptor reads the
  expected wallet and hotkey from \<^verbatim>\<open>infos\<close>, which must be a dictionary.
\<close>

definition connect_secure_channels ::
  "conn_outcome \<Rightarrow> nat \<Rightarrow> 'a runner_scheme \<Rightarrow> 'a runner_scheme \<times> exn option" where
  "connect_secure_channels conn n r =
     (case conn of
        Conn_fail_creds e \<Rightarrow> (r, Some e)
      | _ \<Rightarrow> (case as_dict (infos r) of
                Inl e \<Rightarrow> (r, Some e)
              | Inr _ \<Rightarrow> open_channels conn n r))"

section \<open>The coroutine init\<close>

text \<open>The awaits of attempt \<open>n\<close>, and what a segment ends with.\<close>

datatype init_pc =
    At_fetch nat
  | At_ready nat
  | At_health nat
  | At_setup nat
  | At_probe nat exn
  | At_backoff nat

datatype init_next =
    Await init_pc
  | Returned bool "error_type option"
  | Returned_none
  | Raised exn

text \<open>What an awaited operation delivers.\<close>

datatype awaited =
    Got_unit
  | Got_setup bool "error_type option"
  | Got_bool bool
  | Got_exn exn

definition backoff_time :: "'a runner_scheme \<Rightarrow> nat \<Rightarrow> int" where
  "backoff_time r attempt = retry_backoff_factor r ^ attempt"

definition after_failure :: "'a runner_scheme \<Rightarrow> nat \<Rightarrow> init_next" where
  "after_failure r attempt =
     (if attempt < retry_attempts r then Await (At_backoff attempt)
      else Returned False (Some GRPC_CONNECTION_FAILED))"

definition on_exception :: "'a runner_scheme \<Rightarrow> nat \<Rightarrow> exn \<Rightarrow> init_next" where
  "on_exception r attempt e =
     (case e of
        AioRpcError _ _ \<Rightarrow>
          (if is_secure r then after_failure r attempt else Await (At_probe attempt e))
      | TimeoutError \<Rightarrow>
          (if is_secure r then after_failure r attempt else Await (At_probe attempt e))
      | InvalidCoordinatorUsageError _ \<Rightarrow> Raised e
      | AuthError _ \<Rightarrow> Returned False (Some AUTH_ERROR)
      | TlsProbeError _ \<Rightarrow> Returned False (Some AUTH_ERROR)
      | CancelledError \<Rightarrow> Raised e
      | _ \<Rightarrow> (if closed r then Returned False (Some ABORTED) else after_failure r attempt))"

text \<open>
  The beginning of \<^verbatim>\<open>_connect_secure_channels\<close>, up to the await of the probe: the credentials
  must have their TLS context.
\<close>

definition fetch_begin :: "'a runner_scheme \<Rightarrow> nat \<Rightarrow> init_next" where
  "fetch_begin r attempt =
     (case Option.bind (secure_creds r) tls_ctx of
        None \<Rightarrow> on_exception r attempt AttributeError
      | Some ctx \<Rightarrow> Await (At_fetch attempt))"

definition start_attempt ::
  "conn_outcome \<Rightarrow> 'a runner_scheme \<Rightarrow> nat \<Rightarrow> 'a runner_scheme \<times> init_next" where
  "start_attempt conn r attempt =
     (if retry_attempts r < attempt then (r, Returned_none)
      else if closed r then (r, Returned False (Some ABORTED))
      else if is_secure r then (r, fetch_begin r attempt)
      else (case (if is_gateway r then connect_gateway_channels conn attempt r
                  else connect_insecure_channels conn attempt r) of
              (r', None) \<Rightarrow> (r', Await (At_ready attempt))
            | (r', Some e) \<Rightarrow> (r', on_exception r' attempt e)))"

definition init_begin :: "conn_outcome \<Rightarrow> 'a runner_scheme \<Rightarrow> 'a runner_scheme \<times> init_next" where
  "init_begin conn r = start_attempt conn r 1"

text \<open>
  \<open>hook\<close> is the synchronous beginning of the subclass's \<^verbatim>\<open>setup\<close>, run when the second
  channel is ready. A delivery of the wrong kind for the await leaves the coroutine suspended.
\<close>

fun init_resume ::
  "('a runner_scheme \<Rightarrow> 'a runner_scheme) \<Rightarrow> conn_outcome \<Rightarrow> 'a runner_scheme \<Rightarrow> init_pc \<Rightarrow>
   awaited \<Rightarrow> 'a runner_scheme \<times> init_next" where
  "init_resume hook conn r (At_fetch n) Got_unit =
     (case connect_secure_channels conn n r of
        (r', None) \<Rightarrow> (r', Await (At_ready n))
      | (r', Some e) \<Rightarrow> (r', on_exception r' n e))"
| "init_resume hook conn r (At_fetch n) (Got_exn e) = (r, on_exception r n e)"
| "init_resume hook conn r (At_ready n) Got_unit = (r, Await (At_health n))"
| "init_resume hook conn r (At_ready n) (Got_exn e) = (r, on_exception r n e)"
| "init_resume hook conn r (At_health n) Got_unit = (hook r, Await (At_setup n))"
| "init_resume hook conn r (At_health n) (Got_exn e) = (r, on_exception r n e)"
| "init_resume hook conn r (At_setup n) (Got_setup b err) = (r, Returned b err)"
| "init_resume hook conn r (At_setup n) (Got_exn e) = (r, on_exception r n e)"
| "init_resume hook conn r (At_probe n e) (Got_bool b) =
     (r, if b then Raised (InvalidCoordinatorUsageError (lit
              ''The Model Nodes are in secure mode and credentials were not provided for connection.''))
         else after_failure r n)"
| "init_resume hook conn r (At_probe n e) (Got_exn e') = (r, Raised e')"
| "init_resume hook conn r (At_backoff n) Got_unit = start_attempt conn r (Suc n)"
| "init_resume hook conn r (At_backoff n) (Got_exn e) = (r, Raised e)"
| "init_resume hook conn r pc _ = (r, Await pc)"

section \<open>Closing\<close>

text \<open>
  \<^verbatim>\<open>close\<close> marks the object closed at once and then awaits the closing of the channels it
  holds, if it holds any.
\<close>

definition close_begin :: "'a runner_scheme \<Rightarrow> 'a runner_scheme" where
  "close_begin r = r\<lparr>closed := True\<rparr>"

definition close_awaits :: "'a runner_scheme \<Rightarrow> bool" where
  "close_awaits r = (grpc_channel r \<noteq> None \<or> grpc_health_channel r \<noteq> None)"


section \<open>What every operation keeps\<close>

text \<open>
  The cluster relies on one contract for every operation it applies to a runner: the fields that
  identify the deployed model never change, the configuration never changes (nor do the name and the
  infos of the model, which only an update of the cluster refreshes), and a closed runner stays closed.
\<close>

definition identity :: "'a runner_scheme \<Rightarrow> json \<times> json \<times> json \<times> json" where
  "identity r = (deployment_id r, model_id r, ip r, port r)"

definition configuration ::
  "'a runner_scheme \<Rightarrow>
   nat \<times> int \<times> secure_credentials option \<times> gateway_credentials option \<times> json \<times> json" where
  "configuration r =
     (retry_attempts r, retry_backoff_factor r, secure_creds r, gateway_creds r, model_name r, infos r)"

locale runner_operation =
  fixes f :: "'a runner_scheme \<Rightarrow> 'a runner_scheme"
  assumes identity_kept: "identity (f r) = identity r"
    and configuration_kept: "configuration (f r) = configuration r"
    and closed_kept: "closed r \<Longrightarrow> closed (f r)"
begin

lemma model_id_kept: "model_id (f r) = model_id r"
  using identity_kept [of r] by (simp add: identity_def)

lemma retry_attempts_kept: "retry_attempts (f r) = retry_attempts r"
  using configuration_kept [of r] by (simp add: configuration_def)

lemma backoff_kept: "backoff_time (f r) = backoff_time r"
  using configuration_kept [of r] by (simp add: configuration_def backoff_time_def fun_eq_iff)

lemma is_secure_kept: "is_secure (f r) = is_secure r"
  using configuration_kept [of r] by (simp add: configuration_def is_secure_def)

end

lemmas kept_defs = identity_def configuration_def

interpretation failure_op: runner_operation register_failure
  by unfold_locales (simp_all add: kept_defs register_failure_def)

interpretation timeout_op: runner_operation register_timeout
  by unfold_locales (simp_all add: kept_defs register_timeout_def)

interpretation reset_failures_op: runner_operation reset_failures
  by unfold_locales (simp_all add: kept_defs reset_failures_def)

interpretation reset_timeouts_op: runner_operation reset_timeouts
  by unfold_locales (simp_all add: kept_defs reset_timeouts_def)

interpretation close_op: runner_operation close_begin
  by unfold_locales (simp_all add: kept_defs close_begin_def)

interpretation skip_op: runner_operation "\<lambda>r. snd (should_skip_for_timeout_reason r)"
  by unfold_locales (simp_all add: kept_defs should_skip_for_timeout_reason_def Let_def)

lemma open_channels_keeps:
  "identity (fst (open_channels conn n r)) = identity r"
  "configuration (fst (open_channels conn n r)) = configuration r"
  "closed (fst (open_channels conn n r)) = closed r"
  by (cases conn; simp add: kept_defs)+

lemma connect_secure_channels_keeps:
  "identity (fst (connect_secure_channels conn n r)) = identity r"
  "configuration (fst (connect_secure_channels conn n r)) = configuration r"
  "closed (fst (connect_secure_channels conn n r)) = closed r"
  by (cases conn; cases "as_dict (infos r)"; simp add: connect_secure_channels_def kept_defs)+

lemma start_attempt_keeps:
  "identity (fst (start_attempt conn r n)) = identity r"
  "configuration (fst (start_attempt conn r n)) = configuration r"
  "closed (fst (start_attempt conn r n)) = closed r"
  using open_channels_keeps [of conn n r]
  by (auto simp: start_attempt_def fetch_begin_def connect_gateway_channels_def connect_insecure_channels_def
        split: prod.split option.split)

lemmas channels_keep =
  open_channels_keeps connect_secure_channels_keeps start_attempt_keeps

interpretation init_begin_op: runner_operation "\<lambda>r. fst (init_begin conn r)" for conn
  by unfold_locales (simp_all add: init_begin_def channels_keep)

text \<open>The subclass's hook is one more operation of the contract, and then so is every resumption.\<close>

locale setup_hook = runner_operation hook for hook :: "'a runner_scheme \<Rightarrow> 'a runner_scheme"
begin

lemma init_resume_keeps:
  "identity (fst (init_resume hook conn r pc aw)) = identity r \<and>
   configuration (fst (init_resume hook conn r pc aw)) = configuration r \<and>
   (closed r \<longrightarrow> closed (fst (init_resume hook conn r pc aw)))"
proof (cases "(hook, conn, r, pc, aw)" rule: init_resume.cases)
  case (1 hook' conn' r' n)
  then show ?thesis
    using connect_secure_channels_keeps [of conn n r] by (auto split: prod.split option.split)
qed (auto simp: channels_keep identity_kept configuration_kept closed_kept)

end

sublocale setup_hook \<subseteq> resumed: runner_operation "\<lambda>r. fst (init_resume hook conn r pc aw)"
  for conn pc aw
  using init_resume_keeps by unfold_locales blast+

interpretation no_hook: setup_hook "\<lambda>r. r"
  by unfold_locales simp_all


section \<open>Runs of init\<close>

text \<open>
  A run feeds the coroutine the deliveries of its awaits. Between two of them the rest of the
  program may close the object; nothing else it does matters to \<^verbatim>\<open>init\<close>.
\<close>

datatype init_event = Deliver conn_outcome awaited | Close_requested

fun run_init ::
  "('a runner_scheme \<Rightarrow> 'a runner_scheme) \<Rightarrow> 'a runner_scheme \<times> init_next \<Rightarrow>
   init_event list \<Rightarrow> 'a runner_scheme \<times> init_next" where
  "run_init hook (r, Await pc) (Deliver conn aw # evs) =
     run_init hook (init_resume hook conn r pc aw) evs"
| "run_init hook (r, Await pc) (Close_requested # evs) =
     run_init hook (close_begin r, Await pc) evs"
| "run_init hook (r, nxt) evs = (r, nxt)"

text \<open>The kind of delivery each await takes.\<close>

fun answers :: "init_pc \<Rightarrow> awaited \<Rightarrow> bool" where
  "answers _ (Got_exn _) = True"
| "answers (At_setup _) (Got_setup _ _) = True"
| "answers (At_probe _ _) (Got_bool _) = True"
| "answers (At_fetch _) Got_unit = True"
| "answers (At_ready _) Got_unit = True"
| "answers (At_health _) Got_unit = True"
| "answers (At_backoff _) Got_unit = True"
| "answers _ _ = False"

text \<open>How many deliveries the coroutine can still take: six per remaining attempt.\<close>

fun remaining :: "nat \<Rightarrow> init_pc \<Rightarrow> nat" where
  "remaining A (At_fetch n) = 6 * (A - n) + 6"
| "remaining A (At_ready n) = 6 * (A - n) + 5"
| "remaining A (At_health n) = 6 * (A - n) + 4"
| "remaining A (At_setup n) = 6 * (A - n) + 3"
| "remaining A (At_probe n e) = 6 * (A - n) + 2"
| "remaining A (At_backoff n) = 6 * (A - n) + 1"

lemma after_failure_Await:
  "after_failure r n = Await pc \<longleftrightarrow> n < retry_attempts r \<and> pc = At_backoff n"
  by (auto simp: after_failure_def)

lemma on_exception_Await:
  "on_exception r n e = Await pc \<Longrightarrow>
   (pc = At_probe n e \<and> \<not> is_secure r) \<or> (pc = At_backoff n \<and> n < retry_attempts r)"
  by (cases e) (auto simp: on_exception_def after_failure_Await split: if_splits)

lemma on_exception_remaining:
  "on_exception r n e = Await pc \<Longrightarrow> remaining A pc \<le> 6 * (A - n) + 2"
  by (auto dest: on_exception_Await)

lemma start_attempt_remaining:
  "start_attempt conn r n = (r', Await pc) \<Longrightarrow>
   n \<le> retry_attempts r \<and> remaining (retry_attempts r) pc \<le> 6 * (retry_attempts r - n) + 6"
  by (auto simp: start_attempt_def fetch_begin_def split: if_splits prod.splits option.splits
      dest: on_exception_remaining [where A = "retry_attempts r"])

lemma init_resume_remaining:
  assumes "init_resume hook conn r pc aw = (r', Await pc')" and "answers pc aw"
  shows "remaining (retry_attempts r) pc' < remaining (retry_attempts r) pc"
  using assms
  by (cases "(hook, conn, r, pc, aw)" rule: init_resume.cases)
     (auto split: prod.splits option.splits if_splits
       dest!: start_attempt_remaining on_exception_remaining [where A = "retry_attempts r"]
       simp: after_failure_Await)

text \<open>The deliveries of a run are all of the kind its awaits take.\<close>

fun well_answered ::
  "('a runner_scheme \<Rightarrow> 'a runner_scheme) \<Rightarrow> 'a runner_scheme \<times> init_next \<Rightarrow>
   init_event list \<Rightarrow> bool" where
  "well_answered hook (r, Await pc) (Deliver conn aw # evs) =
     (answers pc aw \<and> well_answered hook (init_resume hook conn r pc aw) evs)"
| "well_answered hook (r, Await pc) (Close_requested # evs) =
     well_answered hook (close_begin r, Await pc) evs"
| "well_answered hook (r, nxt) evs = True"

fun deliveries :: "init_event list \<Rightarrow> nat" where
  "deliveries [] = 0"
| "deliveries (Deliver _ _ # evs) = Suc (deliveries evs)"
| "deliveries (Close_requested # evs) = deliveries evs"

definition suspended :: "init_next \<Rightarrow> bool" where
  "suspended nxt = (case nxt of Await _ \<Rightarrow> True | _ \<Rightarrow> False)"

lemma suspended_simps [simp]:
  "suspended (Await pc)" "\<not> suspended (Returned b e)" "\<not> suspended Returned_none"
  "\<not> suspended (Raised x)"
  by (simp_all add: suspended_def)

context setup_hook
begin

lemma run_init_finishes:
  "well_answered hook (r, Await pc) evs \<Longrightarrow> remaining (retry_attempts r) pc \<le> deliveries evs \<Longrightarrow>
   \<not> suspended (snd (run_init hook (r, Await pc) evs))"
proof (induction evs arbitrary: r pc)
  case Nil
  then show ?case by (cases pc) auto
next
  case (Cons ev evs)
  show ?case
  proof (cases ev)
    case (Deliver conn aw)
    obtain r' nxt where step: "init_resume hook conn r pc aw = (r', nxt)" by fastforce
    show ?thesis
    proof (cases nxt)
      case (Await pc')
      have "retry_attempts r' = retry_attempts r"
        using resumed.retry_attempts_kept [of conn r pc aw] step by simp
      moreover have "remaining (retry_attempts r) pc' < remaining (retry_attempts r) pc"
        using init_resume_remaining [of hook conn r pc aw r' pc'] step Await Cons.prems Deliver
        by simp
      ultimately show ?thesis
        using Cons.IH [of r' pc'] Cons.prems Deliver step Await by simp
    qed (use Deliver step in simp_all)
  next
    case Close_requested
    then show ?thesis
      using Cons.IH [of "close_begin r" pc] Cons.prems close_op.retry_attempts_kept [of r]
      by simp
  qed
qed

end


subsection \<open>The time spent between attempts\<close>

fun attempt_of :: "init_pc \<Rightarrow> nat" where
  "attempt_of (At_fetch n) = n"
| "attempt_of (At_ready n) = n"
| "attempt_of (At_health n) = n"
| "attempt_of (At_setup n) = n"
| "attempt_of (At_probe n e) = n"
| "attempt_of (At_backoff n) = n"

fun is_backoff :: "init_pc \<Rightarrow> bool" where
  "is_backoff (At_backoff n) = True"
| "is_backoff _ = False"

text \<open>The awaits a run suspends at, in order, and the seconds each one sleeps.\<close>

fun init_awaits ::
  "('a runner_scheme \<Rightarrow> 'a runner_scheme) \<Rightarrow> 'a runner_scheme \<times> init_next \<Rightarrow>
   init_event list \<Rightarrow> init_pc list" where
  "init_awaits hook (r, Await pc) (Deliver conn aw # evs) =
     pc # init_awaits hook (init_resume hook conn r pc aw) evs"
| "init_awaits hook (r, Await pc) (Close_requested # evs) =
     init_awaits hook (close_begin r, Await pc) evs"
| "init_awaits hook (r, Await pc) [] = [pc]"
| "init_awaits hook (r, nxt) evs = []"

definition seconds_slept :: "'a runner_scheme \<Rightarrow> init_pc \<Rightarrow> int" where
  "seconds_slept r pc = (if is_backoff pc then backoff_time r (attempt_of pc) else 0)"

definition backoff_ok :: "nat \<Rightarrow> init_pc \<Rightarrow> bool" where
  "backoff_ok A pc \<longleftrightarrow> attempt_of pc \<le> A \<and> (is_backoff pc \<longrightarrow> attempt_of pc < A)"

lemma on_exception_attempt:
  "on_exception r n e = Await pc \<Longrightarrow> n \<le> retry_attempts r \<Longrightarrow>
   attempt_of pc = n \<and> backoff_ok (retry_attempts r) pc"
  by (auto dest!: on_exception_Await simp: backoff_ok_def)

lemma start_attempt_attempt:
  "start_attempt conn r n = (r', Await pc) \<Longrightarrow>
   attempt_of pc = n \<and> backoff_ok (retry_attempts r) pc"
  using open_channels_keeps [of conn n r]
  by (auto simp: start_attempt_def fetch_begin_def connect_gateway_channels_def connect_insecure_channels_def
        kept_defs backoff_ok_def
      split: if_splits prod.splits option.splits dest!: on_exception_Await)

lemma init_resume_attempt:
  assumes "init_resume hook conn r pc aw = (r', Await pc')" and "answers pc aw"
    and "backoff_ok (retry_attempts r) pc"
  shows "attempt_of pc' = (if is_backoff pc then Suc (attempt_of pc) else attempt_of pc)"
    and "backoff_ok (retry_attempts r) pc'"
proof -
  have *: "attempt_of pc' = (if is_backoff pc then Suc (attempt_of pc) else attempt_of pc) \<and>
     backoff_ok (retry_attempts r) pc'"
    using assms
  proof (cases "(hook, conn, r, pc, aw)" rule: init_resume.cases)
    case (1 hook conn r n)
    then show ?thesis
      using assms connect_secure_channels_keeps [of conn n r]
      by (auto split: prod.splits option.splits simp: backoff_ok_def kept_defs
          dest!: on_exception_Await)
  qed (auto simp: backoff_ok_def after_failure_Await split: if_splits
      dest: on_exception_attempt start_attempt_attempt dest!: on_exception_Await)
  then show "attempt_of pc' = (if is_backoff pc then Suc (attempt_of pc) else attempt_of pc)"
    and "backoff_ok (retry_attempts r) pc'" by blast+
qed

abbreviation backoff_budget :: "'a runner_scheme \<Rightarrow> nat \<Rightarrow> int" where
  "backoff_budget r n \<equiv> (\<Sum>k = n..<retry_attempts r. backoff_time r k)"

lemma backoff_budget_Suc:
  "n < retry_attempts r \<Longrightarrow> backoff_budget r n = backoff_time r n + backoff_budget r (Suc n)"
  by (simp add: sum.atLeast_Suc_lessThan)

lemma backoff_budget_nonneg: "0 \<le> retry_backoff_factor r \<Longrightarrow> 0 \<le> backoff_budget r n"
  by (rule sum_nonneg) (simp add: backoff_time_def)

context setup_hook
begin

lemma seconds_slept_kept:
  "configuration r' = configuration r \<Longrightarrow> seconds_slept r' = seconds_slept r"
  by (simp add: configuration_def seconds_slept_def backoff_time_def fun_eq_iff)

lemma budget_kept:
  "configuration r' = configuration r \<Longrightarrow> backoff_budget r' n = backoff_budget r n"
  by (simp add: configuration_def backoff_time_def)

lemma awaits_within_budget:
  "well_answered hook (r, Await pc) evs \<Longrightarrow> backoff_ok (retry_attempts r) pc \<Longrightarrow>
   0 \<le> retry_backoff_factor r \<Longrightarrow>
   (\<Sum>q \<leftarrow> init_awaits hook (r, Await pc) evs. seconds_slept r q) \<le>
     backoff_budget r (attempt_of pc)"
proof (induction evs arbitrary: r pc)
  case Nil
  then show ?case
    using backoff_budget_nonneg [of r "Suc (attempt_of pc)"]
      backoff_budget_nonneg [of r "attempt_of pc"]
    by (auto simp: seconds_slept_def backoff_ok_def backoff_budget_Suc)
next
  case (Cons ev evs)
  show ?case
  proof (cases ev)
    case (Deliver conn aw)
    obtain r' nxt where step: "init_resume hook conn r pc aw = (r', nxt)" by fastforce
    have conf: "configuration r' = configuration r"
      using resumed.configuration_kept [of conn r pc aw] step by simp
    have A: "retry_attempts r' = retry_attempts r" "retry_backoff_factor r' = retry_backoff_factor r"
      using conf by (simp_all add: configuration_def)
    have rest: "(\<Sum>q \<leftarrow> init_awaits hook (r', nxt) evs. seconds_slept r q) \<le>
        backoff_budget r (if is_backoff pc then Suc (attempt_of pc) else attempt_of pc)"
    proof (cases nxt)
      case (Await pc')
      have "answers pc aw" and wa: "well_answered hook (r', Await pc') evs"
        using Cons.prems(1) Deliver step Await by simp_all
      note next_pc = init_resume_attempt [OF step [unfolded Await] this(1) Cons.prems(2)]
      have "(\<Sum>q \<leftarrow> init_awaits hook (r', Await pc') evs. seconds_slept r' q) \<le>
          backoff_budget r' (attempt_of pc')"
        using Cons.IH [OF wa] next_pc A Cons.prems(3) by simp
      then show ?thesis
        using next_pc(1) Await seconds_slept_kept [OF conf] budget_kept [OF conf] by simp
    qed (use Cons.prems(3) in \<open>simp_all add: backoff_budget_nonneg\<close>)
    show ?thesis
    proof (cases "is_backoff pc")
      case True
      then have "attempt_of pc < retry_attempts r" using Cons.prems(2) by (simp add: backoff_ok_def)
      then show ?thesis
        using rest True Deliver step by (simp add: seconds_slept_def backoff_budget_Suc)
    qed (use rest Deliver step in \<open>simp add: seconds_slept_def\<close>)
  next
    case Close_requested
    have conf: "configuration (close_begin r) = configuration r"
      by (rule close_op.configuration_kept)
    then show ?thesis
      using Cons.IH [of "close_begin r" pc] Cons.prems Close_requested
        seconds_slept_kept [OF conf] budget_kept [OF conf]
      by (simp add: configuration_def)
  qed
qed

lemma init_total_backoff:
  assumes "well_answered hook (init_begin conn r) evs" and "0 \<le> retry_backoff_factor r"
  shows "(\<Sum>q \<leftarrow> init_awaits hook (init_begin conn r) evs. seconds_slept r q) \<le> backoff_budget r 1"
proof -
  obtain r' nxt where b: "init_begin conn r = (r', nxt)" by fastforce
  have conf: "configuration r' = configuration r"
    using init_begin_op.configuration_kept [of conn r] b by simp
  show ?thesis
  proof (cases nxt)
    case (Await pc)
    have "attempt_of pc = 1" and "backoff_ok (retry_attempts r) pc"
      using start_attempt_attempt [of conn r 1 r' pc] b Await by (simp_all add: init_begin_def)
    moreover have "retry_attempts r' = retry_attempts r"
      and "retry_backoff_factor r' = retry_backoff_factor r"
      using conf by (simp_all add: configuration_def)
    ultimately show ?thesis
      using awaits_within_budget [of r' pc evs] assms b Await
        seconds_slept_kept [OF conf] budget_kept [OF conf] by simp
  qed (use assms b backoff_budget_nonneg [of r 1] in simp_all)
qed

end


subsection \<open>What a run can return\<close>

lemma after_failure_Returned:
  "after_failure r n = Returned b err \<longleftrightarrow>
   retry_attempts r \<le> n \<and> \<not> b \<and> err = Some GRPC_CONNECTION_FAILED"
  by (auto simp: after_failure_def)

lemma on_exception_Returned:
  "on_exception r n e = Returned b err \<Longrightarrow>
   \<not> b \<and> (err = Some GRPC_CONNECTION_FAILED \<longrightarrow> retry_attempts r \<le> n)"
  by (cases e) (auto simp: on_exception_def after_failure_Returned split: if_splits)

lemma start_attempt_Returned:
  "start_attempt conn r n = (r', Returned b err) \<Longrightarrow>
   \<not> b \<and> (err = Some GRPC_CONNECTION_FAILED \<longrightarrow> retry_attempts r \<le> n)"
  using open_channels_keeps [of conn n r]
  by (auto simp: start_attempt_def fetch_begin_def connect_gateway_channels_def connect_insecure_channels_def
        configuration_def split: if_splits prod.splits option.splits dest: on_exception_Returned)

lemma init_resume_Returned:
  assumes "init_resume hook conn r pc aw = (r', Returned b err)"
  shows "aw = Got_setup b err \<or>
    (\<not> b \<and> (err = Some GRPC_CONNECTION_FAILED \<longrightarrow>
      retry_attempts r \<le> (if is_backoff pc then Suc (attempt_of pc) else attempt_of pc)))"
  using assms
proof (cases "(hook, conn, r, pc, aw)" rule: init_resume.cases)
  case (1 hook' conn' r' n)
  then show ?thesis
    using assms connect_secure_channels_keeps [of conn n r]
    by (auto split: prod.splits option.splits simp: configuration_def
        dest!: on_exception_Returned)
qed (auto simp: after_failure_Returned split: if_splits
      dest: on_exception_Returned start_attempt_Returned)

lemma run_init_True:
  "run_init hook (r, Await pc) evs = (r', Returned True err) \<Longrightarrow>
   \<exists>conn. Deliver conn (Got_setup True err) \<in> set evs"
proof (induction evs arbitrary: r pc)
  case (Cons ev evs)
  show ?case
  proof (cases ev)
    case (Deliver conn aw)
    obtain r1 nxt where step: "init_resume hook conn r pc aw = (r1, nxt)" by fastforce
    show ?thesis
    proof (cases nxt)
      case (Await pc')
      then show ?thesis using Cons Deliver step by auto
    next
      case (Returned b err')
      then have "aw = Got_setup True err"
        using Cons.prems Deliver step init_resume_Returned [of hook conn r pc aw r1 True err]
        by auto
      then show ?thesis using Deliver by auto
    qed (use Cons.prems Deliver step in simp_all)
  next
    case Close_requested
    then show ?thesis using Cons by auto
  qed
qed simp

lemma upt_left: "n \<le> A \<Longrightarrow> (if n < A then n # [Suc n..<A] else []) = [n..<A]"
  by (simp add: upt_conv_Cons)

context setup_hook
begin

text \<open>
  The coroutine reports an unreachable model only after all its attempts: it slept after each
  one but the last.
\<close>

lemma gives_up_after_all_attempts:
  "well_answered hook (r, Await pc) evs \<Longrightarrow> backoff_ok (retry_attempts r) pc \<Longrightarrow>
   run_init hook (r, Await pc) evs = (r', Returned False (Some GRPC_CONNECTION_FAILED)) \<Longrightarrow>
   (\<forall>conn b. Deliver conn (Got_setup b (Some GRPC_CONNECTION_FAILED)) \<notin> set evs) \<Longrightarrow>
   map attempt_of (filter is_backoff (init_awaits hook (r, Await pc) evs)) =
     [attempt_of pc..<retry_attempts r]"
proof (induction evs arbitrary: r pc)
  case (Cons ev evs)
  show ?case
  proof (cases ev)
    case (Deliver conn aw)
    let ?n = "attempt_of pc" and ?A = "retry_attempts r"
    let ?m = "if is_backoff pc then Suc ?n else ?n"
    obtain r1 nxt where step: "init_resume hook conn r pc aw = (r1, nxt)" by fastforce
    have rest: "map attempt_of (filter is_backoff (init_awaits hook (r1, nxt) evs)) = [?m..<?A]"
    proof (cases nxt)
      case (Await pc')
      have "answers pc aw" and wa: "well_answered hook (r1, Await pc') evs"
        using Cons.prems(1) Deliver step Await by simp_all
      note next_pc = init_resume_attempt [OF step [unfolded Await] this(1) Cons.prems(2)]
      have A: "retry_attempts r1 = ?A"
        using resumed.retry_attempts_kept [of conn r pc aw] step by simp
      have "map attempt_of (filter is_backoff (init_awaits hook (r1, Await pc') evs)) =
          [attempt_of pc'..<retry_attempts r1]"
        by (rule Cons.IH [OF wa]) (use next_pc A Cons.prems Deliver step Await in auto)
      then show ?thesis using next_pc(1) A Await by simp
    next
      case (Returned b err)
      then have "retry_attempts r \<le> ?m"
        using init_resume_Returned [of hook conn r pc aw r1 b err] Cons.prems(3,4) Deliver step
        by auto
      then show ?thesis using Returned by simp
    qed (use Cons.prems Deliver step in simp_all)
    show ?thesis
    proof (cases "is_backoff pc")
      case True
      then have "?n < ?A" using Cons.prems(2) by (simp add: backoff_ok_def)
      then show ?thesis using rest True Deliver step by (simp add: upt_conv_Cons)
    qed (use rest Deliver step in simp)
  next
    case Close_requested
    then show ?thesis
      using Cons.IH [of "close_begin r" pc] Cons.prems close_op.retry_attempts_kept [of r] by simp
  qed
qed simp

end

section \<open>Cooldown\<close>

text \<open>
  Consecutive consultations of \<^verbatim>\<open>should_skip_for_timeout_reason\<close>, the timeout counter having
  the given value at each of them: the calls in between change it.
\<close>

fun skip_decisions :: "'a runner_scheme \<Rightarrow> nat list \<Rightarrow> bool list" where
  "skip_decisions r [] = []"
| "skip_decisions r (t # ts) =
     (let (b, r') = should_skip_for_timeout_reason (r\<lparr>consecutive_timeouts := t\<rparr>)
      in b # skip_decisions r' ts)"

lemma skip_decisions_cooling:
  "cooldown_calls_remaining r = int k \<Longrightarrow> length ts = Suc k \<Longrightarrow>
   skip_decisions r ts = replicate k True @ [False]"
proof (induction k arbitrary: r ts)
  case 0
  then obtain t where "ts = [t]" by (cases ts) auto
  then show ?case using 0 by (simp add: should_skip_for_timeout_reason_def)
next
  case (Suc k)
  then obtain t ts' where ts: "ts = t # ts'" and len: "length ts' = Suc k" by (cases ts) auto
  then show ?case
    using Suc.prems(1)
      Suc.IH [of "r\<lparr>consecutive_timeouts := t, cooldown_calls_remaining := int k\<rparr>" ts']
    by (simp add: should_skip_for_timeout_reason_def)
qed

lemma ceil_half_pos: "0 < t \<Longrightarrow> 0 < ceil_half t"
  by (auto simp: ceil_half_def)

lemma should_skip_no_timeouts:
  "cooldown_calls_remaining r \<le> 0 \<Longrightarrow> consecutive_timeouts r = 0 \<Longrightarrow>
   \<not> fst (should_skip_for_timeout_reason r)"
  by (simp add: should_skip_for_timeout_reason_def)

end
