(* ===== verification/Json_Text.thy ===== *)
theory Json_Text
  imports Prelude
begin

text \<open>
  \<^verbatim>\<open>json.dumps\<close>: the text of a decoded value, for any pair of separators and with non-ASCII
  characters escaped, as the library calls it. The digits of a finite double
  (\<^verbatim>\<open>float.__repr__\<close>) are a parameter.
\<close>

section \<open>Numbers\<close>

fun digits :: "nat \<Rightarrow> pystr" where
  "digits n = (if n < 10 then [48 + n] else digits (n div 10) @ [48 + n mod 10])"

declare digits.simps [simp del]

definition int_text :: "int \<Rightarrow> pystr" where
  "int_text i = (if i < 0 then 45 # digits (nat (- i)) else digits (nat i))"

definition hex_digit :: "nat \<Rightarrow> nat" where
  "hex_digit n = (if n < 10 then 48 + n else 87 + n)"

definition hex4 :: "nat \<Rightarrow> pystr" where
  "hex4 n = [hex_digit (n div 4096 mod 16), hex_digit (n div 256 mod 16),
             hex_digit (n div 16 mod 16), hex_digit (n mod 16)]"

section \<open>Strings\<close>

definition unicode_escape :: "nat \<Rightarrow> pystr" where
  "unicode_escape c = 92 # 117 # hex4 c"

text \<open>A character above the basic plane becomes a surrogate pair.\<close>

definition escape_char :: "nat \<Rightarrow> pystr" where
  "escape_char c =
     (if c = 34 \<or> c = 92 then [92, c]
      else if c = 10 then [92, 110]
      else if c = 13 then [92, 114]
      else if c = 9 then [92, 116]
      else if c = 12 then [92, 102]
      else if c = 8 then [92, 98]
      else if 32 \<le> c \<and> c \<le> 126 then [c]
      else if c < 65536 then unicode_escape c
      else unicode_escape (55296 + (c - 65536) div 1024 mod 1024) @
           unicode_escape (56320 + (c - 65536) mod 1024))"

definition string_text :: "pystr \<Rightarrow> pystr" where
  "string_text s = 34 # concat (map escape_char s) @ [34]"

section \<open>Values\<close>

definition infinity_bits :: "64 word" where
  "infinity_bits = 9218868437227405312"

definition minus_infinity_bits :: "64 word" where
  "minus_infinity_bits = 18442240474082181120"

definition nan_bits :: "64 word" where
  "nan_bits = 9221120237041090560"

definition finite_bits :: "64 word \<Rightarrow> bool" where
  "finite_bits w \<longleftrightarrow> unat w div 2 ^ 52 mod 2 ^ 11 \<noteq> 2047"

definition float_text :: "(64 word \<Rightarrow> pystr) \<Rightarrow> 64 word \<Rightarrow> pystr" where
  "float_text F w =
     (if finite_bits w then F w
      else if w = infinity_bits then lit ''Infinity''
      else if w = minus_infinity_bits then lit ''-Infinity''
      else lit ''NaN'')"

fun separated :: "pystr \<Rightarrow> pystr list \<Rightarrow> pystr" where
  "separated sep [] = []"
| "separated sep [x] = x"
| "separated sep (x # y # xs) = x @ sep @ separated sep (y # xs)"

fun json_text :: "(64 word \<Rightarrow> pystr) \<Rightarrow> pystr \<Rightarrow> pystr \<Rightarrow> json \<Rightarrow> pystr" where
  "json_text F isep ksep JNull = lit ''null''"
| "json_text F isep ksep (JBool b) = (if b then lit ''true'' else lit ''false'')"
| "json_text F isep ksep (JInt i) = int_text i"
| "json_text F isep ksep (JFloat w) = float_text F w"
| "json_text F isep ksep (JStr s) = string_text s"
| "json_text F isep ksep (JArr xs) = 91 # separated isep (map (json_text F isep ksep) xs) @ [93]"
| "json_text F isep ksep (JObj kvs) =
     123 # separated isep
       (map (\<lambda>(k, v). string_text k @ ksep @ json_text F isep ksep v) kvs) @ [125]"

text \<open>An integer of more than 4300 digits is refused by the interpreter.\<close>

fun printable :: "json \<Rightarrow> bool" where
  "printable (JInt i) = (length (digits (nat \<bar>i\<bar>)) \<le> 4300)"
| "printable (JArr xs) = list_all printable xs"
| "printable (JObj kvs) = list_all (\<lambda>(k, v). printable v) kvs"
| "printable _ = True"

definition json_dumps ::
  "(64 word \<Rightarrow> pystr) \<Rightarrow> pystr \<Rightarrow> pystr \<Rightarrow> json \<Rightarrow> pystr result" where
  "json_dumps F isep ksep v =
     (if printable v then Inr (json_text F isep ksep v)
      else Inl (ValueError (lit ''Exceeds the limit for integer string conversion'')))"

section \<open>The text is ASCII\<close>

definition ascii :: "pystr \<Rightarrow> bool" where
  "ascii s = list_all (\<lambda>c. c < 128) s"

lemma ascii_simps [simp]:
  "ascii []" "ascii (c # s) \<longleftrightarrow> c < 128 \<and> ascii s" "ascii (s @ t) \<longleftrightarrow> ascii s \<and> ascii t"
  "ascii (concat xs) \<longleftrightarrow> (\<forall>x\<in>set xs. ascii x)"
  by (auto simp: ascii_def list_all_iff)

lemma ascii_digits [simp]: "ascii (digits n)"
proof (induction n rule: digits.induct)
  case (1 n)
  have "n mod 10 < 80" by (rule less_trans [of _ 10]) simp_all
  with 1 show ?case by (subst digits.simps) simp
qed

lemma ascii_int_text [simp]: "ascii (int_text i)"
  by (simp add: int_text_def)

lemma hex_digit_ascii: "n < 16 \<Longrightarrow> hex_digit n < 128"
  by (simp add: hex_digit_def)

lemma ascii_string_text [simp]: "ascii (string_text s)"
  by (auto simp: string_text_def escape_char_def unicode_escape_def hex4_def hex_digit_ascii)

lemma ascii_separated [simp]:
  "ascii sep \<Longrightarrow> list_all ascii xs \<Longrightarrow> ascii (separated sep xs)"
  by (induction sep xs rule: separated.induct) auto

lemma json_text_ascii:
  "(\<And>w. ascii (F w)) \<Longrightarrow> ascii isep \<Longrightarrow> ascii ksep \<Longrightarrow> ascii (json_text F isep ksep v)"
proof (induction F isep ksep v rule: json_text.induct)
  case (6 F isep ksep xs)
  then show ?case by (simp add: list_all_iff)
next
  case (7 F isep ksep kvs)
  then show ?case by (auto simp: list_all_iff intro!: ascii_separated)
qed (simp_all add: lit_def float_text_def)

end
