(* ===== verification/Json_Parse.thy ===== *)
theory Json_Parse
  imports Json_Text
begin

text \<open>
  \<^verbatim>\<open>json.loads\<close>, the scanner of the standard library: strings with escapes and surrogate pairs,
  numbers, the three literals and the three constants beyond the standard, arrays and objects. The
  conversion of a decimal numeral to a double is the parameter \<open>P\<close>. Every parser returns the
  rest of its input. The nesting limit of the interpreter is not modelled.
\<close>

type_synonym 'a scanned = "('a \<times> pystr) result"

definition decode_error :: "'a result" where
  "decode_error = Inl JSONDecodeError"

section \<open>White space and digits\<close>

definition is_ws :: "nat \<Rightarrow> bool" where
  "is_ws c \<longleftrightarrow> c = 32 \<or> c = 9 \<or> c = 10 \<or> c = 13"

definition skip_ws :: "pystr \<Rightarrow> pystr" where
  "skip_ws s = dropWhile is_ws s"

definition is_digit :: "nat \<Rightarrow> bool" where
  "is_digit c \<longleftrightarrow> 48 \<le> c \<and> c \<le> 57"

definition digits_value :: "pystr \<Rightarrow> nat" where
  "digits_value ds = foldl (\<lambda>n d. 10 * n + (d - 48)) 0 ds"

definition hex_value :: "nat \<Rightarrow> nat option" where
  "hex_value c =
     (if 48 \<le> c \<and> c \<le> 57 then Some (c - 48)
      else if 97 \<le> c \<and> c \<le> 102 then Some (c - 87)
      else if 65 \<le> c \<and> c \<le> 70 then Some (c - 55)
      else None)"

section \<open>Strings\<close>

text \<open>Four hexadecimal digits.\<close>

fun scan_hex4 :: "pystr \<Rightarrow> (nat \<times> pystr) option" where
  "scan_hex4 (a # b # c # d # s) =
     (case (hex_value a, hex_value b, hex_value c, hex_value d) of
        (Some a', Some b', Some c', Some d') \<Rightarrow> Some (((a' * 16 + b') * 16 + c') * 16 + d', s)
      | _ \<Rightarrow> None)"
| "scan_hex4 _ = None"

definition high_surrogate :: "nat \<Rightarrow> bool" where
  "high_surrogate c \<longleftrightarrow> 55296 \<le> c \<and> c \<le> 56319"

definition low_surrogate :: "nat \<Rightarrow> bool" where
  "low_surrogate c \<longleftrightarrow> 56320 \<le> c \<and> c \<le> 57343"

text \<open>The second half of a pair, if it follows as another escape.\<close>

fun scan_low :: "pystr \<Rightarrow> (nat \<times> pystr) option" where
  "scan_low (b # u # s) =
     (if b = 92 \<and> u = 117
      then (case scan_hex4 s of
              Some (c, r) \<Rightarrow> if low_surrogate c then Some (c, r) else None
            | None \<Rightarrow> None)
      else None)"
| "scan_low _ = None"

text \<open>\<^verbatim>\<open>\uXXXX\<close>, the \<^verbatim>\<open>u\<close> already read: one character, or two that make a pair.\<close>

definition scan_unicode :: "pystr \<Rightarrow> (nat \<times> pystr) option" where
  "scan_unicode s =
     (case scan_hex4 s of
        None \<Rightarrow> None
      | Some (c, r) \<Rightarrow>
          (if high_surrogate c
           then (case scan_low r of
                   Some (c', r') \<Rightarrow> Some (65536 + (c - 55296) * 1024 + (c' - 56320), r')
                 | None \<Rightarrow> Some (c, r))
           else Some (c, r)))"

definition escaped :: "nat \<Rightarrow> nat option" where
  "escaped c =
     (if c = 34 \<or> c = 92 \<or> c = 47 then Some c
      else if c = 98 then Some 8
      else if c = 102 then Some 12
      else if c = 110 then Some 10
      else if c = 114 then Some 13
      else if c = 116 then Some 9
      else None)"

text \<open>The escape after a backslash.\<close>

fun scan_escape :: "pystr \<Rightarrow> (nat \<times> pystr) option" where
  "scan_escape [] = None"
| "scan_escape (c # s) = (if c = 117 then scan_unicode s else map_option (\<lambda>x. (x, s)) (escaped c))"

lemma scan_hex4_length: "scan_hex4 s = Some (c, r) \<Longrightarrow> length r < length s"
  by (induction s rule: scan_hex4.induct) (auto split: option.splits)

lemma scan_low_length: "scan_low s = Some (c, r) \<Longrightarrow> length r < length s"
  by (induction s rule: scan_low.induct)
    (auto split: option.splits if_splits dest!: scan_hex4_length)

lemma scan_escape_length: "scan_escape s = Some (c, r) \<Longrightarrow> length r < length s"
  by (cases s)
    (auto simp: scan_unicode_def split: option.splits if_splits
      dest!: scan_hex4_length scan_low_length)

text \<open>The rest of a string, its opening quote already read.\<close>

function scan_string :: "pystr \<Rightarrow> pystr scanned" where
  "scan_string [] = decode_error"
| "scan_string (c # s) =
     (if c = 34 then Inr ([], s)
      else if c = 92
      then (case scan_escape s of
              None \<Rightarrow> decode_error
            | Some (x, r) \<Rightarrow> map_sum (\<lambda>e. e) (apfst (Cons x)) (scan_string r))
      else if c < 32 then decode_error
      else map_sum (\<lambda>e. e) (apfst (Cons c)) (scan_string s))"
  by pat_completeness auto
termination
  by (relation "measure length") (auto dest!: scan_escape_length)

section \<open>Numbers\<close>

definition starts_digit :: "pystr \<Rightarrow> bool" where
  "starts_digit s = (case s of [] \<Rightarrow> False | c # _ \<Rightarrow> is_digit c)"

definition span_digits :: "pystr \<Rightarrow> pystr \<times> pystr" where
  "span_digits s = (takeWhile is_digit s, dropWhile is_digit s)"

text \<open>The fraction and the exponent are read only if a digit follows.\<close>

definition scan_fraction :: "pystr \<Rightarrow> pystr \<times> pystr" where
  "scan_fraction s =
     (case s of
        c # r \<Rightarrow> if c = 46 \<and> starts_digit r then apfst (Cons c) (span_digits r) else ([], s)
      | [] \<Rightarrow> ([], []))"

definition scan_exponent :: "pystr \<Rightarrow> pystr \<times> pystr" where
  "scan_exponent s =
     (case s of
        c # r \<Rightarrow>
          (if c = 101 \<or> c = 69
           then (case r of
                   x # r' \<Rightarrow>
                     (if x = 43 \<or> x = 45
                      then (if starts_digit r' then apfst (\<lambda>ds. c # x # ds) (span_digits r') else ([], s))
                      else if is_digit x then apfst (Cons c) (span_digits r)
                      else ([], s))
                 | [] \<Rightarrow> ([], s))
           else ([], s))
      | [] \<Rightarrow> ([], []))"

text \<open>The integer part: a zero, or digits that do not begin with one.\<close>

definition scan_integer :: "pystr \<Rightarrow> (pystr \<times> pystr) option" where
  "scan_integer s =
     (case s of
        [] \<Rightarrow> None
      | c # r \<Rightarrow> if c = 48 then Some ([c], r)
                else if is_digit c then Some (span_digits s)
                else None)"

text \<open>An integer of more than 4300 digits is refused by the interpreter.\<close>

definition scan_number :: "(pystr \<Rightarrow> 64 word) \<Rightarrow> pystr \<Rightarrow> json scanned" where
  "scan_number P s =
     (let negative = (take 1 s = [45]); sign = (if negative then [45] else []);
          s0 = (if negative then drop 1 s else s) in
      case scan_integer s0 of
        None \<Rightarrow> decode_error
      | Some (whole, s1) \<Rightarrow>
          (let (fraction, s2) = scan_fraction s1; (exponent, s3) = scan_exponent s2 in
           if fraction \<noteq> [] \<or> exponent \<noteq> []
           then Inr (JFloat (P (sign @ whole @ fraction @ exponent)), s3)
           else if 4300 < length whole
           then Inl (ValueError (lit ''Exceeds the limit for integer string conversion''))
           else Inr (JInt (if negative then - int (digits_value whole) else int (digits_value whole)),
                     s3)))"

section \<open>Values\<close>

text \<open>
  The recursive calls are made on the rest of the input; the tests on its length always hold
  (\<open>scan_elems_unguarded\<close> and \<open>scan_members_unguarded\<close> below).
\<close>

definition constants :: "(pystr \<times> json) list" where
  "constants =
     [(lit ''null'', JNull), (lit ''true'', JBool True), (lit ''false'', JBool False),
      (lit ''NaN'', JFloat nan_bits), (lit ''Infinity'', JFloat infinity_bits),
      (lit ''-Infinity'', JFloat minus_infinity_bits)]"

definition scan_constant :: "pystr \<Rightarrow> (json \<times> pystr) option" where
  "scan_constant s =
     map_option (\<lambda>(name, v). (v, drop (length name) s)) 
       (find (\<lambda>(name, v). take (length name) s = name) constants)"

text \<open>The dictionary of the members: the last value of a key wins, at the place of the first.\<close>

definition dict_of :: "(pystr \<times> json) list \<Rightarrow> json" where
  "dict_of kvs = JObj (fold (\<lambda>(k, v) d. AList.update k v d) kvs [])"

lemma skip_ws_length: "length (skip_ws s) \<le> length s"
  by (simp add: skip_ws_def length_dropWhile_le)

function
  scan_value :: "(pystr \<Rightarrow> 64 word) \<Rightarrow> pystr \<Rightarrow> json scanned" and
  scan_elems :: "(pystr \<Rightarrow> 64 word) \<Rightarrow> pystr \<Rightarrow> json list scanned" and
  scan_members :: "(pystr \<Rightarrow> 64 word) \<Rightarrow> pystr \<Rightarrow> (pystr \<times> json) list scanned"
where
  "scan_value P s =
     (case s of
        [] \<Rightarrow> decode_error
      | c # r \<Rightarrow>
          (if c = 34 then map_sum (\<lambda>e. e) (apfst JStr) (scan_string r)
           else if c = 123
           then (if take 1 (skip_ws r) = [125] then Inr (JObj [], drop 1 (skip_ws r))
                 else map_sum (\<lambda>e. e) (apfst dict_of) (scan_members P (skip_ws r)))
           else if c = 91
           then (if take 1 (skip_ws r) = [93] then Inr (JArr [], drop 1 (skip_ws r))
                 else map_sum (\<lambda>e. e) (apfst JArr) (scan_elems P (skip_ws r)))
           else case scan_constant s of
                  Some found \<Rightarrow> Inr found
                | None \<Rightarrow> scan_number P s))"
| "scan_elems P s =
     (case scan_value P s of
        Inl e \<Rightarrow> Inl e
      | Inr (v, r) \<Rightarrow>
          (case skip_ws r of
             [] \<Rightarrow> decode_error
           | c # r' \<Rightarrow>
               (if c = 93 then Inr ([v], r')
                else if c = 44 \<and> length (skip_ws r') < length s
                then map_sum (\<lambda>e. e) (apfst (Cons v)) (scan_elems P (skip_ws r'))
                else decode_error)))"
| "scan_members P s =
     (case s of
        [] \<Rightarrow> decode_error
      | q # s' \<Rightarrow>
          (if q \<noteq> 34 then decode_error
           else case scan_string s' of
                  Inl e \<Rightarrow> Inl e
                | Inr (k, r) \<Rightarrow>
                    (if take 1 (skip_ws r) \<noteq> [58] \<or>
                        length s \<le> length (skip_ws (drop 1 (skip_ws r)))
                     then decode_error
                     else case scan_value P (skip_ws (drop 1 (skip_ws r))) of
                            Inl e \<Rightarrow> Inl e
                          | Inr (v, r1) \<Rightarrow>
                              (case skip_ws r1 of
                                 [] \<Rightarrow> decode_error
                               | c # r2 \<Rightarrow>
                                   (if c = 125 then Inr ([(k, v)], r2)
                                    else if c = 44 \<and> length (skip_ws r2) < length s
                                    then map_sum (\<lambda>e. e) (apfst (Cons (k, v)))
                                           (scan_members P (skip_ws r2))
                                    else decode_error)))))"
  by pat_completeness auto

termination
proof (relation "measure (\<lambda>x. case x of
    Inl (P, s) \<Rightarrow> 2 * length s
  | Inr (Inl (P, s)) \<Rightarrow> Suc (2 * length s)
  | Inr (Inr (P, s)) \<Rightarrow> Suc (2 * length s))", goal_cases)
  case (2 P s c r)
  then show ?case using skip_ws_length [of r] by simp
next
  case (3 P s c r)
  then show ?case using skip_ws_length [of r] by simp
qed auto

declare scan_value.simps [simp del, code del] scan_elems.simps [simp del, code del]
  scan_members.simps [simp del, code del]

section \<open>Every parser consumes input\<close>

lemma scan_string_length: "scan_string s = Inr (x, r) \<Longrightarrow> length r < length s"
proof (induction s arbitrary: x rule: scan_string.induct)
  case (2 c s)
  then show ?case
    by (auto simp: decode_error_def map_sum_Inr_conv split: if_splits option.splits)
      (auto dest!: scan_escape_length, fastforce)
qed (simp add: decode_error_def)

lemma span_digits_length: "span_digits s = (ds, r) \<Longrightarrow> length r \<le> length s"
  by (auto simp: span_digits_def length_dropWhile_le)

lemma scan_fraction_length: "scan_fraction s = (f, r) \<Longrightarrow> length r \<le> length s"
  by (cases s) (auto simp: scan_fraction_def span_digits_def length_dropWhile_le le_SucI split: if_splits)

lemma scan_exponent_length: "scan_exponent s = (x, r) \<Longrightarrow> length r \<le> length s"
  by (auto simp: scan_exponent_def span_digits_def length_dropWhile_le le_SucI
      split: if_splits list.splits)

lemma scan_integer_length: "scan_integer s = Some (w, r) \<Longrightarrow> length r < length s"
  by (auto simp: scan_integer_def span_digits_def length_dropWhile_le less_Suc_eq_le split: if_splits list.splits)

lemma scan_number_length: "scan_number P s = Inr (v, r) \<Longrightarrow> length r < length s"
  by (auto simp: scan_number_def Let_def decode_error_def split: if_splits option.splits prod.splits
      dest!: scan_integer_length scan_fraction_length scan_exponent_length)

lemma constant_names: "(name, v) \<in> set constants \<Longrightarrow> name \<noteq> []"
  by (auto simp: constants_def)

lemma find_member: "find Q xs = Some x \<Longrightarrow> Q x \<and> x \<in> set xs"
  by (induction xs) (auto split: if_splits)

lemma scan_constant_length: "scan_constant s = Some (v, r) \<Longrightarrow> length r < length s"
  by (cases s) (auto simp: scan_constant_def dest!: find_member dest: constant_names)

lemma consumes:
  "scan_value P s = Inr (v, r) \<Longrightarrow> length r < length s"
  "scan_elems P s = Inr (vs, r) \<Longrightarrow> length r < length s"
  "scan_members P s = Inr (kvs, r) \<Longrightarrow> length r < length s"
proof (induction P s and P s and P s arbitrary: v r and vs r and kvs r
    rule: scan_value_scan_elems_scan_members.induct)
  case (1 P s)
  note p = 1(3) [unfolded scan_value.simps [of P s]]
  show ?case
  proof (cases s)
    case (Cons c t)
    have "length (skip_ws t) \<le> length t" by (rule skip_ws_length)
    with p Cons 1(1,2) [OF Cons] show ?thesis
      by (auto simp: map_sum_Inr_conv split: if_splits option.splits
          dest!: scan_string_length scan_number_length scan_constant_length)
  qed (use p in \<open>simp add: decode_error_def\<close>)
next
  case (2 P s)
  note p = 2(3) [unfolded scan_elems.simps [of P s]]
  show ?case
  proof (cases "scan_value P s")
    case (Inr vr)
    obtain v r1 where vr: "vr = (v, r1)" by fastforce
    with 2(1) Inr have "length r1 < length s" by simp
    moreover have "length (skip_ws r1) \<le> length r1" by (rule skip_ws_length)
    ultimately show ?thesis
      using p Inr vr 2(2) [OF Inr vr [symmetric]]
      by (auto simp: map_sum_Inr_conv decode_error_def split: if_splits list.splits)
  qed (use p in simp)
next
  case (3 P s)
  note p = 3(3) [unfolded scan_members.simps [of P s]]
  then obtain t k r0 where s: "s = 34 # t" "scan_string t = Inr (k, r0)"
      "take 1 (skip_ws r0) = [58]"
      "length (skip_ws (drop 1 (skip_ws r0))) < length s"
    by (auto simp: decode_error_def split: list.splits if_splits sum.splits prod.splits)
  with p obtain v r1 where v: "scan_value P (skip_ws (drop 1 (skip_ws r0))) = Inr (v, r1)"
    by (auto split: sum.splits)
  have "length r1 < length (skip_ws (drop 1 (skip_ws r0)))"
    using 3(1) s v by simp
  moreover have "length (skip_ws r1) \<le> length r1" by (rule skip_ws_length)
  ultimately show ?case
    using p s v 3(2) [of 34 t "(k, r0)" k r0 "(v, r1)" v r1]
    by (auto simp: map_sum_Inr_conv decode_error_def split: if_splits list.splits)
qed
text \<open>The loops over elements and members without the tests on the length.\<close>

lemma rest_shorter:
  "length r < length s \<Longrightarrow> skip_ws r = c # r' \<Longrightarrow> length (skip_ws r') < length s"
  using skip_ws_length [of r] skip_ws_length [of r'] by simp

lemma scan_elems_unguarded:
  "scan_elems P s =
     (case scan_value P s of
        Inl e \<Rightarrow> Inl e
      | Inr (v, r) \<Rightarrow>
          (case skip_ws r of
             [] \<Rightarrow> decode_error
           | c # r' \<Rightarrow>
               (if c = 93 then Inr ([v], r')
                else if c = 44 then map_sum (\<lambda>e. e) (apfst (Cons v)) (scan_elems P (skip_ws r'))
                else decode_error)))"
  by (subst scan_elems.simps)
    (auto split: sum.splits list.splits dest!: consumes(1) intro: rest_shorter)

lemma scan_members_unguarded:
  "scan_members P s =
     (case s of
        [] \<Rightarrow> decode_error
      | q # s' \<Rightarrow>
          (if q \<noteq> 34 then decode_error
           else case scan_string s' of
                  Inl e \<Rightarrow> Inl e
                | Inr (k, r) \<Rightarrow>
                    (case skip_ws r of
                       [] \<Rightarrow> decode_error
                     | c # r0 \<Rightarrow>
                         (if c \<noteq> 58 then decode_error
                          else case scan_value P (skip_ws r0) of
                                 Inl e \<Rightarrow> Inl e
                               | Inr (v, r1) \<Rightarrow>
                                   (case skip_ws r1 of
                                      [] \<Rightarrow> decode_error
                                    | c # r2 \<Rightarrow>
                                        (if c = 125 then Inr ([(k, v)], r2)
                                         else if c = 44
                                         then map_sum (\<lambda>e. e) (apfst (Cons (k, v)))
                                                (scan_members P (skip_ws r2))
                                         else decode_error))))))"
proof (cases s)
  case (Cons q s')
  show ?thesis
  proof (cases "scan_string s'")
    case (Inr kr)
    obtain k r where kr: "kr = (k, r)" by fastforce
    have l: "length r < length s" using Inr kr Cons scan_string_length by fastforce
    show ?thesis
    proof (cases "skip_ws r")
      case Nil
      with Inr kr Cons show ?thesis by (subst scan_members.simps) simp
    next
      case s2: (Cons c r0)
      from rest_shorter [OF l s2] have l0: "length (skip_ws r0) < length s" .
      then have "length r1 < length s" if "scan_value P (skip_ws r0) = Inr (v, r1)" for v r1
        using consumes(1) [OF that] by simp
      then have "length (skip_ws r2) < length s"
        if "scan_value P (skip_ws r0) = Inr (v, r1)" "skip_ws r1 = c' # r2" for v r1 c' r2
        using that rest_shorter by blast
      with Inr kr Cons s2 l0 show ?thesis
        by (subst scan_members.simps) (auto split: sum.splits list.splits)
    qed
  qed (subst scan_members.simps, simp add: Cons)
qed (subst scan_members.simps, simp)

text \<open>For evaluation: equations that unfold only on an input whose first character is known.\<close>

lemma scan_value_code [code]:
  "scan_value P [] = decode_error"
  "scan_value P (c # r) =
     (if c = 34 then map_sum (\<lambda>e. e) (apfst JStr) (scan_string r)
      else if c = 123
      then (if take 1 (skip_ws r) = [125] then Inr (JObj [], drop 1 (skip_ws r))
            else map_sum (\<lambda>e. e) (apfst dict_of) (scan_members P (skip_ws r)))
      else if c = 91
      then (if take 1 (skip_ws r) = [93] then Inr (JArr [], drop 1 (skip_ws r))
            else map_sum (\<lambda>e. e) (apfst JArr) (scan_elems P (skip_ws r)))
      else case scan_constant (c # r) of
             Some found \<Rightarrow> Inr found
           | None \<Rightarrow> scan_number P (c # r))"
  by (subst scan_value.simps, simp)+

lemma scan_elems_code [code]:
  "scan_elems P [] = decode_error"
  "scan_elems P (x # s) =
     (case scan_value P (x # s) of
        Inl e \<Rightarrow> Inl e
      | Inr (v, r) \<Rightarrow>
          (case skip_ws r of
             [] \<Rightarrow> decode_error
           | c # r' \<Rightarrow>
               (if c = 93 then Inr ([v], r')
                else if c = 44 then map_sum (\<lambda>e. e) (apfst (Cons v)) (scan_elems P (skip_ws r'))
                else decode_error)))"
  by (subst scan_elems_unguarded, simp add: scan_value_code decode_error_def)+

lemma scan_members_code [code]:
  "scan_members P [] = decode_error"
  "scan_members P (q # s) =
     (if q \<noteq> 34 then decode_error
      else case scan_string s of
             Inl e \<Rightarrow> Inl e
           | Inr (k, r) \<Rightarrow>
               (case skip_ws r of
                  [] \<Rightarrow> decode_error
                | c # r0 \<Rightarrow>
                    (if c \<noteq> 58 then decode_error
                     else case scan_value P (skip_ws r0) of
                            Inl e \<Rightarrow> Inl e
                          | Inr (v, r1) \<Rightarrow>
                              (case skip_ws r1 of
                                 [] \<Rightarrow> decode_error
                               | c # r2 \<Rightarrow>
                                   (if c = 125 then Inr ([(k, v)], r2)
                                    else if c = 44
                                    then map_sum (\<lambda>e. e) (apfst (Cons (k, v)))
                                           (scan_members P (skip_ws r2))
                                    else decode_error)))))"
  by (subst scan_members_unguarded, simp)+

lemmas scan_evals = scan_value_code scan_elems_code scan_members_code

section \<open>The whole text\<close>

definition loads :: "(pystr \<Rightarrow> 64 word) \<Rightarrow> pystr \<Rightarrow> json result" where
  "loads P s =
     (if take 1 s = [65279] then decode_error
      else case scan_value P (skip_ws s) of
             Inl e \<Rightarrow> Inl e
           | Inr (v, r) \<Rightarrow> if skip_ws r = [] then Inr v else decode_error)"

text \<open>Every failure is a \<^verbatim>\<open>ValueError\<close>: of the scanner, or of an integer that is too long.\<close>

lemma decode_error_simps [simp]:
  "decode_error = Inl e \<longleftrightarrow> e = JSONDecodeError" "decode_error \<noteq> Inr x"
  by (auto simp: decode_error_def)

lemma scan_string_errors: "scan_string s = Inl e \<Longrightarrow> e = JSONDecodeError"
  by (induction s rule: scan_string.induct)
    (auto simp: map_sum_Inl_conv split: if_splits option.splits)

lemma scan_number_errors: "scan_number P s = Inl e \<Longrightarrow> is_ValueError e"
  by (auto simp: scan_number_def Let_def split: if_splits option.splits prod.splits)

lemma scan_errors:
  "scan_value P s = Inl e \<Longrightarrow> is_ValueError e"
  "scan_elems P s = Inl e \<Longrightarrow> is_ValueError e"
  "scan_members P s = Inl e \<Longrightarrow> is_ValueError e"
proof (induction P s and P s and P s arbitrary: e and e and e
    rule: scan_value_scan_elems_scan_members.induct)
  case (1 P s)
  note p = 1(3) [unfolded scan_value.simps [of P s]]
  with 1(1,2) show ?case
    by (auto simp: map_sum_Inl_conv split: list.splits if_splits option.splits
        dest!: scan_string_errors dest: scan_number_errors)
next
  case (2 P s)
  note p = 2(3) [unfolded scan_elems.simps [of P s]]
  with 2(1,2) show ?case
    by (auto simp: map_sum_Inl_conv split: list.splits if_splits sum.splits)
next
  case (3 P s)
  note p = 3(3) [unfolded scan_members.simps [of P s]]
  with 3(1,2) show ?case
    by (auto simp: map_sum_Inl_conv split: list.splits if_splits sum.splits dest!: scan_string_errors)
qed

lemma loads_errors: "loads P s = Inl e \<Longrightarrow> is_ValueError e"
  by (auto simp: loads_def split: if_splits sum.splits dest: scan_errors)

lemma loads_not_cancelled [simp]: "loads P s \<noteq> Inl CancelledError"
  using loads_errors [of P s CancelledError] by auto

end
