(* ===== verification/Websocket_Client.thy ===== *)
theory Websocket_Client
  imports Json_Parse
begin

text \<open>
  \<^verbatim>\<open>websocket_client.py\<close>: the connection to the orchestrator. The connection object belongs to
  the \<^verbatim>\<open>websockets\<close> package; the model keeps the protocol state it is in, which changes from
  outside, and takes every outcome of connecting, sending and receiving as an input. Holds the
  bounded retry of \<^verbatim>\<open>connect\<close>, the outgoing message queue (\<^verbatim>\<open>send_message\<close>,
  \<^verbatim>\<open>_send_pending_messages\<close>), the decoding of events, the loop of \<^verbatim>\<open>listen\<close> and the exit hooks.
\<close>

section \<open>State\<close>

datatype ws_state = CONNECTING | OPEN | CLOSING | CLOSED

text \<open>
  The package documents \<^verbatim>\<open>State\<close> as an integer enumeration with these values; the code takes
  the truth value of a state.
\<close>

definition documented_state_values :: "(ws_state \<Rightarrow> nat) \<Rightarrow> bool" where
  "documented_state_values val \<longleftrightarrow>
     val CONNECTING = 0 \<and> val OPEN = 1 \<and> val CLOSING = 2 \<and> val CLOSED = 3"

record websocket_client =
  retry_interval :: nat
  max_retries :: nat
  listening :: "bool option"
  ws_host :: pystr
  ws_port :: nat
  ws_crunch_id :: pystr
  websocket :: "ws_state option"
  has_event_handler :: bool
  message_queue :: "pystr list"

definition new_websocket_client :: "pystr \<Rightarrow> nat \<Rightarrow> pystr \<Rightarrow> bool \<Rightarrow> websocket_client" where
  "new_websocket_client host prt crunch handler =
     \<lparr>retry_interval = 10, max_retries = 5, listening = None, ws_host = host, ws_port = prt,
      ws_crunch_id = crunch, websocket = None, has_event_handler = handler,
      message_queue = []\<rparr>"

definition is_connected :: "websocket_client \<Rightarrow> bool" where
  "is_connected w = (websocket w = Some OPEN)"

section \<open>connect\<close>

text \<open>
  One attempt: connected, failed with an exception (and then slept), or failed with an
  exception and cancelled during the sleep.
\<close>

datatype attempt = Connected | Refused exn | Refused_cancelled exn

definition connect_finish :: "websocket_client \<Rightarrow> nat \<Rightarrow> websocket_client \<times> unit result" where
  "connect_finish w retry_count =
     (if retry_count = max_retries w \<and> websocket w = None
      then (w, Inl (ConnectionError (lit ''Failed to connect to WebSocket server'')))
      else (w, Inr ()))"

function connect_from ::
  "(nat \<Rightarrow> attempt) \<Rightarrow> websocket_client \<Rightarrow> nat \<Rightarrow> websocket_client \<times> unit result" where
  "connect_from env w retry_count =
     (if max_retries w > retry_count
      then (case env retry_count of
              Connected \<Rightarrow> connect_finish (w\<lparr>websocket := Some OPEN\<rparr>) retry_count
            | Refused e \<Rightarrow> (if is_Exception e then connect_from env w (Suc retry_count)
                           else (w, Inl e))
            | Refused_cancelled e \<Rightarrow> (w, Inl (if is_Exception e then CancelledError else e)))
      else connect_finish w retry_count)"
  by pat_completeness auto
termination
  by (relation "measure (\<lambda>(env, w, k). max_retries w - k)") auto

declare connect_from.simps [simp del]

definition connect ::
  "(nat \<Rightarrow> attempt) \<Rightarrow> websocket_client \<Rightarrow> websocket_client \<times> unit result" where
  "connect env w = connect_from env w 0"

text \<open>An attempt that fails with an \<^verbatim>\<open>Exception\<close>: the loop goes on.\<close>

definition refused :: "attempt \<Rightarrow> bool" where
  "refused a = (case a of Refused e \<Rightarrow> is_Exception e | _ \<Rightarrow> False)"

lemma connect_from_refused:
  assumes "j \<le> k" and "k \<le> max_retries w" and "\<And>i. j \<le> i \<Longrightarrow> i < k \<Longrightarrow> refused (env i)"
  shows "connect_from env w j = connect_from env w k"
  using assms
proof (induction "k - j" arbitrary: j)
  case (Suc d)
  then have "j < k" by simp
  then have "refused (env j)" using Suc.prems by simp
  then have "connect_from env w j = connect_from env w (Suc j)"
    using \<open>j < k\<close> Suc.prems(2)
    by (subst connect_from.simps) (auto simp: refused_def split: attempt.splits)
  also have "\<dots> = connect_from env w k"
    by (rule Suc.hyps) (use Suc.prems Suc.hyps(2) \<open>j < k\<close> in auto)
  finally show ?case .
qed simp

lemma connect_succeeds:
  assumes "k < max_retries w" and "env k = Connected" and "\<And>i. i < k \<Longrightarrow> refused (env i)"
  shows "connect env w = (w\<lparr>websocket := Some OPEN\<rparr>, Inr ())"
proof -
  have "connect env w = connect_from env w k"
    unfolding connect_def by (rule connect_from_refused) (use assms in auto)
  also have "\<dots> = (w\<lparr>websocket := Some OPEN\<rparr>, Inr ())"
    using assms by (subst connect_from.simps) (simp add: connect_finish_def)
  finally show ?thesis .
qed

lemma connect_exhausted:
  assumes "\<And>i. i < max_retries w \<Longrightarrow> refused (env i)"
  shows "connect env w = connect_finish w (max_retries w)"
proof -
  have "connect env w = connect_from env w (max_retries w)"
    unfolding connect_def by (rule connect_from_refused) (use assms in auto)
  then show ?thesis by (simp add: connect_from.simps [of env w "max_retries w"])
qed

section \<open>Events\<close>

text \<open>
  \<^verbatim>\<open>handle_event\<close>: \<open>P\<close> is the conversion of numerals to doubles, \<open>handler\<close> the outcome of the delegated
  event handler. Only \<^verbatim>\<open>JSONDecodeError\<close> is caught.
\<close>

definition decode_event :: "(pystr \<Rightarrow> 64 word) \<Rightarrow> pystr \<Rightarrow> (json \<times> json) result" where
  "decode_event P message =
     (case loads P message of
        Inl e \<Rightarrow> Inl e
      | Inr event \<Rightarrow> (case as_dict event of
          Inl e \<Rightarrow> Inl e
        | Inr d \<Rightarrow> Inr (dget d (lit ''event''), dget d (lit ''data''))))"

definition handle_event ::
  "(pystr \<Rightarrow> 64 word) \<Rightarrow> (json \<Rightarrow> json \<Rightarrow> exn option) \<Rightarrow> websocket_client \<Rightarrow> pystr \<Rightarrow>
   exn option" where
  "handle_event P handler w message =
     (let outcome = (case decode_event P message of
          Inl e \<Rightarrow> Some e
        | Inr (event_type, data) \<Rightarrow>
            (if has_event_handler w then handler event_type data else None))
      in if outcome = Some JSONDecodeError then None else outcome)"

text \<open>\<^verbatim>\<open>init\<close>: the first message; every \<^verbatim>\<open>Exception\<close> is logged and dropped.\<close>

definition ws_init ::
  "(pystr \<Rightarrow> 64 word) \<Rightarrow> (json \<Rightarrow> json \<Rightarrow> exn option) \<Rightarrow> websocket_client \<Rightarrow> pystr result \<Rightarrow>
   exn option" where
  "ws_init P handler w received =
     (let outcome = (case websocket w of
          None \<Rightarrow> Some AttributeError
        | Some _ \<Rightarrow> (case received of
            Inl e \<Rightarrow> Some e
          | Inr message \<Rightarrow> handle_event P handler w message))
      in case outcome of
           None \<Rightarrow> None
         | Some e \<Rightarrow> (if is_Exception e then None else Some e))"

section \<open>Outgoing messages\<close>

text \<open>
  \<^verbatim>\<open>send_message\<close> up to its await of the socket: it either awaits the socket (\<^verbatim>\<open>True\<close>) or has
  queued the message and is done; and its end, given the outcome of the send.
\<close>

definition enqueue :: "websocket_client \<Rightarrow> pystr \<Rightarrow> websocket_client" where
  "enqueue w message = w\<lparr>message_queue := message_queue w @ [message]\<rparr>"

definition send_message_begin ::
  "websocket_client \<Rightarrow> pystr \<Rightarrow> websocket_client \<times> bool" where
  "send_message_begin w message =
     (if is_connected w then (w, True) else (enqueue w message, False))"

definition send_message_end ::
  "websocket_client \<Rightarrow> pystr \<Rightarrow> exn option \<Rightarrow> websocket_client \<times> exn option" where
  "send_message_end w message outcome =
     (case outcome of
        None \<Rightarrow> (w, None)
      | Some e \<Rightarrow> (if e = ConnectionClosed \<or> e = InvalidState \<or> e = TimeoutError
                  then (enqueue w message, None)
                  else (w, Some e)))"

text \<open>
  What \<^verbatim>\<open>process_failure\<close> relies on: a message handed over is transmitted or waits in the queue,
  unless an exception says otherwise.
\<close>

locale message_sink =
  fixes pending :: "'w \<Rightarrow> 'm list"
    and hand_over :: "'w \<Rightarrow> 'm \<Rightarrow> 'w \<times> bool"
    and conclude :: "'w \<Rightarrow> 'm \<Rightarrow> exn option \<Rightarrow> 'w \<times> exn option"
  assumes hand_over_sync: "hand_over w m = (w', False) \<Longrightarrow> pending w' = pending w @ [m]"
    and hand_over_async: "hand_over w m = (w', True) \<Longrightarrow> w' = w"
    and conclude_sent: "conclude w m None = (w, None)"
    and conclude_kept: "conclude w m (Some e) = (w', None) \<Longrightarrow> pending w' = pending w @ [m]"
    and conclude_raised: "conclude w m outcome = (w', Some e) \<Longrightarrow> outcome = Some e \<and> w' = w"
begin

lemma conclude_grows:
  "conclude w m outcome = (w', res) \<Longrightarrow>
   pending w' = pending w \<or> pending w' = pending w @ [m]"
  by (cases outcome; cases res)
     (auto dest: conclude_kept conclude_raised simp: conclude_sent)

lemma not_lost:
  "conclude w m outcome = (w', None) \<Longrightarrow> outcome = None \<or> m \<in> set (pending w')"
  by (cases outcome) (auto dest: conclude_kept)

end

interpretation sink: message_sink message_queue send_message_begin send_message_end
  by unfold_locales
     (auto simp: send_message_begin_def send_message_end_def enqueue_def
       split: if_splits option.splits)

text \<open>
  \<^verbatim>\<open>_send_pending_messages\<close>: each element of the first argument is the outcome of one send and
  the messages that other coroutines queued while it was awaited. The result is the messages
  transmitted, the queue, and how the loop ended (\<open>Flushing\<close>: a send is still awaited).
\<close>

datatype flush_result = Flushing | Flushed | Flush_raised exn

fun send_pending_messages ::
  "(exn option \<times> pystr list) list \<Rightarrow> pystr list \<Rightarrow> pystr list \<times> pystr list \<times> flush_result" where
  "send_pending_messages outs [] = ([], [], Flushed)"
| "send_pending_messages [] (message # queue) = ([], message # queue, Flushing)"
| "send_pending_messages ((outcome, arrived) # outs) (message # queue) =
     (case outcome of
        None \<Rightarrow> (case send_pending_messages outs (queue @ arrived) of
                   (sent, queue', res) \<Rightarrow> (message # sent, queue', res))
      | Some e \<Rightarrow> ([], if is_Exception e then (queue @ arrived) @ [message] else queue @ arrived,
                  Flush_raised e))"

section \<open>listen\<close>

text \<open>
  The loop as a machine: \<open>Top\<close> tests the flag, \<open>Linking\<close> awaits \<^verbatim>\<open>connect\<close>, \<open>Draining\<close>
  awaits \<^verbatim>\<open>_send_pending_messages\<close>, \<open>Reading\<close> is the \<^verbatim>\<open>async for\<close>, \<open>Sleeping\<close> the pause of
  the exception handlers. The \<^verbatim>\<open>finally\<close> clause runs on leaving an iteration.
\<close>

datatype listen_pc = Top | Linking | Draining | Reading | Sleeping | Stopped | Failed exn

datatype listen_event =
    Check
  | Connect_outcome "nat \<Rightarrow> attempt"
  | Drain_outcome "(exn option \<times> pystr list) list"
  | Message pystr
  | Closed_normally
  | Receive_error exn
  | Sleep_over "exn option"
  | Connection_state ws_state
  | Disconnect

definition listen_finally :: "(ws_state \<Rightarrow> nat) \<Rightarrow> websocket_client \<Rightarrow> websocket_client" where
  "listen_finally val w =
     (case websocket w of
        None \<Rightarrow> w
      | Some st \<Rightarrow> (if val st = 0 then w\<lparr>websocket := None\<rparr> else w))"

definition listen_except ::
  "(ws_state \<Rightarrow> nat) \<Rightarrow> websocket_client \<Rightarrow> exn \<Rightarrow> websocket_client \<times> listen_pc" where
  "listen_except val w e =
     (if is_Exception e then (w, Sleeping) else (listen_finally val w, Failed e))"

definition listen_begin :: "websocket_client \<Rightarrow> websocket_client \<times> listen_pc" where
  "listen_begin w = (w\<lparr>listening := Some True\<rparr>, Top)"

definition disconnect :: "websocket_client \<Rightarrow> websocket_client" where
  "disconnect w =
     (let w' = w\<lparr>listening := Some False\<rparr>
      in case websocket w' of None \<Rightarrow> w' | Some _ \<Rightarrow> w'\<lparr>websocket := Some CLOSED\<rparr>)"

fun listen_step ::
  "(ws_state \<Rightarrow> nat) \<Rightarrow> (pystr \<Rightarrow> 64 word) \<Rightarrow> (json \<Rightarrow> json \<Rightarrow> exn option) \<Rightarrow>
   websocket_client \<times> listen_pc \<Rightarrow> listen_event \<Rightarrow> websocket_client \<times> listen_pc" where
  "listen_step val P handler (w, Top) Check =
     (if listening w = Some True
      then (if is_connected w then (w, Reading) else (w, Linking))
      else (w, Stopped))"
| "listen_step val P handler (w, Linking) (Connect_outcome env) =
     (case connect env w of
        (w', Inr _) \<Rightarrow> (w', Draining)
      | (w', Inl e) \<Rightarrow> listen_except val w' e)"
| "listen_step val P handler (w, Draining) (Drain_outcome outs) =
     (case send_pending_messages outs (message_queue w) of
        (sent, queue, res) \<Rightarrow>
          (let w' = w\<lparr>message_queue := queue\<rparr> in
           case res of
             Flushed \<Rightarrow> (w', Reading)
           | Flushing \<Rightarrow> (w', Draining)
           | Flush_raised e \<Rightarrow> listen_except val w' e))"
| "listen_step val P handler (w, Reading) (Message m) =
     (case handle_event P handler w m of
        None \<Rightarrow> (w, Reading)
      | Some e \<Rightarrow> listen_except val w e)"
| "listen_step val P handler (w, Reading) Closed_normally = (listen_finally val w, Top)"
| "listen_step val P handler (w, Reading) (Receive_error e) = listen_except val w e"
| "listen_step val P handler (w, Sleeping) (Sleep_over None) = (listen_finally val w, Top)"
| "listen_step val P handler (w, Sleeping) (Sleep_over (Some e)) =
     (listen_finally val w, Failed e)"
| "listen_step val P handler (w, pc) (Connection_state st) =
     (case websocket w of None \<Rightarrow> (w, pc) | Some _ \<Rightarrow> (w\<lparr>websocket := Some st\<rparr>, pc))"
| "listen_step val P handler (w, pc) Disconnect = (disconnect w, pc)"
| "listen_step val P handler (w, pc) _ = (w, pc)"

definition listen_run ::
  "(ws_state \<Rightarrow> nat) \<Rightarrow> (pystr \<Rightarrow> 64 word) \<Rightarrow> (json \<Rightarrow> json \<Rightarrow> exn option) \<Rightarrow>
   websocket_client \<times> listen_pc \<Rightarrow> listen_event list \<Rightarrow> websocket_client \<times> listen_pc" where
  "listen_run val P handler = foldl (listen_step val P handler)"

section \<open>Exit hooks\<close>

text \<open>
  \<^verbatim>\<open>__del__\<close> registers \<^verbatim>\<open>disconnect_sync\<close> of the object with \<^verbatim>\<open>atexit\<close>, which keeps the object alive
  and calls what was registered last first, each hook whatever the others raised. \<open>unusable\<close> is the
  exception of \<^verbatim>\<open>get_event_loop\<close>, or of \<^verbatim>\<open>run_until_complete\<close> before it runs anything, if there is
  one: a program that ended its loop has none left.
\<close>

definition register_exit :: "websocket_client list \<Rightarrow> websocket_client \<Rightarrow> websocket_client list" where
  "register_exit hooks w = hooks @ [w]"

definition disconnect_sync ::
  "exn option \<Rightarrow> websocket_client \<Rightarrow> websocket_client \<times> exn option" where
  "disconnect_sync unusable w =
     (case unusable of Some e \<Rightarrow> (w, Some e) | None \<Rightarrow> (disconnect w, None))"

definition run_exit_hooks ::
  "(websocket_client \<Rightarrow> exn option) \<Rightarrow> websocket_client list \<Rightarrow>
   (websocket_client \<times> exn option) list" where
  "run_exit_hooks loop_of hooks = map (\<lambda>w. disconnect_sync (loop_of w) w) (rev hooks)"

text \<open>A client is disconnected at exit exactly if there still is an event loop for it.\<close>

lemma disconnected_at_exit:
  "websocket w = Some OPEN \<Longrightarrow>
   websocket (fst (disconnect_sync unusable w)) = Some CLOSED \<longleftrightarrow> unusable = None"
  by (simp add: disconnect_sync_def disconnect_def Let_def split: option.split)

lemma every_hook_runs:
  "w \<in> set hooks \<or> w = v \<Longrightarrow> loop_of w = None \<Longrightarrow>
   (disconnect w, None) \<in> set (run_exit_hooks loop_of (register_exit hooks v))"
  by (force simp: run_exit_hooks_def register_exit_def disconnect_sync_def)


section \<open>Lemmas on the queue\<close>

text \<open>Messages leave in the order they were queued, those that arrived meanwhile after the old ones.\<close>

lemma flush_prefix:
  "send_pending_messages outs queue = (sent, queue', res) \<Longrightarrow>
   sent = take (length sent) (queue @ concat (map snd outs))"
proof (induction outs queue arbitrary: sent queue' res rule: send_pending_messages.induct)
  case (3 outcome arrived outs message queue)
  then show ?case by (auto split: option.splits prod.splits)
qed simp_all

text \<open>The messages that arrived during the sends the loop actually made.\<close>

fun arrivals :: "(exn option \<times> pystr list) list \<Rightarrow> pystr list \<Rightarrow> pystr list" where
  "arrivals outs [] = []"
| "arrivals [] queue = []"
| "arrivals ((outcome, arrived) # outs) (message # queue) =
     (if outcome = None then arrived @ arrivals outs (queue @ arrived) else arrived)"

lemma flush_no_exception:
  "send_pending_messages outs queue = (sent, queue', res) \<Longrightarrow> (\<forall>e. res \<noteq> Flush_raised e) \<Longrightarrow>
   sent @ queue' = queue @ arrivals outs queue"
proof (induction outs queue arbitrary: sent queue' res rule: send_pending_messages.induct)
  case (3 outcome arrived outs message queue)
  then show ?case by (auto split: option.splits prod.splits if_splits)
qed simp_all

lemma flush_exception:
  "send_pending_messages outs queue = (sent, queue', Flush_raised e) \<Longrightarrow> is_Exception e \<Longrightarrow>
   \<exists>m rest. queue @ arrivals outs queue = sent @ m # rest \<and> queue' = rest @ [m]"
proof (induction outs queue arbitrary: sent queue' rule: send_pending_messages.induct)
  case (3 outcome arrived outs message queue)
  show ?case
  proof (cases outcome)
    case None
    then obtain sent' where rest: "send_pending_messages outs (queue @ arrived) =
        (sent', queue', Flush_raised e)" and sent: "sent = message # sent'"
      using "3.prems"(1) by (auto split: prod.splits)
    then show ?thesis using "3.IH" [OF None rest] "3.prems"(2) None by auto
  qed (use 3 in auto)
qed simp_all

lemma flush_completes:
  "length queue \<le> length outs \<Longrightarrow> list_all (\<lambda>(out, arr). out = None \<and> arr = []) outs \<Longrightarrow>
   send_pending_messages outs queue = (queue, [], Flushed)"
  by (induction outs queue rule: send_pending_messages.induct) auto

section \<open>Lemmas on the loop\<close>

text \<open>
  The events under which the loop must go on: no cancellation is delivered and nobody calls
  \<^verbatim>\<open>disconnect\<close>. The handler may raise any \<^verbatim>\<open>Exception\<close>.
\<close>

definition attempt_uncancelled :: "attempt \<Rightarrow> bool" where
  "attempt_uncancelled a =
     (case a of Connected \<Rightarrow> True | Refused e \<Rightarrow> is_Exception e | Refused_cancelled _ \<Rightarrow> False)"

fun undisturbed :: "listen_event \<Rightarrow> bool" where
  "undisturbed (Connect_outcome env) = (\<forall>k. attempt_uncancelled (env k))"
| "undisturbed (Drain_outcome outs) = list_all (\<lambda>(out, arr). out \<noteq> Some CancelledError) outs"
| "undisturbed (Receive_error e) = is_Exception e"
| "undisturbed (Sleep_over out) = (out = None)"
| "undisturbed Disconnect = False"
| "undisturbed _ = True"

definition alive :: "websocket_client \<times> listen_pc \<Rightarrow> bool" where
  "alive s \<longleftrightarrow> listening (fst s) = Some True \<and> snd s \<noteq> Stopped \<and> (\<forall>e. snd s \<noteq> Failed e)"

lemma connect_from_undisturbed:
  "(\<forall>k. attempt_uncancelled (env k)) \<Longrightarrow> connect_from env w j = (w', res) \<Longrightarrow>
   listening w' = listening w \<and> res \<noteq> Inl CancelledError"
proof (induction env w j arbitrary: w' res rule: connect_from.induct)
  case (1 env w j)
  have a: "attempt_uncancelled (env j)" using "1.prems"(1) by blast
  show ?case
  proof (cases "j < max_retries w")
    case True
    then show ?thesis
      using 1 a
      by (auto simp: connect_from.simps [of env w j] connect_finish_def attempt_uncancelled_def
          split: attempt.splits if_splits)
  next
    case False
    then show ?thesis
      using "1.prems"(2)
      by (auto simp: connect_from.simps [of env w j] connect_finish_def split: if_splits)
  qed
qed

lemma flush_undisturbed:
  "list_all (\<lambda>(out, arr). out \<noteq> Some CancelledError) outs \<Longrightarrow>
   send_pending_messages outs queue \<noteq> (sent, queue', Flush_raised CancelledError)"
proof (induction outs queue arbitrary: sent queue' rule: send_pending_messages.induct)
  case (3 outcome arrived outs message queue)
  then show ?case by (auto split: option.splits prod.splits)
qed simp_all

lemma listen_finally_listening [simp]: "listening (listen_finally val w) = listening w"
  by (simp add: listen_finally_def split: option.split)

lemma alive_except: "listening w = Some True \<Longrightarrow> is_Exception e \<Longrightarrow> alive (listen_except val w e)"
  by (simp add: alive_def listen_except_def)

lemma as_dict_raises: "as_dict x = Inl e \<Longrightarrow> e = AttributeError"
  by (cases x) auto

lemma handle_event_Exception:
  "(\<And>t d. handler t d \<noteq> Some CancelledError) \<Longrightarrow>
   handle_event P handler w m = Some e \<Longrightarrow> is_Exception e"
  by (rule ccontr)
     (auto simp: handle_event_def decode_event_def Let_def dest!: as_dict_raises
       split: sum.splits if_splits)

lemma linking_alive:
  assumes "listening w = Some True" and "\<forall>k. attempt_uncancelled (env k)"
  shows "alive (listen_step val P handler (w, Linking) (Connect_outcome env))"
proof -
  obtain w' res where c: "connect env w = (w', res)" by fastforce
  from connect_from_undisturbed [OF assms(2) c [unfolded connect_def]]
  have "listening w' = Some True" and "res \<noteq> Inl CancelledError"
    using assms(1) by simp_all
  then show ?thesis
    using c by (cases res) (simp_all add: alive_def listen_except_def)
qed

lemma draining_alive:
  assumes "listening w = Some True" and "list_all (\<lambda>(out, arr). out \<noteq> Some CancelledError) outs"
  shows "alive (listen_step val P handler (w, Draining) (Drain_outcome outs))"
proof -
  obtain sent queue res where f: "send_pending_messages outs (message_queue w) = (sent, queue, res)"
    by (metis prod_cases3)
  then have "res \<noteq> Flush_raised CancelledError"
    using flush_undisturbed [OF assms(2), of "message_queue w" sent queue] by auto
  then show ?thesis
    using f assms(1) by (cases res) (auto simp: alive_def listen_except_def Let_def)
qed

lemma listen_step_alive:
  assumes "alive s" and "undisturbed ev"
    and "\<And>t d. handler t d \<noteq> Some CancelledError"
  shows "alive (listen_step val P handler s ev)"
proof -
  obtain w pc where s: "s = (w, pc)" by fastforce
  have l: "listening w = Some True" and pc: "pc \<noteq> Stopped" "\<And>e. pc \<noteq> Failed e"
    using assms(1) by (auto simp: s alive_def)
  have same: "alive (w, pc)" using assms(1) by (simp add: s)
  show ?thesis
  proof (cases ev)
    case Check
    then show ?thesis using l pc same by (cases pc) (simp_all add: s alive_def)
  next
    case (Connect_outcome env)
    then show ?thesis using linking_alive [OF l] assms(2) same by (cases pc) (simp_all add: s)
  next
    case (Drain_outcome outs)
    then show ?thesis using draining_alive [OF l] assms(2) same by (cases pc) (simp_all add: s)
  next
    case (Message m)
    then show ?thesis
      using alive_except [OF l] handle_event_Exception [of handler P w m, OF assms(3)] same
      by (cases pc) (auto simp: s split: option.split)
  next
    case Closed_normally
    then show ?thesis using l same by (cases pc) (simp_all add: s alive_def)
  next
    case (Receive_error e)
    then show ?thesis using alive_except [OF l] assms(2) same by (cases pc) (simp_all add: s)
  next
    case (Sleep_over out)
    then show ?thesis using l assms(2) same by (cases pc) (simp_all add: s alive_def)
  next
    case (Connection_state st)
    then show ?thesis using l pc by (cases pc) (simp_all add: s alive_def split: option.split)
  next
    case Disconnect
    then show ?thesis using assms(2) by simp
  qed
qed

lemma listen_run_alive:
  assumes "alive s" and "list_all undisturbed evs"
    and "\<And>t d. handler t d \<noteq> Some CancelledError"
  shows "alive (listen_run val P handler s evs)"
  using assms(1,2)
  by (induction evs arbitrary: s)
     (simp_all add: listen_run_def listen_step_alive [OF _ _ assms(3)])

end
