(* ===== verification/Model_Cluster.thy ===== *)
theory Model_Cluster
  imports Model_Runner Websocket_Client
begin

text \<open>
  \<^verbatim>\<open>model_cluster.py\<close>: the set of models the coordinator knows, kept in step with the
  orchestrator's events. Runner objects live in a heap indexed by address (identity, \<^verbatim>\<open>is\<close>, is
  equality of addresses); the two dictionaries map a model id to an address.

  The methods are coroutines that interleave at their awaits. A suspended coroutine is a value: the
  operation it awaits and a stack of frames, one per pending \<^verbatim>\<open>await\<close> of a coroutine by a
  coroutine. \<open>begin_call\<close> starts a coroutine, \<open>micro\<close> returns an outcome into the topmost frame,
  \<open>drive\<close> repeats \<open>micro\<close> up to the next suspension (code between two awaits is atomic in
  \<^verbatim>\<open>asyncio\<close>), and \<open>resume\<close> delivers the outcome of the awaited operation. The interleaving of all
  tasks is the step relation of the theory \<^verbatim>\<open>Cluster_System\<close>.
\<close>

section \<open>State\<close>

record 'r cluster =
  models_run :: "(json \<times> nat) list"
  pending_model_runs :: "(json \<times> nat) list"
  ws_client :: websocket_client
  report_failure :: bool
  heap :: "nat \<Rightarrow> 'r"
  next_address :: nat

text \<open>
  What the cluster calls but does not define: the factory it was given, the synchronous prefix of
  the runner subclass's \<^verbatim>\<open>setup\<close>, and \<^verbatim>\<open>json.dumps\<close>.
\<close>

record 'r environment =
  model_factory :: "json \<Rightarrow> json \<Rightarrow> json \<Rightarrow> json \<Rightarrow> json \<Rightarrow> json \<Rightarrow> 'r result"
  setup_prefix :: "'r \<Rightarrow> 'r"
  dumps :: "json \<Rightarrow> pystr"

definition new_cluster :: "(nat \<Rightarrow> 'r) \<Rightarrow> pystr \<Rightarrow> pystr \<Rightarrow> nat \<Rightarrow> bool \<Rightarrow> 'r cluster" where
  "new_cluster blank crunch host prt report =
     \<lparr>models_run = [], pending_model_runs = [],
      ws_client = new_websocket_client host prt crunch True, report_failure = report,
      heap = blank, next_address = 0\<rparr>"

text \<open>\<^verbatim>\<open>self.models_run.get(id) or self.pending_model_runs.get(id)\<close>\<close>

definition find_model :: "'r cluster \<Rightarrow> json \<Rightarrow> nat option" where
  "find_model c mid =
     (case map_of (models_run c) mid of
        Some a \<Rightarrow> Some a
      | None \<Rightarrow> map_of (pending_model_runs c) mid)"

definition modify :: "nat \<Rightarrow> ('r \<Rightarrow> 'r) \<Rightarrow> 'r cluster \<Rightarrow> 'r cluster" where
  "modify a f c = c\<lparr>heap := (heap c)(a := f (heap c a))\<rparr>"

definition allocate :: "'r \<Rightarrow> 'r cluster \<Rightarrow> 'r cluster \<times> nat" where
  "allocate r c =
     (c\<lparr>heap := (heap c)(next_address c := r), next_address := Suc (next_address c)\<rparr>,
      next_address c)"

section \<open>Coroutines\<close>

datatype outcome = Ok | Init_pair bool "error_type option" | Init_none | Raise exn

datatype wait = On_close nat | On_init nat init_pc | On_send pystr

datatype frame =
    After_close nat
  | After_replace nat
  | After_init nat
  | After_send nat
  | After_reconnect_remove nat
  | Reconnect_guard nat

datatype status = Run outcome "frame list" | Wait wait "frame list" | Done outcome

text \<open>The coroutines that are started as tasks of their own.\<close>

datatype call = Remove nat | Add nat | Report nat pystr json | Reconnect nat

text \<open>\<^verbatim>\<open>remove_model_runner\<close>, before and after \<^verbatim>\<open>await model_runner.close()\<close>.\<close>

definition remove_begin ::
  "nat \<Rightarrow> frame list \<Rightarrow> 'a runner_scheme cluster \<Rightarrow> 'a runner_scheme cluster \<times> status" where
  "remove_begin a fs c =
     (let c' = modify a close_begin c
      in if close_awaits (heap c' a) then (c', Wait (On_close a) (After_close a # fs))
         else (c', Run Ok (After_close a # fs)))"

definition remove_end :: "nat \<Rightarrow> 'a runner_scheme cluster \<Rightarrow> 'a runner_scheme cluster" where
  "remove_end a c =
     (let mid = model_id (heap c a)
      in c\<lparr>models_run := drop_if_is mid a (models_run c),
           pending_model_runs := drop_if_is mid a (pending_model_runs c)\<rparr>)"

text \<open>
  \<^verbatim>\<open>add_model_runner\<close>: up to the removal of the current model, from there to the await of
  \<^verbatim>\<open>init\<close>, and what follows when \<^verbatim>\<open>init\<close> is over.
\<close>

definition add_begin ::
  "nat \<Rightarrow> frame list \<Rightarrow> 'a runner_scheme cluster \<Rightarrow> 'a runner_scheme cluster \<times> status" where
  "add_begin a fs c =
     (case find_model c (model_id (heap c a)) of
        Some current \<Rightarrow> remove_begin current (After_replace a # fs) c
      | None \<Rightarrow> (c, Run Ok (After_replace a # fs)))"

fun init_status :: "nat \<Rightarrow> frame list \<Rightarrow> init_next \<Rightarrow> status" where
  "init_status a fs (Await pc) = Wait (On_init a pc) (After_init a # fs)"
| "init_status a fs (Returned b err) = Run (Init_pair b err) (After_init a # fs)"
| "init_status a fs Returned_none = Run Init_none (After_init a # fs)"
| "init_status a fs (Raised e) = Run (Raise e) (After_init a # fs)"

definition add_init ::
  "conn_outcome \<Rightarrow> nat \<Rightarrow> frame list \<Rightarrow> 'a runner_scheme cluster \<Rightarrow>
   'a runner_scheme cluster \<times> status" where
  "add_init conn a fs c =
     (let c' = c\<lparr>pending_model_runs :=
                   AList.update (model_id (heap c a)) a (pending_model_runs c)\<rparr>;
          (r, nxt) = init_begin conn (heap c' a)
      in (modify a (\<lambda>_. r) c', init_status a fs nxt))"

definition add_unpend :: "nat \<Rightarrow> 'a runner_scheme cluster \<Rightarrow> 'a runner_scheme cluster" where
  "add_unpend a c =
     c\<lparr>pending_model_runs := drop_if_is (model_id (heap c a)) a (pending_model_runs c)\<rparr>"

definition add_enlist :: "nat \<Rightarrow> 'a runner_scheme cluster \<Rightarrow> 'a runner_scheme cluster" where
  "add_enlist a c = c\<lparr>models_run := AList.update (model_id (heap c a)) a (models_run c)\<rparr>"

text \<open>\<^verbatim>\<open>process_failure\<close>: the report, up to the await of the socket, and the removal that follows.\<close>

definition failure_message :: "'a runner_scheme \<Rightarrow> pystr \<Rightarrow> json \<Rightarrow> json" where
  "failure_message r code reason =
     JObj [(lit ''event'', jstr ''report_failure''),
           (lit ''data'', JArr [JObj
              [(lit ''model_id'', model_id r),
               (lit ''failure_code'', JStr code),
               (lit ''failure_reason'', reason),
               (lit ''ip'', ip r)]])]"

definition report_begin ::
  "'a runner_scheme environment \<Rightarrow> nat \<Rightarrow> pystr \<Rightarrow> json \<Rightarrow> frame list \<Rightarrow>
   'a runner_scheme cluster \<Rightarrow> 'a runner_scheme cluster \<times> status" where
  "report_begin K a code reason fs c =
     (if \<not> report_failure c then (c, Run Ok fs)
      else let message = dumps K (failure_message (heap c a) code reason);
               (w, awaits) = send_message_begin (ws_client c) message;
               c' = c\<lparr>ws_client := w\<rparr>
           in if awaits then (c', Wait (On_send message) (After_send a # fs))
              else (c', Run Ok (After_send a # fs)))"

definition add_failed ::
  "'a runner_scheme environment \<Rightarrow> nat \<Rightarrow> error_type option \<Rightarrow> frame list \<Rightarrow>
   'a runner_scheme cluster \<Rightarrow> 'a runner_scheme cluster \<times> status" where
  "add_failed K a err fs c =
     (if err = Some BAD_IMPLEMENTATION
      then report_begin K a (lit ''BAD_IMPLEMENTATION'') JNull fs c
      else if err = Some ABORTED then (c, Run Ok fs)
      else if err = Some GRPC_CONNECTION_FAILED \<or> err = Some AUTH_ERROR
      then report_begin K a (lit ''CONNECTION_FAILED'') JNull fs c
      else report_begin K a (lit ''MULTIPLE_FAILED'') JNull fs c)"

text \<open>
  \<^verbatim>\<open>reconnect_model_runner\<close>: after the removal, a fresh object with the old one's parameters is
  added; the guard frame is its \<^verbatim>\<open>except Exception\<close>.
\<close>

definition reconnect_rebuild ::
  "'a runner_scheme environment \<Rightarrow> nat \<Rightarrow> frame list \<Rightarrow> 'a runner_scheme cluster \<Rightarrow>
   'a runner_scheme cluster \<times> status" where
  "reconnect_rebuild K a fs c =
     (let old = heap c a in
      case model_factory K (deployment_id old) (model_id old) (model_name old) (ip old)
             (port old) (infos old) of
        Inl e \<Rightarrow> (c, Run (Raise e) fs)
      | Inr r \<Rightarrow> (let (c', b) = allocate r c in add_begin b fs c'))"

definition begin_call ::
  "'a runner_scheme environment \<Rightarrow> call \<Rightarrow> 'a runner_scheme cluster \<Rightarrow>
   'a runner_scheme cluster \<times> status" where
  "begin_call K cl c =
     (case cl of
        Remove a \<Rightarrow> remove_begin a [] c
      | Add a \<Rightarrow> add_begin a [] c
      | Report a code reason \<Rightarrow> report_begin K a code reason [] c
      | Reconnect a \<Rightarrow> remove_begin a [After_reconnect_remove a, Reconnect_guard a] c)"

fun micro ::
  "'a runner_scheme environment \<Rightarrow> conn_outcome \<Rightarrow> outcome \<Rightarrow> frame \<Rightarrow> frame list \<Rightarrow>
   'a runner_scheme cluster \<Rightarrow> 'a runner_scheme cluster \<times> status" where
  "micro K conn (Raise e) (After_init a) fs c = (add_unpend a c, Run (Raise e) fs)"
| "micro K conn (Raise e) (Reconnect_guard a) fs c =
     (c, Run (if is_Exception e then Ok else Raise e) fs)"
| "micro K conn (Raise e) _ fs c = (c, Run (Raise e) fs)"
| "micro K conn (Init_pair b err) (After_init a) fs c =
     (if b then (add_enlist a (add_unpend a c), Run Ok fs)
      else add_failed K a err fs (add_unpend a c))"
| "micro K conn _ (After_init a) fs c = (add_unpend a c, Run (Raise TypeError) fs)"
| "micro K conn _ (After_close a) fs c = (remove_end a c, Run Ok fs)"
| "micro K conn _ (After_replace a) fs c = add_init conn a fs c"
| "micro K conn _ (After_send a) fs c = remove_begin a fs c"
| "micro K conn _ (After_reconnect_remove a) fs c = reconnect_rebuild K a fs c"
| "micro K conn _ (Reconnect_guard a) fs c = (c, Run Ok fs)"

text \<open>
  Every return consumes a frame of a higher weight than those it pushes, so the coroutine reaches
  its next await or its end.
\<close>

fun weight :: "frame \<Rightarrow> nat" where
  "weight (After_close a) = 1"
| "weight (After_send a) = 2"
| "weight (After_init a) = 3"
| "weight (After_replace a) = 4"
| "weight (After_reconnect_remove a) = 6"
| "weight (Reconnect_guard a) = 1"

fun load :: "status \<Rightarrow> nat" where
  "load (Run out fs) = sum_list (map weight fs)"
| "load (Wait w fs) = 0"
| "load (Done out) = 0"

lemma remove_begin_load:
  "remove_begin a fs c = (c', st) \<Longrightarrow> load st \<le> 1 + sum_list (map weight fs)"
  by (auto simp: remove_begin_def Let_def split: if_splits)

lemma report_begin_load:
  "report_begin K a code reason fs c = (c', st) \<Longrightarrow> load st \<le> 2 + sum_list (map weight fs)"
  by (auto simp: report_begin_def Let_def split: if_splits prod.splits)

lemma add_begin_load:
  "add_begin a fs c = (c', st) \<Longrightarrow> load st \<le> 5 + sum_list (map weight fs)"
  by (auto simp: add_begin_def split: option.splits dest: remove_begin_load)

lemma init_status_load: "load (init_status a fs nxt) < 4 + sum_list (map weight fs)"
  by (cases nxt) auto

lemma micro_load:
  assumes "micro K conn out f fs c = (c', st)"
  shows "load st < sum_list (map weight (f # fs))"
  using assms
proof (cases f)
  case (After_init a)
  then show ?thesis
    using assms by (cases out)
      (auto simp: add_failed_def split: if_splits dest!: report_begin_load)
next
  case (After_replace a)
  then show ?thesis
    using assms by (cases out)
      (auto simp: add_init_def Let_def init_status_load split: prod.splits)
next
  case (After_reconnect_remove a)
  then show ?thesis
    using assms by (cases out)
      (auto simp: reconnect_rebuild_def Let_def split: sum.splits prod.splits
        dest!: add_begin_load)
next
  case (After_send a)
  then show ?thesis using assms by (cases out) (auto dest!: remove_begin_load)
qed (cases out; auto)+

function drive ::
  "'a runner_scheme environment \<Rightarrow> conn_outcome \<Rightarrow> 'a runner_scheme cluster \<times> status \<Rightarrow>
   'a runner_scheme cluster \<times> status" where
  "drive K conn (c, Run out (f # fs)) = drive K conn (micro K conn out f fs c)"
| "drive K conn (c, Run out []) = (c, Done out)"
| "drive K conn (c, Wait w fs) = (c, Wait w fs)"
| "drive K conn (c, Done out) = (c, Done out)"
  by pat_completeness auto
termination
  by (relation "measure (\<lambda>(K, conn, c, st). load st)")
     (auto split: prod.splits dest: micro_load)


text \<open>A suspended coroutine continues when its awaited operation delivers.\<close>

definition deliver ::
  "'a runner_scheme environment \<Rightarrow> conn_outcome \<Rightarrow> awaited \<Rightarrow> wait \<Rightarrow> frame list \<Rightarrow>
   'a runner_scheme cluster \<Rightarrow> 'a runner_scheme cluster \<times> status" where
  "deliver K conn aw w fs c =
     (case w of
        On_close a \<Rightarrow>
          (case aw of
             Got_unit \<Rightarrow> (c, Run Ok fs)
           | Got_exn e \<Rightarrow> (c, Run (Raise e) fs)
           | _ \<Rightarrow> (c, Wait w fs))
      | On_send message \<Rightarrow>
          (case aw of
             Got_unit \<Rightarrow> (c, Run Ok fs)
           | Got_exn e \<Rightarrow>
               (case send_message_end (ws_client c) message (Some e) of
                  (w', None) \<Rightarrow> (c\<lparr>ws_client := w'\<rparr>, Run Ok fs)
                | (w', Some e') \<Rightarrow> (c\<lparr>ws_client := w'\<rparr>, Run (Raise e') fs))
           | _ \<Rightarrow> (c, Wait w fs))
      | On_init a pc \<Rightarrow>
          (case init_resume (setup_prefix K) conn (heap c a) pc aw of
             (r, nxt) \<Rightarrow> (modify a (\<lambda>_. r) c, init_status a (tl fs) nxt)))"

definition start ::
  "'a runner_scheme environment \<Rightarrow> conn_outcome \<Rightarrow> call \<Rightarrow> 'a runner_scheme cluster \<Rightarrow>
   'a runner_scheme cluster \<times> status" where
  "start K conn cl c = drive K conn (begin_call K cl c)"

definition resume ::
  "'a runner_scheme environment \<Rightarrow> conn_outcome \<Rightarrow> awaited \<Rightarrow> status \<Rightarrow>
   'a runner_scheme cluster \<Rightarrow> 'a runner_scheme cluster \<times> status" where
  "resume K conn aw st c =
     (case st of
        Wait w fs \<Rightarrow> drive K conn (deliver K conn aw w fs c)
      | _ \<Rightarrow> (c, st))"

section \<open>Events\<close>

text \<open>
  \<^verbatim>\<open>handle_event\<close>: the two types of events that are handled, \<open>True\<close> for the first one of a
  connection; any other is logged and ignored.
\<close>

definition dispatch_event :: "json \<Rightarrow> bool option" where
  "dispatch_event event_type =
     (if event_type = jstr ''init'' then Some True
      else if event_type = jstr ''update'' then Some False
      else None)"

record entry =
  e_deployment_id :: json
  e_model_id :: json
  e_infos :: json
  e_model_name :: json
  e_state :: json
  e_ip :: json
  e_port :: json

text \<open>The fields of one entry of an event's data; a missing key reads as \<^verbatim>\<open>None\<close>.\<close>

definition read_entry :: "json \<Rightarrow> entry result" where
  "read_entry model_update =
     (case as_dict model_update of
        Inl err \<Rightarrow> Inl err
      | Inr d \<Rightarrow>
          (case (if truthy (dget d (lit ''infos''))
                 then map_sum (\<lambda>err. err) (\<lambda>kvs. dget kvs (lit ''model_name''))
                        (as_dict (dget d (lit ''infos'')))
                 else Inr JNull) of
             Inl err \<Rightarrow> Inl err
           | Inr name \<Rightarrow> Inr
               \<lparr>e_deployment_id = dget d (lit ''deployment_id''),
                e_model_id = dget d (lit ''model_id''),
                e_infos = dget d (lit ''infos''),
                e_model_name = name,
                e_state = dget d (lit ''state''),
                e_ip = dget d (lit ''ip''),
                e_port = dget d (lit ''port'')\<rparr>))"

text \<open>The model the entry is about: running or pending, and of the same deployment.\<close>

definition known_model :: "'a runner_scheme cluster \<Rightarrow> entry \<Rightarrow> nat option" where
  "known_model c e =
     (case find_model c (e_model_id e) of
        None \<Rightarrow> None
      | Some a \<Rightarrow> (if e_deployment_id e \<noteq> deployment_id (heap c a) then None else Some a))"

definition set_infos :: "json \<Rightarrow> json \<Rightarrow> 'a runner_scheme \<Rightarrow> 'a runner_scheme" where
  "set_infos info name r = r\<lparr>infos := info, model_name := name\<rparr>"

definition plan_new ::
  "'a runner_scheme environment \<Rightarrow> 'a runner_scheme cluster \<Rightarrow> entry \<Rightarrow>
   'a runner_scheme cluster \<times> call option result" where
  "plan_new K c e =
     (case model_factory K (e_deployment_id e) (e_model_id e) (e_model_name e) (e_ip e)
             (e_port e) (e_infos e) of
        Inl err \<Rightarrow> (c, Inl err)
      | Inr r \<Rightarrow> (let (c', a) = allocate r c in (c', Inr (Some (Add a)))))"

text \<open>
  The body of the loop of \<^verbatim>\<open>update_model_runs\<close>: it refreshes the infos of a running model at
  once, or yields a coroutine to be gathered, or does nothing, or raises.
\<close>

definition plan_entry ::
  "'a runner_scheme environment \<Rightarrow> 'a runner_scheme cluster \<Rightarrow> json \<Rightarrow>
   'a runner_scheme cluster \<times> call option result" where
  "plan_entry K c model_update =
     (case read_entry model_update of
        Inl err \<Rightarrow> (c, Inl err)
      | Inr e \<Rightarrow>
          (if \<not> hashable (e_model_id e) then (c, Inl TypeError)
           else if e_state e = jstr ''STOPPED''
           then (c, Inr (map_option Remove (known_model c e)))
           else if e_state e = jstr ''RECOVERING''
           then (c, Inr (map_option Remove (known_model c e)))
           else if e_state e = jstr ''RUNNING''
           then (case known_model c e of
                   None \<Rightarrow> plan_new K c e
                 | Some a \<Rightarrow>
                     (if ip (heap c a) = e_ip e \<and> port (heap c a) = e_port e
                      then (if map_of (models_run c) (e_model_id e) \<noteq> None
                            then (modify a (set_infos (e_infos e) (e_model_name e)) c, Inr None)
                            else (c, Inr None))
                      else plan_new K c e))
           else (c, Inr None)))"

fun plan_entries ::
  "'a runner_scheme environment \<Rightarrow> 'a runner_scheme cluster \<Rightarrow> json list \<Rightarrow>
   'a runner_scheme cluster \<times> call list result" where
  "plan_entries K c [] = (c, Inr [])"
| "plan_entries K c (x # xs) =
     (case plan_entry K c x of
        (c', Inl err) \<Rightarrow> (c', Inl err)
      | (c', Inr task) \<Rightarrow>
          (case plan_entries K c' xs of
             (c'', Inl err) \<Rightarrow> (c'', Inl err)
           | (c'', Inr tasks) \<Rightarrow>
               (c'', Inr ((case task of None \<Rightarrow> [] | Some t \<Rightarrow> [t]) @ tasks))))"

text \<open>\<^verbatim>\<open>update_model_runs\<close> up to its \<^verbatim>\<open>gather\<close>: the coroutines to run.\<close>

definition update_plan ::
  "'a runner_scheme environment \<Rightarrow> 'a runner_scheme cluster \<Rightarrow> json \<Rightarrow>
   'a runner_scheme cluster \<times> call list result" where
  "update_plan K c data =
     (case iterate data of
        Inl err \<Rightarrow> (c, Inl err)
      | Inr xs \<Rightarrow> plan_entries K c xs)"

text \<open>
  The second half of \<^verbatim>\<open>handle_init_event\<close>: the running models the data does not name are removed.
\<close>

fun data_model_ids :: "json list \<Rightarrow> json list result" where
  "data_model_ids [] = Inr []"
| "data_model_ids (x # xs) =
     (case x of
        JObj d \<Rightarrow>
          (case map_of d (lit ''model_id'') of
             None \<Rightarrow> Inl KeyError
           | Some mid \<Rightarrow>
               (if \<not> hashable mid then Inl TypeError
                else map_sum (\<lambda>err. err) (Cons mid) (data_model_ids xs)))
      | _ \<Rightarrow> Inl TypeError)"

definition removal_plan ::
  "'a runner_scheme cluster \<Rightarrow> json \<Rightarrow> call list result" where
  "removal_plan c data =
     (case iterate data of
        Inl err \<Rightarrow> Inl err
      | Inr xs \<Rightarrow>
          map_sum (\<lambda>err. err)
            (\<lambda>ids. map (Remove \<circ> snd) (filter (\<lambda>kv. fst kv \<notin> set ids) (models_run c)))
            (data_model_ids xs))"

end
