(* ===== verification/Cluster_Segments.thy ===== *)
theory Cluster_Segments
  imports Model_Cluster
begin

text \<open>
  The contract between the cluster and the runner class it instantiates, and what every code
  segment of the cluster's coroutines keeps: the dictionaries stay well formed, the identity of an
  allocated object never changes, a closed object stays closed, and a pending entry always belongs
  to a coroutine that is inside \<^verbatim>\<open>init\<close>.
\<close>

section \<open>Well-formed clusters\<close>

definition keyed :: "'a runner_scheme cluster \<Rightarrow> (json \<times> nat) list \<Rightarrow> bool" where
  "keyed c d \<longleftrightarrow>
     (\<forall>k a. map_of d k = Some a \<longrightarrow> a < next_address c \<and> model_id (heap c a) = k)"

definition wf_cluster :: "'a runner_scheme cluster \<Rightarrow> bool" where
  "wf_cluster c \<longleftrightarrow>
     distinct_keys (models_run c) \<and> distinct_keys (pending_model_runs c) \<and>
     keyed c (models_run c) \<and> keyed c (pending_model_runs c)"

text \<open>How the heap may change: objects are only added, identities are fixed, closing is final.\<close>

definition evolves :: "'a runner_scheme cluster \<Rightarrow> 'a runner_scheme cluster \<Rightarrow> bool" where
  "evolves c c' \<longleftrightarrow>
     next_address c \<le> next_address c' \<and>
     (\<forall>a < next_address c.
        identity (heap c' a) = identity (heap c a) \<and>
        (closed (heap c a) \<longrightarrow> closed (heap c' a)))"

lemma evolves_refl [simp]: "evolves c c"
  by (simp add: evolves_def)

lemma evolves_trans [trans]: "evolves c c' \<Longrightarrow> evolves c' c'' \<Longrightarrow> evolves c c''"
  by (auto simp: evolves_def)

lemma identity_model_id: "identity r = identity r' \<Longrightarrow> model_id r = model_id r'"
  by (simp add: identity_def)

lemma evolves_model_id:
  "evolves c c' \<Longrightarrow> a < next_address c \<Longrightarrow> model_id (heap c' a) = model_id (heap c a)"
  by (auto simp: evolves_def intro: identity_model_id)

lemma evolves_next: "evolves c c' \<Longrightarrow> a < next_address c \<Longrightarrow> a < next_address c'"
  by (auto simp: evolves_def)

lemma keyed_evolves: "evolves c c' \<Longrightarrow> keyed c d \<Longrightarrow> keyed c' d"
  by (auto simp: keyed_def evolves_model_id evolves_next)

lemma wf_evolves:
  "evolves c c' \<Longrightarrow> wf_cluster c \<Longrightarrow> models_run c' = models_run c \<Longrightarrow>
   pending_model_runs c' = pending_model_runs c \<Longrightarrow> wf_cluster c'"
  by (simp add: wf_cluster_def keyed_evolves)

lemma keyed_update:
  "keyed c d \<Longrightarrow> a < next_address c \<Longrightarrow> keyed c (AList.update (model_id (heap c a)) a d)"
  by (auto simp: keyed_def py_dict_simps)

lemma keyed_drop: "keyed c d \<Longrightarrow> keyed c (drop_if_is k a d)"
  by (auto simp: keyed_def dest: drop_if_is_Some)

lemma keyed_frame [simp]:
  "keyed (c\<lparr>models_run := m\<rparr>) d = keyed c d"
  "keyed (c\<lparr>pending_model_runs := m\<rparr>) d = keyed c d"
  "keyed (c\<lparr>ws_client := w\<rparr>) d = keyed c d"
  by (simp_all add: keyed_def)

text \<open>The accessors of the cluster after the elementary state changes.\<close>

lemma modify_simps [simp]:
  "models_run (modify a f c) = models_run c"
  "pending_model_runs (modify a f c) = pending_model_runs c"
  "next_address (modify a f c) = next_address c"
  "ws_client (modify a f c) = ws_client c"
  "report_failure (modify a f c) = report_failure c"
  "heap (modify a f c) b = (if b = a then f (heap c a) else heap c b)"
  by (simp_all add: modify_def)

lemma allocate_simps:
  "models_run (fst (allocate r c)) = models_run c"
  "pending_model_runs (fst (allocate r c)) = pending_model_runs c"
  "next_address (fst (allocate r c)) = Suc (next_address c)"
  "heap (fst (allocate r c)) b = (if b = next_address c then r else heap c b)"
  "snd (allocate r c) = next_address c"
  by (simp_all add: allocate_def)

lemma evolves_modify:
  "identity (f (heap c a)) = identity (heap c a) \<Longrightarrow>
   (closed (heap c a) \<Longrightarrow> closed (f (heap c a))) \<Longrightarrow> evolves c (modify a f c)"
  by (auto simp: evolves_def)

lemma evolves_allocate: "evolves c (fst (allocate r c))"
  by (auto simp: evolves_def allocate_simps)

context runner_operation
begin

lemma modify_evolves: "evolves c (modify a f c)"
  by (rule evolves_modify) (simp_all add: identity_kept closed_kept)

end

section \<open>Well-formed coroutines\<close>

text \<open>
  A suspended coroutine awaits the operation of its topmost frame, and a frame that is inside
  \<^verbatim>\<open>init\<close> is never buried.
\<close>

fun frame_address :: "frame \<Rightarrow> nat" where
  "frame_address (After_close a) = a"
| "frame_address (After_replace a) = a"
| "frame_address (After_init a) = a"
| "frame_address (After_send a) = a"
| "frame_address (After_reconnect_remove a) = a"
| "frame_address (Reconnect_guard a) = a"

fun is_init_frame :: "frame \<Rightarrow> bool" where
  "is_init_frame (After_init a) = True"
| "is_init_frame _ = False"

definition frames_ok :: "nat \<Rightarrow> frame list \<Rightarrow> bool" where
  "frames_ok n fs \<longleftrightarrow> (\<forall>f \<in> set fs. frame_address f < n)"

lemma frames_ok_simps [simp]:
  "frames_ok n []"
  "frames_ok n (f # fs) \<longleftrightarrow> frame_address f < n \<and> frames_ok n fs"
  by (auto simp: frames_ok_def)

lemma frames_ok_mono: "frames_ok n fs \<Longrightarrow> n \<le> m \<Longrightarrow> frames_ok m fs"
  by (auto simp: frames_ok_def intro: less_le_trans)

definition no_init :: "frame list \<Rightarrow> bool" where
  "no_init fs \<longleftrightarrow> (\<forall>f \<in> set fs. \<not> is_init_frame f)"

lemma no_init_simps [simp]:
  "no_init []"
  "no_init (f # fs) \<longleftrightarrow> \<not> is_init_frame f \<and> no_init fs"
  by (auto simp: no_init_def)

fun awaits_frame :: "wait \<Rightarrow> frame \<Rightarrow> bool" where
  "awaits_frame (On_close a) f = (f = After_close a)"
| "awaits_frame (On_init a pc) f = (f = After_init a)"
| "awaits_frame (On_send m) f = (\<exists>a. f = After_send a)"

fun status_ok :: "nat \<Rightarrow> status \<Rightarrow> bool" where
  "status_ok n (Run out fs) = (frames_ok n fs \<and> no_init (tl fs))"
| "status_ok n (Wait w fs) =
     (\<exists>f fs'. fs = f # fs' \<and> awaits_frame w f \<and> frames_ok n fs \<and> no_init fs')"
| "status_ok n (Done out) = True"

lemma no_init_tl: "no_init fs \<Longrightarrow> no_init (tl fs)"
  by (cases fs) auto

text \<open>The model whose \<^verbatim>\<open>init\<close> the coroutine is inside of.\<close>

fun initialising :: "status \<Rightarrow> nat set" where
  "initialising (Run out (After_init a # fs)) = {a}"
| "initialising (Wait (On_init a pc) fs) = {a}"
| "initialising _ = {}"

text \<open>The models the coroutine may still put into service.\<close>

definition adds :: "frame list \<Rightarrow> nat set" where
  "adds fs = {a. After_replace a \<in> set fs \<or> After_init a \<in> set fs}"

fun enlisting :: "status \<Rightarrow> nat set" where
  "enlisting (Run out fs) = adds fs"
| "enlisting (Wait w fs) = adds fs"
| "enlisting (Done out) = {}"

lemma adds_simps [simp]:
  "adds [] = {}"
  "adds (After_close a # fs) = adds fs"
  "adds (After_replace a # fs) = insert a (adds fs)"
  "adds (After_init a # fs) = insert a (adds fs)"
  "adds (After_send a # fs) = adds fs"
  "adds (After_reconnect_remove a # fs) = adds fs"
  "adds (Reconnect_guard a # fs) = adds fs"
  by (auto simp: adds_def)

text \<open>
  The result of a segment: the heap evolved, the cluster and the coroutine are well formed, every
  pending entry is one of the set \<open>T\<close> the other coroutines account for or is being initialised by
  this one, and nothing but the listed addresses and new objects can be enlisted.
\<close>

definition pending_within :: "'a runner_scheme cluster \<Rightarrow> nat set \<Rightarrow> bool" where
  "pending_within c T \<longleftrightarrow> (\<forall>k a. map_of (pending_model_runs c) k = Some a \<longrightarrow> a \<in> T)"

lemma pending_within_mono: "pending_within c T \<Longrightarrow> T \<subseteq> T' \<Longrightarrow> pending_within c T'"
  by (auto simp: pending_within_def)

definition listed :: "'a runner_scheme cluster \<Rightarrow> nat set" where
  "listed c = ran (map_of (models_run c)) \<union> ran (map_of (pending_model_runs c))"

definition segment_ok ::
  "nat set \<Rightarrow> nat set \<Rightarrow> 'a runner_scheme cluster \<Rightarrow> 'a runner_scheme cluster \<Rightarrow> status \<Rightarrow> bool"
where
  "segment_ok T E c c' st \<longleftrightarrow>
     evolves c c' \<and> wf_cluster c' \<and> status_ok (next_address c') st \<and>
     pending_within c' (T \<union> initialising st) \<and>
     enlisting st \<union> listed c' \<subseteq> E \<union> listed c \<union> {next_address c..<next_address c'}"


lemma segment_okI:
  assumes "evolves c c'" and "wf_cluster c'" and "status_ok (next_address c') st"
    and "pending_within c' (T \<union> initialising st)"
    and "enlisting st \<subseteq> E \<union> listed c \<union> {next_address c..<next_address c'}"
    and "listed c' \<subseteq> E \<union> listed c \<union> {next_address c..<next_address c'}"
  shows "segment_ok T E c c' st"
  using assms by (simp add: segment_ok_def)

text \<open>The assumptions under which a segment is entered with the frames \<open>fs\<close> below it.\<close>

definition ready ::
  "nat set \<Rightarrow> nat set \<Rightarrow> 'a runner_scheme cluster \<Rightarrow> frame list \<Rightarrow> bool" where
  "ready T E c fs \<longleftrightarrow>
     wf_cluster c \<and> pending_within c T \<and> frames_ok (next_address c) fs \<and> no_init fs \<and> adds fs \<subseteq> E"

lemma no_init_initialising [simp]: "no_init fs \<Longrightarrow> initialising (Run out fs) = {}"
  by (cases "(Run out fs)" rule: initialising.cases) auto

lemma listed_cong:
  "models_run c' = models_run c \<Longrightarrow> pending_model_runs c' = pending_model_runs c \<Longrightarrow>
   listed c' = listed c"
  by (simp add: listed_def)

lemma segment_ok_same_lists:
  assumes "evolves c c'" and "wf_cluster c" and "models_run c' = models_run c"
    and "pending_model_runs c' = pending_model_runs c"
    and "status_ok (next_address c') st" and "pending_within c (T \<union> initialising st)"
    and "enlisting st \<subseteq> E \<union> listed c \<union> {next_address c..<next_address c'}"
  shows "segment_ok T E c c' st"
proof (rule segment_okI)
  show "wf_cluster c'" by (rule wf_evolves [OF assms(1-4)])
  show "pending_within c' (T \<union> initialising st)"
    using assms(4,6) by (simp add: pending_within_def)
  show "listed c' \<subseteq> E \<union> listed c \<union> {next_address c..<next_address c'}"
    using listed_cong [OF assms(3,4)] by blast
qed (use assms in auto)

lemma segment_return:
  "ready T E c fs \<Longrightarrow> segment_ok T E c c (Run out fs)"
  by (rule segment_ok_same_lists) (auto simp: ready_def no_init_tl)

lemma remove_begin_segment:
  assumes "ready T E c fs" and "a < next_address c" and "remove_begin a fs c = (c', st)"
  shows "segment_ok T E c c' st"
proof (rule segment_ok_same_lists)
  show "evolves c c'"
    using assms(3) close_op.modify_evolves [of c a]
    by (auto simp: remove_begin_def Let_def split: if_splits)
qed (use assms in \<open>auto simp: remove_begin_def ready_def Let_def split: if_splits\<close>)

lemma remove_end_segment:
  assumes "ready T E c fs"
  shows "segment_ok T E c (remove_end a c) (Run out fs)"
proof (rule segment_okI)
  have ok: "wf_cluster c" using assms by (simp add: ready_def)
  show "wf_cluster (remove_end a c)"
    using ok by (auto simp: wf_cluster_def remove_end_def Let_def drop_if_is_ok keyed_drop)
qed (use assms in \<open>auto simp: ready_def remove_end_def Let_def evolves_def pending_within_def
    no_init_tl listed_def ran_def dest: drop_if_is_Some\<close>)

lemma report_begin_segment:
  assumes "ready T E c fs" and "a < next_address c" and "report_begin K a code reason fs c = (c', st)"
  shows "segment_ok T E c c' st"
  by (rule segment_ok_same_lists)
     (use assms in \<open>auto simp: report_begin_def ready_def Let_def evolves_def no_init_tl
       split: if_splits prod.splits\<close>)

lemma find_model_allocated:
  "wf_cluster c \<Longrightarrow> find_model c k = Some a \<Longrightarrow> a < next_address c \<and> model_id (heap c a) = k"
  by (auto simp: wf_cluster_def keyed_def find_model_def split: option.splits)

lemma add_begin_segment:
  assumes "ready T E c fs" and "a < next_address c" and "a \<in> E" and "add_begin a fs c = (c', st)"
  shows "segment_ok T E c c' st"
proof -
  have r: "ready T E c (After_replace a # fs)"
    using assms(1-3) by (simp add: ready_def)
  show ?thesis
  proof (cases "find_model c (model_id (heap c a))")
    case None
    then show ?thesis using segment_return [OF r, of Ok] assms(4) by (simp add: add_begin_def)
  next
    case (Some b)
    then have "b < next_address c" using find_model_allocated assms(1) by (auto simp: ready_def)
    then show ?thesis
      using remove_begin_segment [OF r] assms(4) Some by (simp add: add_begin_def)
  qed
qed

lemma init_status_props:
  assumes "a < n" and "frames_ok n fs" and "no_init fs"
  shows "status_ok n (init_status a fs nxt)" and "initialising (init_status a fs nxt) = {a}"
    and "enlisting (init_status a fs nxt) = insert a (adds fs)"
  using assms by (cases nxt; simp)+

lemma add_init_segment:
  assumes "ready T E c fs" and "a < next_address c" and "a \<in> E"
    and "add_init conn a fs c = (c', st)"
  shows "segment_ok T E c c' st"
proof (rule segment_okI)
  obtain r nxt where ib: "init_begin conn (heap c a) = (r, nxt)" by fastforce
  let ?c1 = "c\<lparr>pending_model_runs := AList.update (model_id (heap c a)) a (pending_model_runs c)\<rparr>"
  have c': "c' = modify a (\<lambda>_. r) ?c1" and st: "st = init_status a fs nxt"
    using assms(4) ib by (auto simp: add_init_def Let_def)
  have idr: "identity r = identity (heap c a)" and cl: "closed (heap c a) \<Longrightarrow> closed r"
    using init_begin_op.identity_kept [of conn "heap c a"]
      init_begin_op.closed_kept [of "heap c a" conn] ib by simp_all
  show ev: "evolves c c'"
    using idr cl by (auto simp: c' evolves_def)
  have wf: "wf_cluster c" using assms(1) by (simp add: ready_def)
  have "keyed c' (models_run c)"
    using wf keyed_evolves [OF ev] by (simp add: wf_cluster_def)
  moreover have "keyed c' (AList.update (model_id (heap c a)) a (pending_model_runs c))"
    by (rule keyed_evolves [OF ev], rule keyed_update)
       (use wf assms(2) in \<open>simp_all add: wf_cluster_def\<close>)
  ultimately show "wf_cluster c'"
    using wf by (simp add: wf_cluster_def c' AList.distinct_update)
  note props = init_status_props [of a "next_address c" fs nxt]
  show "status_ok (next_address c') st"
    using props(1) assms(1,2) by (simp add: st c' ready_def)
  have init_a: "initialising st = {a}" and en: "enlisting st = insert a (adds fs)"
    using props(2,3) assms(1,2) by (simp_all add: st ready_def)
  show "pending_within c' (T \<union> initialising st)"
    using assms(1) by (auto simp: init_a c' pending_within_def ready_def py_dict_simps)
  show "enlisting st \<subseteq> E \<union> listed c \<union> {next_address c..<next_address c'}"
    using assms(1,3) by (auto simp: en ready_def)
  show "listed c' \<subseteq> E \<union> listed c \<union> {next_address c..<next_address c'}"
    using assms(3) by (auto simp: listed_def c' ran_def py_dict_simps split: if_splits)
qed

text \<open>Leaving \<^verbatim>\<open>init\<close> drops the pending entry of the object, so the rest accounts for the others.\<close>

lemma add_unpend_ready:
  assumes "wf_cluster c" and "pending_within c (insert a T)" and "frames_ok (next_address c) fs"
    and "no_init fs" and "adds fs \<subseteq> E"
  shows "ready T E (add_unpend a c) fs" and "evolves c (add_unpend a c)"
    and "listed (add_unpend a c) \<subseteq> listed c"
proof -
  have keyed: "keyed c (pending_model_runs c)" using assms(1) by (simp add: wf_cluster_def)
  have "pending_within (add_unpend a c) T"
    using assms(2) keyed
    by (auto simp: pending_within_def add_unpend_def keyed_def py_dict_simps split: if_splits)
  moreover have "wf_cluster (add_unpend a c)"
    using assms(1) by (auto simp: wf_cluster_def add_unpend_def drop_if_is_ok keyed_drop)
  ultimately show "ready T E (add_unpend a c) fs"
    using assms(3-5) by (simp add: ready_def add_unpend_def)
  show "evolves c (add_unpend a c)"
    by (simp add: evolves_def add_unpend_def)
  show "listed (add_unpend a c) \<subseteq> listed c"
    by (auto simp: listed_def add_unpend_def ran_def dest: drop_if_is_Some)
qed

lemma add_enlist_segment:
  assumes "ready T E c fs" and "a < next_address c" and "a \<in> E"
  shows "segment_ok T E c (add_enlist a c) (Run Ok fs)"
proof (rule segment_okI)
  show "wf_cluster (add_enlist a c)"
    using assms(1,2) by (auto simp: ready_def wf_cluster_def add_enlist_def AList.distinct_update
        keyed_update)
qed (use assms in \<open>auto simp: ready_def add_enlist_def evolves_def pending_within_def no_init_tl
    listed_def ran_def py_dict_simps split: if_splits\<close>)

lemma segment_ok_after:
  assumes "evolves c c1" and "listed c1 \<subseteq> E \<union> listed c \<union> {next_address c..<next_address c1}"
    and "segment_ok T E c1 c' st"
  shows "segment_ok T E c c' st"
proof -
  have "evolves c1 c'" using assms(3) by (simp add: segment_ok_def)
  then have "next_address c \<le> next_address c1" and "next_address c1 \<le> next_address c'"
    using assms(1) by (simp_all add: evolves_def)
  then show ?thesis
    using assms(2,3) evolves_trans [OF assms(1) \<open>evolves c1 c'\<close>]
    by (force simp: segment_ok_def)
qed


section \<open>The runner class the cluster is given\<close>

text \<open>
  The factory builds an open object with the identity and data it was asked for and no channel yet; the
  prefix of \<^verbatim>\<open>setup\<close> is an operation of the runner contract. Everything below is proved from
  these laws.
\<close>

locale runner_factory = setup_hook "setup_prefix K" for K :: "'a runner_scheme environment" +
  assumes built: "model_factory K dep mid name addr prt info = Inr r \<Longrightarrow>
    identity r = (dep, mid, addr, prt) \<and> model_name r = name \<and> infos r = info \<and>
    \<not> closed r \<and> \<not> close_awaits r"
begin

lemma add_failed_segment:
  assumes "ready T E c fs" and "a < next_address c" and "add_failed K a err fs c = (c', st)"
  shows "segment_ok T E c c' st"
  using assms report_begin_segment [OF assms(1,2)] segment_return [OF assms(1), of Ok]
  by (auto simp: add_failed_def split: if_splits)

lemma reconnect_rebuild_segment:
  assumes "ready T E c fs" and "reconnect_rebuild K a fs c = (c', st)"
  shows "segment_ok T E c c' st"
proof -
  let ?old = "heap c a"
  show ?thesis
  proof (cases "model_factory K (deployment_id ?old) (model_id ?old) (model_name ?old) (ip ?old)
      (port ?old) (infos ?old)")
    case (Inl e)
    then show ?thesis
      using assms segment_return [OF assms(1)] by (auto simp: reconnect_rebuild_def Let_def)
  next
    case (Inr r)
    let ?c1 = "fst (allocate r c)" and ?b = "next_address c"
    have eq: "add_begin ?b fs ?c1 = (c', st)"
      using assms(2) Inr by (simp add: reconnect_rebuild_def Let_def allocate_def)
    have ev: "evolves c ?c1" by (rule evolves_allocate)
    have li: "listed ?c1 = listed c" by (rule listed_cong) (simp_all add: allocate_simps)
    have "wf_cluster ?c1"
      using assms(1) by (intro wf_evolves [OF ev]) (simp_all add: ready_def allocate_simps)
    then have "ready T (insert ?b E) ?c1 fs"
      using assms(1) by (auto simp: ready_def pending_within_def allocate_simps
          intro: frames_ok_mono)
    then have seg: "segment_ok T (insert ?b E) ?c1 c' st"
      using eq by (intro add_begin_segment) (simp_all add: allocate_simps)
    have nx: "next_address ?c1 = Suc ?b" by (simp add: allocate_simps)
    have "evolves ?c1 c'" using seg by (simp add: segment_ok_def)
    then have "Suc ?b \<le> next_address c'" using nx by (simp add: evolves_def)
    then have "insert ?b E \<union> listed ?c1 \<union> {next_address ?c1..<next_address c'} \<subseteq>
        E \<union> listed c \<union> {next_address c..<next_address c'}"
      by (auto simp: li nx)
    then show ?thesis
      using seg evolves_trans [OF ev \<open>evolves ?c1 c'\<close>] by (auto simp: segment_ok_def)
  qed
qed

text \<open>One return into a frame, whatever the frame.\<close>

lemma micro_segment:
  assumes "wf_cluster c" and "status_ok (next_address c) (Run out (f # fs))"
    and "pending_within c (T \<union> initialising (Run out (f # fs)))"
    and "micro K conn out f fs c = (c', st)"
  shows "segment_ok T (adds (f # fs)) c c' st"
proof -
  have fr: "frames_ok (next_address c) fs" "frame_address f < next_address c" "no_init fs"
    using assms(2) by simp_all
  show ?thesis
  proof (cases f)
    case (After_init a)
    let ?u = "add_unpend a c"
    have a: "a < next_address c" and T: "pending_within c (insert a T)"
      using fr(2) assms(3) After_init by simp_all
    note un = add_unpend_ready [OF assms(1) T fr(1,3), of "adds (f # fs)"]
    have rd: "ready T (adds (f # fs)) ?u fs" by (rule un) (auto simp: After_init)
    have au: "a < next_address ?u" by (simp add: add_unpend_def a)
    have "segment_ok T (adds (f # fs)) ?u c' st"
    proof (cases "\<exists>b err. out = Init_pair b err")
      case True
      then obtain b err where Init_pair: "out = Init_pair b err" by blast
      show ?thesis
      proof (cases b)
        case True
        then have "c' = add_enlist a ?u" and "st = Run Ok fs"
          using assms(4) After_init Init_pair by simp_all
        then show ?thesis using add_enlist_segment [OF rd au] by (simp add: After_init)
      next
        case False
        then have "add_failed K a err fs ?u = (c', st)"
          using assms(4) After_init Init_pair by simp
        then show ?thesis by (rule add_failed_segment [OF rd au])
      qed
    next
      case False
      then have "c' = ?u" and "\<exists>e. st = Run (Raise e) fs"
        using assms(4) After_init by (cases out; auto)+
      then show ?thesis using segment_return [OF rd] by auto
    qed
    moreover have "listed ?u \<subseteq> adds (f # fs) \<union> listed c \<union> {next_address c..<next_address ?u}"
      using un(3) by (auto simp: After_init)
    moreover have "evolves c ?u" by (simp add: evolves_def add_unpend_def)
    ultimately show ?thesis by (simp add: segment_ok_after [of c ?u])
  next
    case (After_close a)
    have "ready T (adds (f # fs)) c fs" using assms(1,3) fr After_close by (simp add: ready_def)
    note ends = segment_return [OF this] remove_end_segment [OF this, of a]
    show ?thesis using assms(4) After_close ends by (cases out) auto
  next
    case (After_replace a)
    have rd: "ready T (adds (f # fs)) c fs"
      using assms(1,3) fr After_replace by (auto simp: ready_def)
    have "a < next_address c" and "a \<in> adds (f # fs)" using fr After_replace by simp_all
    then show ?thesis
      using assms(4) After_replace segment_return [OF rd] add_init_segment [OF rd]
      by (cases out) auto
  next
    case (After_send a)
    have "ready T (adds (f # fs)) c fs" using assms(1,3) fr After_send by (simp add: ready_def)
    note ends = segment_return [OF this] remove_begin_segment [OF this, of a]
    show ?thesis using assms(4) fr After_send ends by (cases out) auto
  next
    case (After_reconnect_remove a)
    have "ready T (adds (f # fs)) c fs"
      using assms(1,3) fr After_reconnect_remove by (simp add: ready_def)
    note ends = segment_return [OF this] reconnect_rebuild_segment [OF this, of a]
    show ?thesis using assms(4) After_reconnect_remove ends by (cases out) auto
  next
    case (Reconnect_guard a)
    have "ready T (adds (f # fs)) c fs"
      using assms(1,3) fr Reconnect_guard by (simp add: ready_def)
    note ends = segment_return [OF this]
    show ?thesis using assms(4) Reconnect_guard ends by (cases out) auto
  qed
qed

lemma segment_ok_trans:
  assumes "segment_ok T E c c1 st1" and "segment_ok T (enlisting st1) c1 c2 st2"
  shows "segment_ok T E c c2 st2"
proof -
  have e1: "evolves c c1" and e2: "evolves c1 c2"
    using assms by (simp_all add: segment_ok_def)
  then have "next_address c \<le> next_address c1" and "next_address c1 \<le> next_address c2"
    by (simp_all add: evolves_def)
  then have "{next_address c..<next_address c1} \<union> {next_address c1..<next_address c2} =
      {next_address c..<next_address c2}" by auto
  then show ?thesis
    using assms evolves_trans [OF e1 e2] unfolding segment_ok_def by blast
qed

lemma segment_ok_refl:
  "wf_cluster c \<Longrightarrow> status_ok (next_address c) st \<Longrightarrow> pending_within c (T \<union> initialising st) \<Longrightarrow>
   enlisting st \<subseteq> E \<Longrightarrow> segment_ok T E c c st"
  by (rule segment_ok_same_lists) auto

lemma drive_segment:
  "wf_cluster c \<Longrightarrow> status_ok (next_address c) st \<Longrightarrow> pending_within c (T \<union> initialising st) \<Longrightarrow>
   drive K conn (c, st) = (c', st') \<Longrightarrow> segment_ok T (enlisting st) c c' st'"
proof (induction "load st" arbitrary: c st rule: less_induct)
  case less
  show ?case
  proof (cases st)
    case (Run out frames)
    show ?thesis
    proof (cases frames)
      case Nil
      then show ?thesis
        using less.prems Run segment_ok_refl [of c "Done out" T "{}"] by auto
    next
      case (Cons f fs)
      obtain c1 st1 where m: "micro K conn out f fs c = (c1, st1)" by fastforce
      have seg: "segment_ok T (enlisting st) c c1 st1"
        using micro_segment [OF less.prems(1) _ _ m] less.prems(2,3) Run Cons by simp
      have "segment_ok T (enlisting st1) c1 c' st'"
        by (rule less.hyps)
           (use micro_load [OF m] seg less.prems(4) Run Cons m in \<open>simp_all add: segment_ok_def\<close>)
      then show ?thesis using seg by (rule segment_ok_trans [rotated])
    qed
  next
    case (Wait w fs)
    then have "c' = c" and "st' = st" using less.prems(4) by simp_all
    then show ?thesis using segment_ok_refl [OF less.prems(1-3)] by simp
  next
    case (Done out)
    then have "c' = c" and "st' = st" using less.prems(4) by simp_all
    then show ?thesis using segment_ok_refl [OF less.prems(1-3)] by simp
  qed
qed

end

text \<open>Starting a task, and resuming one at its await.\<close>

fun call_address :: "call \<Rightarrow> nat" where
  "call_address (Remove a) = a"
| "call_address (Add a) = a"
| "call_address (Report a code reason) = a"
| "call_address (Reconnect a) = a"

fun call_adds :: "call \<Rightarrow> nat set" where
  "call_adds (Add a) = {a}"
| "call_adds _ = {}"

lemma begin_call_segment:
  assumes "wf_cluster c" and "pending_within c T" and "call_address cl < next_address c"
    and "begin_call K cl c = (c', st)"
  shows "segment_ok T (call_adds cl) c c' st"
proof -
  have base: "ready T (call_adds cl) c []" using assms(1,2) by (simp add: ready_def)
  show ?thesis
  proof (cases cl)
    case (Remove a)
    then show ?thesis
      using remove_begin_segment [OF base] assms(3,4) by (simp add: begin_call_def)
  next
    case (Add a)
    then show ?thesis using add_begin_segment [OF base] assms(3,4) by (simp add: begin_call_def)
  next
    case (Report a code reason)
    then show ?thesis
      using report_begin_segment [OF base] assms(3,4) by (simp add: begin_call_def)
  next
    case (Reconnect a)
    have "ready T (call_adds cl) c [After_reconnect_remove a, Reconnect_guard a]"
      using base assms(3) Reconnect by (simp add: ready_def)
    then show ?thesis
      using remove_begin_segment assms(3,4) Reconnect by (simp add: begin_call_def)
  qed
qed

context runner_factory
begin

lemma start_segment:
  assumes "wf_cluster c" and "pending_within c T" and "call_address cl < next_address c"
    and "start K conn cl c = (c', st)"
  shows "segment_ok T (call_adds cl) c c' st"
proof -
  obtain c1 st1 where b: "begin_call K cl c = (c1, st1)" by fastforce
  have seg: "segment_ok T (call_adds cl) c c1 st1"
    by (rule begin_call_segment [OF assms(1-3) b])
  have "segment_ok T (enlisting st1) c1 c' st"
    using seg assms(4) b by (intro drive_segment) (simp_all add: segment_ok_def start_def)
  then show ?thesis using seg by (rule segment_ok_trans [rotated])
qed

lemma deliver_segment:
  assumes "wf_cluster c" and "status_ok (next_address c) (Wait w fs)"
    and "pending_within c (T \<union> initialising (Wait w fs))"
    and "deliver K conn aw w fs c = (c', st)"
  shows "segment_ok T (adds fs) c c' st"
proof -
  obtain f fs' where fs: "fs = f # fs'" "awaits_frame w f" "frames_ok (next_address c) fs"
    "no_init fs'" using assms(2) by auto
  show ?thesis
  proof (cases w)
    case (On_close a)
    have rd: "segment_ok T (adds fs) c c (Run out fs)" for out
      using assms(1,3) fs On_close by (intro segment_ok_refl) auto
    have same: "segment_ok T (adds fs) c c (Wait w fs)"
      by (rule segment_ok_refl [OF assms(1-3)]) simp
    show ?thesis
      using assms(4) rd same On_close by (auto simp: deliver_def split: awaited.splits)
  next
    case (On_send m)
    have rd: "segment_ok T (adds fs) c (c\<lparr>ws_client := w'\<rparr>) (Run out fs)" for out w'
      using assms(1,3) fs On_send
      by (intro segment_ok_same_lists) (auto simp: evolves_def)
    have rd0: "segment_ok T (adds fs) c c (Run Ok fs)"
      using assms(1,3) fs On_send by (intro segment_ok_refl) auto
    have same: "segment_ok T (adds fs) c c (Wait w fs)"
      by (rule segment_ok_refl [OF assms(1-3)]) simp
    show ?thesis
      using assms(4) rd rd0 same On_send
      by (auto simp: deliver_def split: awaited.splits prod.splits option.splits)
  next
    case (On_init a pc)
    then have f: "f = After_init a" and a: "a < next_address c" using fs by auto
    obtain r nxt where ir: "init_resume (setup_prefix K) conn (heap c a) pc aw = (r, nxt)"
      by fastforce
    have eq: "c' = modify a (\<lambda>_. r) c" "st = init_status a fs' nxt"
      using assms(4) On_init ir fs by (simp_all add: deliver_def)
    have "evolves c c'"
      unfolding eq
      using init_resume_keeps [of conn "heap c a" pc aw] ir by (intro evolves_modify) auto
    moreover have "status_ok (next_address c') st" and "initialising st = {a}"
      and "enlisting st = insert a (adds fs')"
      using init_status_props [of a "next_address c" fs' nxt] fs a by (simp_all add: eq)
    ultimately show ?thesis
      using assms(1,3) On_init f fs by (intro segment_ok_same_lists) (auto simp: eq)
  qed
qed

lemma resume_segment:
  assumes "wf_cluster c" and "status_ok (next_address c) (Wait w fs)"
    and "pending_within c (T \<union> initialising (Wait w fs))"
    and "resume K conn aw (Wait w fs) c = (c', st)"
  shows "segment_ok T (adds fs) c c' st"
proof -
  obtain c1 st1 where d: "deliver K conn aw w fs c = (c1, st1)" by fastforce
  have seg: "segment_ok T (adds fs) c c1 st1" by (rule deliver_segment [OF assms(1-3) d])
  have "segment_ok T (enlisting st1) c1 c' st"
    using seg assms(4) d by (intro drive_segment) (simp_all add: segment_ok_def resume_def)
  then show ?thesis using seg by (rule segment_ok_trans [rotated])
qed

text \<open>The planning loop: it allocates objects and refreshes infos, and touches no dictionary.\<close>

definition plan_ok ::
  "'a runner_scheme cluster \<Rightarrow> 'a runner_scheme cluster \<Rightarrow> call list \<Rightarrow> bool" where
  "plan_ok c c' calls \<longleftrightarrow>
     evolves c c' \<and> models_run c' = models_run c \<and>
     pending_model_runs c' = pending_model_runs c \<and>
     (\<forall>cl \<in> set calls. call_address cl < next_address c' \<and>
        call_adds cl \<subseteq> {next_address c..<next_address c'})"

fun planned :: "call option result \<Rightarrow> call list" where
  "planned (Inl err) = []"
| "planned (Inr None) = []"
| "planned (Inr (Some cl)) = [cl]"

lemma plan_new_ok: "plan_new K c e = (c', res) \<Longrightarrow> plan_ok c c' (planned res)"
  by (auto simp: plan_new_def plan_ok_def allocate_def evolves_def Let_def split: sum.splits)

lemma known_model_allocated:
  "wf_cluster c \<Longrightarrow> known_model c e = Some a \<Longrightarrow> a < next_address c"
  by (auto simp: known_model_def dest: find_model_allocated split: option.splits if_splits)

lemma set_infos_evolves: "evolves c (modify a (set_infos info name) c)"
  by (rule evolves_modify) (simp_all add: set_infos_def identity_def)

lemma plan_entry_ok:
  assumes "wf_cluster c" and "plan_entry K c x = (c', res)"
  shows "plan_ok c c' (planned res)"
proof -
  have id: "plan_ok c c []" by (simp add: plan_ok_def)
  have rem: "plan_ok c c (planned (Inr (map_option Remove (known_model c e))))" for e
    using known_model_allocated [OF assms(1), of e]
    by (cases "known_model c e") (simp_all add: plan_ok_def)
  have inf: "plan_ok c (modify a (set_infos info name) c) []" for a info name
    by (simp add: plan_ok_def set_infos_evolves)
  show ?thesis
    using assms(2) id rem inf
    by (auto simp: plan_entry_def split: sum.splits if_splits option.splits
        dest: plan_new_ok)
qed

lemma plan_ok_trans:
  assumes "plan_ok c c1 calls" and "plan_ok c1 c2 calls'"
  shows "plan_ok c c2 (calls @ calls')"
proof -
  have e: "evolves c c1" "evolves c1 c2" using assms by (simp_all add: plan_ok_def)
  then have le: "next_address c \<le> next_address c1" "next_address c1 \<le> next_address c2"
    by (simp_all add: evolves_def)
  have "call_address cl < next_address c2 \<and> call_adds cl \<subseteq> {next_address c..<next_address c2}"
    if "cl \<in> set (calls @ calls')" for cl
  proof (cases "cl \<in> set calls")
    case True
    then have "call_address cl < next_address c1"
      and "call_adds cl \<subseteq> {next_address c..<next_address c1}"
      using assms(1) by (simp_all add: plan_ok_def)
    then show ?thesis using le by (cases cl) auto
  next
    case False
    then have "call_address cl < next_address c2"
      and "call_adds cl \<subseteq> {next_address c1..<next_address c2}"
      using assms(2) that by (simp_all add: plan_ok_def)
    then show ?thesis using le by (cases cl) auto
  qed
  then show ?thesis
    using assms evolves_trans [OF e] by (simp add: plan_ok_def)
qed

lemma plan_ok_subset: "plan_ok c c' calls \<Longrightarrow> set calls' \<subseteq> set calls \<Longrightarrow> plan_ok c c' calls'"
  by (auto simp: plan_ok_def)

definition gathered :: "call list result \<Rightarrow> call list" where
  "gathered res = (case res of Inl err \<Rightarrow> [] | Inr calls \<Rightarrow> calls)"

lemma plan_entries_ok:
  "wf_cluster c \<Longrightarrow> plan_entries K c xs = (c', res) \<Longrightarrow> plan_ok c c' (gathered res)"
proof (induction xs arbitrary: c c' res)
  case Nil
  then show ?case by (auto simp: plan_ok_def gathered_def)
next
  case (Cons x xs)
  obtain c1 t where e: "plan_entry K c x = (c1, t)" by fastforce
  have p: "plan_ok c c1 (planned t)" by (rule plan_entry_ok [OF Cons.prems(1) e])
  have wf: "wf_cluster c1"
    using p Cons.prems(1) by (intro wf_evolves [of c c1]) (simp_all add: plan_ok_def)
  show ?case
  proof (cases t)
    case (Inl err)
    then show ?thesis using Cons.prems(2) e p by (auto simp: gathered_def)
  next
    case (Inr task)
    obtain c2 r2 where es: "plan_entries K c1 xs = (c2, r2)" by fastforce
    have "plan_ok c c2 (planned t @ gathered r2)"
      by (rule plan_ok_trans [OF p Cons.IH [OF wf es]])
    moreover have "c' = c2" and "set (gathered res) \<subseteq> set (planned t @ gathered r2)"
      using Cons.prems(2) e es Inr by (cases task; cases r2; auto simp: gathered_def)+
    ultimately show ?thesis
      using plan_ok_subset [of c c2 "planned t @ gathered r2" "gathered res"] by simp
  qed
qed

lemma update_plan_ok:
  "wf_cluster c \<Longrightarrow> update_plan K c data = (c', res) \<Longrightarrow> plan_ok c c' (gathered res)"
  using plan_entries_ok
  by (auto simp: update_plan_def plan_ok_def gathered_def split: sum.splits)

end

lemma removal_plan_ok:
  "wf_cluster c \<Longrightarrow> removal_plan c data = Inr calls \<Longrightarrow> cl \<in> set calls \<Longrightarrow>
   call_address cl < next_address c \<and> call_adds cl = {}"
  by (auto simp: removal_plan_def wf_cluster_def keyed_def map_sum_Inr_conv
      split: sum.splits)

end
