(* ===== verification/Cluster_System.thy ===== *)
theory Cluster_System
  imports Cluster_Segments
begin

text \<open>
  The cluster with all its tasks: the event handler of the websocket loop, the coroutines it
  gathers, the tasks the concurrent runner creates (\<^verbatim>\<open>process_failure\<close> and
  \<^verbatim>\<open>reconnect_model_runner\<close>) and the counter updates of the calls in flight. A step is one code
  segment of one of them, run to its next await; which one runs next, and what the awaited
  operation delivers, is not determined.
\<close>

section \<open>Tasks and steps\<close>

datatype task = Ready call | Task status

text \<open>
  The coroutine \<^verbatim>\<open>handle_event\<close>: idle (with the exception its last run ended with), awaiting the
  gathered updates (of an \<^verbatim>\<open>init\<close> event, then with its data), or awaiting the removals.
\<close>

datatype handler = Idle "exn option" | Gathering "json option" "nat list" | Removing "nat list"

record 'r system =
  cluster_of :: "'r cluster"
  tasks :: "task list"
  handler :: handler

fun accepts :: "wait \<Rightarrow> awaited \<Rightarrow> bool" where
  "accepts (On_init a pc) aw = answers pc aw"
| "accepts _ Got_unit = True"
| "accepts _ (Got_exn e) = True"
| "accepts _ _ = False"

definition finished_ok :: "task list \<Rightarrow> nat \<Rightarrow> bool" where
  "finished_ok ts i = (case ts ! i of Task (Done (Raise e)) \<Rightarrow> False | Task (Done _) \<Rightarrow> True | _ \<Rightarrow> False)"

text \<open>The counters a call in flight may change.\<close>

definition set_counters :: "nat \<Rightarrow> nat \<Rightarrow> int \<Rightarrow> 'a runner_scheme \<Rightarrow> 'a runner_scheme" where
  "set_counters failures timeouts cooldown r =
     r\<lparr>consecutive_failures := failures, consecutive_timeouts := timeouts,
       cooldown_calls_remaining := cooldown\<rparr>"

definition spawn :: "call list \<Rightarrow> 'r system \<Rightarrow> 'r system \<times> nat list" where
  "spawn calls s =
     (s\<lparr>tasks := tasks s @ map Ready calls\<rparr>,
      [length (tasks s)..<length (tasks s) + length calls])"

inductive system_step ::
  "'a runner_scheme environment \<Rightarrow> 'a runner_scheme system \<Rightarrow> 'a runner_scheme system \<Rightarrow> bool"
  for K where
  begin_task:
    "i < length (tasks s) \<Longrightarrow> tasks s ! i = Ready cl \<Longrightarrow>
     start K conn cl (cluster_of s) = (c', st) \<Longrightarrow>
     system_step K s (s\<lparr>cluster_of := c', tasks := (tasks s)[i := Task st]\<rparr>)"
| wake_task:
    "i < length (tasks s) \<Longrightarrow> tasks s ! i = Task (Wait w fs) \<Longrightarrow> accepts w aw \<Longrightarrow>
     resume K conn aw (Wait w fs) (cluster_of s) = (c', st) \<Longrightarrow>
     system_step K s (s\<lparr>cluster_of := c', tasks := (tasks s)[i := Task st]\<rparr>)"
| event_planned:
    "handler s = Idle prev \<Longrightarrow> update_plan K (cluster_of s) data = (c', Inr calls) \<Longrightarrow>
     spawn calls (s\<lparr>cluster_of := c'\<rparr>) = (s', ids) \<Longrightarrow>
     dispatch_event event_type = Some first \<Longrightarrow>
     system_step K s (s'\<lparr>handler := Gathering (if first then Some data else None) ids\<rparr>)"
| event_raised:
    "handler s = Idle prev \<Longrightarrow> update_plan K (cluster_of s) data = (c', Inl e) \<Longrightarrow>
     dispatch_event event_type = Some first \<Longrightarrow>
     system_step K s (s\<lparr>cluster_of := c', handler := Idle (Some e)\<rparr>)"
| update_gathered:
    "handler s = Gathering None ids \<Longrightarrow> list_all (finished_ok (tasks s)) ids \<Longrightarrow>
     system_step K s (s\<lparr>handler := Idle None\<rparr>)"
| init_gathered:
    "handler s = Gathering (Some data) ids \<Longrightarrow> list_all (finished_ok (tasks s)) ids \<Longrightarrow>
     removal_plan (cluster_of s) data = Inr calls \<Longrightarrow> spawn calls s = (s', ids') \<Longrightarrow>
     system_step K s (s'\<lparr>handler := Removing ids'\<rparr>)"
| init_raised:
    "handler s = Gathering (Some data) ids \<Longrightarrow> list_all (finished_ok (tasks s)) ids \<Longrightarrow>
     removal_plan (cluster_of s) data = Inl e \<Longrightarrow>
     system_step K s (s\<lparr>handler := Idle (Some e)\<rparr>)"
| gather_raised:
    "handler s = Gathering first ids \<or> handler s = Removing ids \<Longrightarrow> i \<in> set ids \<Longrightarrow>
     i < length (tasks s) \<Longrightarrow> tasks s ! i = Task (Done (Raise e)) \<Longrightarrow>
     system_step K s (s\<lparr>handler := Idle (Some e)\<rparr>)"
| removals_gathered:
    "handler s = Removing ids \<Longrightarrow> list_all (finished_ok (tasks s)) ids \<Longrightarrow>
     system_step K s (s\<lparr>handler := Idle None\<rparr>)"
| create_task:
    "cl = Report a code reason \<or> cl = Reconnect a \<Longrightarrow> a < next_address (cluster_of s) \<Longrightarrow>
     system_step K s (fst (spawn [cl] s))"
| call_in_flight:
    "a < next_address (cluster_of s) \<Longrightarrow>
     system_step K s
       (s\<lparr>cluster_of := modify a (set_counters failures timeouts cooldown) (cluster_of s)\<rparr>)"
| socket_activity:
    "system_step K s (s\<lparr>cluster_of := (cluster_of s)\<lparr>ws_client := w\<rparr>\<rparr>)"

definition initial_system :: "'r cluster \<Rightarrow> 'r system" where
  "initial_system c = \<lparr>cluster_of = c, tasks = [], handler = Idle None\<rparr>"

abbreviation reachable ::
  "'a runner_scheme environment \<Rightarrow> 'a runner_scheme system \<Rightarrow> 'a runner_scheme system \<Rightarrow> bool" where
  "reachable K \<equiv> rtranclp (system_step K)"

section \<open>The invariant\<close>

fun settled :: "status \<Rightarrow> bool" where
  "settled (Run out fs) = False"
| "settled _ = True"

fun task_ok :: "nat \<Rightarrow> task \<Rightarrow> bool" where
  "task_ok n (Ready cl) = (call_address cl < n)"
| "task_ok n (Task st) = (status_ok n st \<and> settled st)"

fun task_initialising :: "task \<Rightarrow> nat set" where
  "task_initialising (Ready cl) = {}"
| "task_initialising (Task st) = initialising st"

fun task_adds :: "task \<Rightarrow> nat set" where
  "task_adds (Ready cl) = call_adds cl"
| "task_adds (Task st) = enlisting st"

definition system_ok :: "'a runner_scheme system \<Rightarrow> bool" where
  "system_ok s \<longleftrightarrow>
     wf_cluster (cluster_of s) \<and>
     (\<forall>t \<in> set (tasks s). task_ok (next_address (cluster_of s)) t) \<and>
     pending_within (cluster_of s) (\<Union>t \<in> set (tasks s). task_initialising t)"

lemma drive_settled: "settled (snd (drive K conn x))"
  by (induction K conn x rule: drive.induct) auto

lemma start_settled: "start K conn cl c = (c', st) \<Longrightarrow> settled st"
  using drive_settled [of K conn "begin_call K cl c"] by (simp add: start_def)

lemma resume_settled: "resume K conn aw (Wait w fs) c = (c', st) \<Longrightarrow> settled st"
  using drive_settled [of K conn "deliver K conn aw w fs c"] by (simp add: resume_def)

lemma status_ok_mono: "status_ok n st \<Longrightarrow> n \<le> m \<Longrightarrow> status_ok m st"
  by (induction n st rule: status_ok.induct) (auto intro: frames_ok_mono)

lemma task_ok_mono: "task_ok n t \<Longrightarrow> n \<le> m \<Longrightarrow> task_ok m t"
  by (cases t) (auto intro: status_ok_mono)

text \<open>What the other tasks account for when task \<open>i\<close> takes a step.\<close>

definition others :: "(task \<Rightarrow> nat set) \<Rightarrow> task list \<Rightarrow> nat \<Rightarrow> nat set" where
  "others g ts i = (\<Union>j \<in> {..<length ts} - {i}. g (ts ! j))"

lemma Union_tasks: "(\<Union>t \<in> set ts. g t) = (\<Union>j \<in> {..<length ts}. g (ts ! j))"
  by (fastforce simp: in_set_conv_nth)

lemma tasks_split:
  "i < length ts \<Longrightarrow> (\<Union>t \<in> set ts. g t) = others g ts i \<union> g (ts ! i)"
  by (auto simp: Union_tasks others_def)

lemma tasks_update:
  "i < length ts \<Longrightarrow> (\<Union>t \<in> set (ts[i := t']). g t) = others g ts i \<union> g t'"
  unfolding Union_tasks by (auto simp: others_def nth_list_update split: if_splits)

text \<open>A step of one task that is a good segment keeps the invariant.\<close>

lemma task_step_ok:
  assumes "system_ok s" and "i < length (tasks s)"
    and "segment_ok (others task_initialising (tasks s) i) E (cluster_of s) c' st" and "settled st"
  shows "system_ok (s\<lparr>cluster_of := c', tasks := (tasks s)[i := Task st]\<rparr>)"
proof -
  have n: "next_address (cluster_of s) \<le> next_address c'"
    using assms(3) by (simp add: segment_ok_def evolves_def)
  have "task_ok (next_address c') t" if "t \<in> set ((tasks s)[i := Task st])" for t
  proof -
    have "t = Task st \<or> t \<in> set (tasks s)"
      using that set_update_subset_insert [of "tasks s" i "Task st"] by blast
    then show ?thesis
      using assms(1,3,4) task_ok_mono [OF _ n] by (auto simp: segment_ok_def system_ok_def)
  qed
  then show ?thesis
    using assms(2,3) by (simp add: system_ok_def segment_ok_def tasks_update)
qed

lemma spawn_ok:
  assumes "wf_cluster (cluster_of s)"
    and "\<forall>t \<in> set (tasks s). task_ok (next_address (cluster_of s)) t"
    and "pending_within (cluster_of s) (\<Union>t \<in> set (tasks s). task_initialising t)"
    and "\<forall>cl \<in> set calls. call_address cl < next_address (cluster_of s)"
  shows "system_ok (fst (spawn calls s))"
  using assms by (auto simp: system_ok_def spawn_def pending_within_def)

lemma system_ok_handler [simp]: "system_ok (s\<lparr>handler := h\<rparr>) = system_ok s"
  by (simp add: system_ok_def)

lemma system_ok_cluster:
  assumes "system_ok s" and "evolves (cluster_of s) c'"
    and "models_run c' = models_run (cluster_of s)"
    and "pending_model_runs c' = pending_model_runs (cluster_of s)"
  shows "system_ok (s\<lparr>cluster_of := c'\<rparr>)"
proof -
  have "next_address (cluster_of s) \<le> next_address c'" using assms(2) by (simp add: evolves_def)
  then show ?thesis
    using assms wf_evolves [OF assms(2)] task_ok_mono
    by (auto simp: system_ok_def pending_within_def)
qed

interpretation counters_op: runner_operation "set_counters failures timeouts cooldown"
  for failures timeouts cooldown
  by unfold_locales (simp_all add: set_counters_def kept_defs)

context runner_factory
begin

lemma begin_task_segment:
  assumes "system_ok s" and "i < length (tasks s)" and "tasks s ! i = Ready cl"
    and "start K conn cl (cluster_of s) = (c', st)"
  shows "segment_ok (others task_initialising (tasks s) i) (task_adds (tasks s ! i))
    (cluster_of s) c' st"
proof -
  have "pending_within (cluster_of s) (others task_initialising (tasks s) i)"
    using assms(1-3) by (simp add: system_ok_def tasks_split [of i])
  moreover have "call_address cl < next_address (cluster_of s)"
    using assms(1-3) nth_mem [of i "tasks s"] by (fastforce simp: system_ok_def)
  ultimately show ?thesis
    using assms start_segment by (simp add: system_ok_def)
qed

lemma wake_task_segment:
  assumes "system_ok s" and "i < length (tasks s)" and "tasks s ! i = Task (Wait w fs)"
    and "resume K conn aw (Wait w fs) (cluster_of s) = (c', st)"
  shows "segment_ok (others task_initialising (tasks s) i) (task_adds (tasks s ! i))
    (cluster_of s) c' st"
proof -
  have "pending_within (cluster_of s)
      (others task_initialising (tasks s) i \<union> initialising (Wait w fs))"
    using assms(1-3) by (simp add: system_ok_def tasks_split [of i])
  moreover have "status_ok (next_address (cluster_of s)) (Wait w fs)"
    using assms(1-3) nth_mem [of i "tasks s"] by (fastforce simp: system_ok_def)
  ultimately show ?thesis
    using assms resume_segment by (simp add: system_ok_def)
qed

lemma system_step_ok: "system_step K s t \<Longrightarrow> system_ok s \<Longrightarrow> system_ok t"
proof (induction rule: system_step.induct)
  case (begin_task i s cl conn c' st)
  then show ?case by (intro task_step_ok [OF _ _ begin_task_segment]) (auto dest: start_settled)
next
  case (wake_task i s w fs aw conn c' st)
  then show ?case by (intro task_step_ok [OF _ _ wake_task_segment]) (auto dest: resume_settled)
next
  case (event_planned s prev data c' calls s' ids event_type first)
  then have p: "plan_ok (cluster_of s) c' calls"
    using update_plan_ok [of "cluster_of s" data c' "Inr calls"]
    by (simp add: system_ok_def gathered_def)
  then have "system_ok (s\<lparr>cluster_of := c'\<rparr>)"
    using event_planned by (intro system_ok_cluster) (simp_all add: plan_ok_def)
  then have "system_ok (fst (spawn calls (s\<lparr>cluster_of := c'\<rparr>)))"
    using p by (intro spawn_ok) (simp_all add: system_ok_def plan_ok_def)
  then show ?case using event_planned by simp
next
  case (event_raised s prev data c' e event_type first)
  then have "plan_ok (cluster_of s) c' []"
    using update_plan_ok [of "cluster_of s" data c' "Inl e"]
    by (simp add: system_ok_def gathered_def)
  then have "system_ok (s\<lparr>cluster_of := c'\<rparr>)"
    using event_raised by (intro system_ok_cluster) (simp_all add: plan_ok_def)
  then show ?case by (simp add: system_ok_def)
next
  case (init_gathered s data ids calls s' ids')
  then have "system_ok (fst (spawn calls s))"
    using removal_plan_ok [of "cluster_of s" data calls]
    by (intro spawn_ok) (simp_all add: system_ok_def)
  then show ?case using init_gathered by simp
next
  case (create_task cl a code reason s)
  then show ?case by (intro spawn_ok) (auto simp: system_ok_def)
next
  case (call_in_flight a s failures timeouts cooldown)
  then show ?case by (intro system_ok_cluster counters_op.modify_evolves) simp_all
next
  case (socket_activity s w)
  then show ?case by (intro system_ok_cluster) (auto simp: evolves_def)
qed simp_all

end

sublocale runner_factory \<subseteq> running: stepwise "system_step K" system_ok
  by unfold_locales (rule system_step_ok)


section \<open>Removed models stay removed\<close>

text \<open>
  An object is retired when no dictionary lists it and no coroutine is on its way to enlist it.
\<close>

definition retired :: "'a runner_scheme system \<Rightarrow> nat \<Rightarrow> bool" where
  "retired s a \<longleftrightarrow>
     a < next_address (cluster_of s) \<and> a \<notin> listed (cluster_of s) \<and>
     a \<notin> (\<Union>t \<in> set (tasks s). task_adds t)"

lemma retired_segment:
  assumes "retired s a" and "i < length (tasks s)"
    and "segment_ok T (task_adds (tasks s ! i)) (cluster_of s) c' st"
  shows "retired (s\<lparr>cluster_of := c', tasks := (tasks s)[i := Task st]\<rparr>) a"
proof -
  have E: "a \<notin> task_adds (tasks s ! i)" and O: "a \<notin> others task_adds (tasks s) i"
    using assms(1,2) by (simp_all add: retired_def tasks_split [of i])
  have "a < next_address c'"
    using assms(1,3) by (auto simp: retired_def segment_ok_def evolves_def)
  moreover have "a \<notin> listed c'" and "a \<notin> enlisting st"
    using assms(1,3) E by (auto simp: retired_def segment_ok_def)
  ultimately show ?thesis
    using assms(2) O by (simp add: retired_def tasks_update)
qed

lemma retired_spawn:
  "retired s a \<Longrightarrow> \<forall>cl \<in> set calls. a \<notin> call_adds cl \<Longrightarrow> retired (fst (spawn calls s)) a"
  by (auto simp: retired_def spawn_def)

lemma retired_cluster:
  "retired s a \<Longrightarrow> evolves (cluster_of s) c' \<Longrightarrow> models_run c' = models_run (cluster_of s) \<Longrightarrow>
   pending_model_runs c' = pending_model_runs (cluster_of s) \<Longrightarrow> retired (s\<lparr>cluster_of := c'\<rparr>) a"
  by (auto simp: retired_def listed_def evolves_def)

lemma retired_handler [simp]: "retired (s\<lparr>handler := h\<rparr>) a = retired s a"
  by (simp add: retired_def)

context runner_factory
begin

lemma system_step_retired:
  "system_step K s t \<Longrightarrow> system_ok s \<Longrightarrow> retired s a \<Longrightarrow> retired t a"
proof (induction rule: system_step.induct)
  case (begin_task i s cl conn c' st)
  then show ?case by (intro retired_segment [OF _ _ begin_task_segment])
next
  case (wake_task i s w fs aw conn c' st)
  then show ?case by (intro retired_segment [OF _ _ wake_task_segment])
next
  case (event_planned s prev data c' calls s' ids event_type first)
  then have p: "plan_ok (cluster_of s) c' calls"
    using update_plan_ok [of "cluster_of s" data c' "Inr calls"]
    by (simp add: system_ok_def gathered_def)
  then have "retired (s\<lparr>cluster_of := c'\<rparr>) a"
    using event_planned by (intro retired_cluster) (simp_all add: plan_ok_def)
  moreover have "a \<notin> call_adds cl" if "cl \<in> set calls" for cl
  proof -
    have "call_adds cl \<subseteq> {next_address (cluster_of s)..<next_address c'}"
      using p that by (simp add: plan_ok_def)
    then show ?thesis using event_planned.prems(2) by (auto simp: retired_def)
  qed
  ultimately have "retired (fst (spawn calls (s\<lparr>cluster_of := c'\<rparr>))) a"
    by (intro retired_spawn) simp_all
  then show ?case using event_planned by simp
next
  case (event_raised s prev data c' e event_type first)
  then have "plan_ok (cluster_of s) c' []"
    using update_plan_ok [of "cluster_of s" data c' "Inl e"]
    by (simp add: system_ok_def gathered_def)
  then have "retired (s\<lparr>cluster_of := c'\<rparr>) a"
    using event_raised by (intro retired_cluster) (simp_all add: plan_ok_def)
  then show ?case by (simp add: retired_def)
next
  case (init_gathered s data ids calls s' ids')
  then have "retired (fst (spawn calls s)) a"
    using removal_plan_ok [of "cluster_of s" data calls]
    by (intro retired_spawn) (simp_all add: system_ok_def)
  then show ?case using init_gathered by simp
next
  case (create_task cl a' code reason s)
  then show ?case by (intro retired_spawn) auto
next
  case (call_in_flight a' s failures timeouts cooldown)
  then show ?case by (intro retired_cluster counters_op.modify_evolves) simp_all
next
  case (socket_activity s w)
  then show ?case by (intro retired_cluster) (auto simp: evolves_def)
qed simp_all

lemma retired_forever:
  "reachable K s t \<Longrightarrow> system_ok s \<Longrightarrow> retired s a \<Longrightarrow> retired t a"
proof (induction rule: rtranclp_induct)
  case (step t u)
  then show ?case using running.always [of s t] system_step_retired by blast
qed

lemma closed_forever:
  "system_step K s t \<Longrightarrow> system_ok s \<Longrightarrow> evolves (cluster_of s) (cluster_of t)"
proof (induction rule: system_step.induct)
  case (begin_task i s cl conn c' st)
  then show ?case using begin_task_segment [of s i cl conn c' st] by (simp add: segment_ok_def)
next
  case (wake_task i s w fs aw conn c' st)
  then show ?case
    using wake_task_segment [of s i w fs conn aw c' st] by (simp add: segment_ok_def)
next
  case (event_planned s prev data c' calls s' ids event_type first)
  then show ?case
    using update_plan_ok [of "cluster_of s" data c' "Inr calls"]
    by (auto simp: system_ok_def plan_ok_def spawn_def)
next
  case (event_raised s prev data c' e event_type first)
  then show ?case
    using update_plan_ok [of "cluster_of s" data c' "Inl e"]
    by (auto simp: system_ok_def plan_ok_def)
next
  case (init_gathered s data ids calls s' ids')
  then show ?case by (auto simp: spawn_def)
next
  case (create_task cl a' code reason s)
  then show ?case by (simp add: spawn_def)
next
  case (call_in_flight a' s failures timeouts cooldown)
  then show ?case by (simp add: counters_op.modify_evolves)
qed (simp_all add: evolves_def)

lemma reachable_evolves:
  "reachable K s t \<Longrightarrow> system_ok s \<Longrightarrow> evolves (cluster_of s) (cluster_of t)"
proof (induction rule: rtranclp_induct)
  case (step t u)
  then show ?case
    using running.always [of s t] closed_forever [of t u] evolves_trans by blast
qed simp

end

text \<open>What a completed removal leaves behind.\<close>

lemma remove_end_unlisted: "wf_cluster c \<Longrightarrow> a \<notin> listed (remove_end a c)"
  by (auto simp: listed_def remove_end_def Let_def ran_def wf_cluster_def keyed_def py_dict_simps
      split: if_splits)

lemma remove_resumes:
  "resume K conn Got_unit (Wait (On_close a) [After_close a]) c = (remove_end a c, Done Ok)"
  by (simp add: resume_def deliver_def)

section \<open>Quiescence\<close>

definition quiescent :: "'r system \<Rightarrow> bool" where
  "quiescent s \<longleftrightarrow> list_all (\<lambda>t. case t of Task (Done out) \<Rightarrow> True | _ \<Rightarrow> False) (tasks s)"

lemma quiescent_initialising:
  "quiescent s \<Longrightarrow> (\<Union>t \<in> set (tasks s). task_initialising t) = {}"
proof -
  assume q: "quiescent s"
  have "task_initialising t = {}" if "t \<in> set (tasks s)" for t
  proof -
    have "case t of Task (Done out) \<Rightarrow> True | _ \<Rightarrow> False"
      using q that by (auto simp: quiescent_def list_all_iff)
    then show ?thesis by (auto split: task.splits status.splits)
  qed
  then show ?thesis by simp
qed

lemma quiescent_no_pending:
  assumes "system_ok s" and "quiescent s"
  shows "pending_model_runs (cluster_of s) = []"
proof -
  have "pending_within (cluster_of s) {}"
    using assms quiescent_initialising [of s] by (simp add: system_ok_def)
  then have "map_of (pending_model_runs (cluster_of s)) = Map.empty"
    by (auto simp: pending_within_def fun_eq_iff not_Some_eq [symmetric] simp del: not_Some_eq)
  then show ?thesis by (simp add: map_of_eq_empty_iff)
qed

end
