(* ===== verification/Byte_Codecs.thy ===== *)
theory Byte_Codecs
  imports Json_Text
begin

text \<open>
  The byte-level operations of the standard library that the wire format rests on: two's complement
  integers (\<^verbatim>\<open>int.to_bytes\<close>, \<^verbatim>\<open>int.from_bytes\<close>), the packing of doubles (\<^verbatim>\<open>struct\<close>) and
  strict UTF-8, each with its round trips.
\<close>

section \<open>Integers\<close>

fun le_bytes :: "nat \<Rightarrow> int \<Rightarrow> bytes" where
  "le_bytes 0 i = []"
| "le_bytes (Suc n) i = word_of_int i # le_bytes n (i div 256)"

fun le_unsigned :: "bytes \<Rightarrow> int" where
  "le_unsigned [] = 0"
| "le_unsigned (b # bs) = uint b + 256 * le_unsigned bs"

lemma length_le_bytes [simp]: "length (le_bytes n i) = n"
  by (induction n arbitrary: i) auto

lemma uint_byte: "uint (word_of_int i :: 8 word) = i mod 256"
  by (simp add: uint_word_of_int)

lemma le_unsigned_le_bytes: "le_unsigned (le_bytes n i) = i mod 256 ^ n"
proof (induction n arbitrary: i)
  case (Suc n)
  have "i mod (256 * 256 ^ n) = 256 * (i div 256 mod 256 ^ n) + i mod 256"
    by (rule zmod_zmult2_eq) simp
  then show ?case using Suc by (simp add: uint_byte)
qed simp

lemma le_unsigned_bounds: "0 \<le> le_unsigned bs \<and> le_unsigned bs < 256 ^ length bs"
proof (induction bs)
  case (Cons b bs)
  have "0 \<le> uint b" and "uint b < 256" using uint_bounded [of b] by simp_all
  then show ?case using Cons by auto
qed simp

lemma le_bytes_le_unsigned: "le_bytes (length bs) (le_unsigned bs) = bs"
proof (induction bs)
  case (Cons b bs)
  have b: "0 \<le> uint b" "uint b < 256" using uint_bounded [of b] by simp_all
  have "word_of_int (uint b + 256 * le_unsigned bs) = (word_of_int (uint b) :: 8 word)"
    by (rule word_uint_eqI) (simp only: uint_byte mod_mult_self2)
  moreover have "(uint b + 256 * le_unsigned bs) div 256 = le_unsigned bs" using b by simp
  ultimately show ?case using Cons by simp
qed simp

text \<open>\<^verbatim>\<open>i.to_bytes(n, byteorder="little", signed=True)\<close>\<close>

definition int_to_bytes :: "nat \<Rightarrow> int \<Rightarrow> bytes result" where
  "int_to_bytes n i =
     (if - (256 ^ n) \<le> 2 * i \<and> 2 * i < 256 ^ n then Inr (le_bytes n i) else Inl OverflowError)"

text \<open>\<^verbatim>\<open>int.from_bytes(bs, byteorder="little", signed=True)\<close>\<close>

definition int_from_bytes :: "bytes \<Rightarrow> int" where
  "int_from_bytes bs =
     (let v = le_unsigned bs
      in if 256 ^ length bs \<le> 2 * v then v - 256 ^ length bs else v)"

lemma int_from_to_bytes: "int_to_bytes n i = Inr bs \<Longrightarrow> int_from_bytes bs = i"
proof -
  assume "int_to_bytes n i = Inr bs"
  then have lo: "- (256 ^ n) \<le> 2 * i" and hi: "2 * i < 256 ^ n" and bs: "bs = le_bytes n i"
    by (auto simp: int_to_bytes_def split: if_splits)
  show ?thesis
  proof (cases "0 \<le> i")
    case True
    then have "i mod 256 ^ n = i" using hi by (intro mod_pos_pos_trivial) auto
    then show ?thesis using hi by (simp add: int_from_bytes_def bs le_unsigned_le_bytes Let_def)
  next
    case False
    then have "(i + 256 ^ n) mod 256 ^ n = i + 256 ^ n"
      using lo by (intro mod_pos_pos_trivial) auto
    then have "i mod 256 ^ n = i + 256 ^ n" by simp
    then show ?thesis using lo by (simp add: int_from_bytes_def bs le_unsigned_le_bytes Let_def)
  qed
qed

lemma le_bytes_mod: "le_bytes n (i - 256 ^ n) = le_bytes n i"
proof -
  have "le_bytes n (i - 256 ^ n) =
      le_bytes n (le_unsigned (le_bytes n (i - 256 ^ n)))"
    using le_bytes_le_unsigned [of "le_bytes n (i - 256 ^ n)"] by simp
  also have "\<dots> = le_bytes n (le_unsigned (le_bytes n i))"
    by (simp add: le_unsigned_le_bytes mod_diff_right_eq [symmetric] del: mod_diff_right_eq)
  also have "\<dots> = le_bytes n i" using le_bytes_le_unsigned [of "le_bytes n i"] by simp
  finally show ?thesis .
qed

lemma int_to_from_bytes: "int_to_bytes (length bs) (int_from_bytes bs) = Inr bs"
  using le_unsigned_bounds [of bs] le_bytes_le_unsigned [of bs]
    le_bytes_mod [of "length bs" "le_unsigned bs"]
  by (auto simp: int_to_bytes_def int_from_bytes_def Let_def)

section \<open>Doubles\<close>

text \<open>
  \<^verbatim>\<open>struct.pack("d", x)\<close> writes the eight bytes of the double in the byte order of the machine;
  \<^verbatim>\<open>struct.unpack("d", bs)\<close> raises \<^verbatim>\<open>struct.error\<close> on any other length.
\<close>

definition pack_double :: "bool \<Rightarrow> 64 word \<Rightarrow> bytes" where
  "pack_double little w =
     (if little then le_bytes 8 (uint w) else rev (le_bytes 8 (uint w)))"

definition unpack_double :: "bool \<Rightarrow> bytes \<Rightarrow> 64 word result" where
  "unpack_double little bs =
     (if length bs \<noteq> 8 then Inl StructError
      else Inr (word_of_int (le_unsigned (if little then bs else rev bs))))"

lemma uint64_mod: "uint (w :: 64 word) mod 256 ^ 8 = uint w"
  using uint_bounded [of w] by simp

lemma length_pack_double [simp]: "length (pack_double little w) = 8"
  by (simp add: pack_double_def)

lemma unpack_pack_double: "unpack_double little (pack_double little w) = Inr w"
  by (simp add: unpack_double_def pack_double_def le_unsigned_le_bytes uint64_mod
      del: le_bytes.simps power_numeral)

lemma unpack_pack_other_order:
  "unpack_double (\<not> little) (pack_double little w) =
     Inr (word_of_int (le_unsigned (rev (le_bytes 8 (uint w)))))"
  by (simp add: unpack_double_def pack_double_def)

section \<open>Integers as doubles\<close>

text \<open>
  Converting an integer to a double, and the product of two doubles that are integers up to a power
  of two, round the exact value to 53 significant bits, ties to even.
\<close>

function bit_length :: "nat \<Rightarrow> nat" where
  "bit_length n = (if n = 0 then 0 else Suc (bit_length (n div 2)))"
  by pat_completeness auto
termination by (relation "measure id") auto

declare bit_length.simps [simp del]

lemma bit_length_bounds: "0 < n \<Longrightarrow> 2 ^ (bit_length n - 1) \<le> n \<and> n < 2 ^ bit_length n"
proof (induction n rule: bit_length.induct)
  case (1 n)
  show ?case
  proof (cases "n div 2 = 0")
    case True
    then have "n = 1" using 1 by linarith
    then show ?thesis by (simp add: bit_length.simps)
  next
    case False
    define l where "l = bit_length (n div 2)"
    have l: "2 ^ (l - 1) \<le> n div 2" "n div 2 < 2 ^ l" using 1 False by (simp_all add: l_def)
    have "l \<noteq> 0" using l False by (cases l) auto
    then obtain k where k: "l = Suc k" by (cases l) auto
    have "bit_length n = Suc l" using 1 by (simp add: bit_length.simps [of n] l_def)
    then show ?thesis using l k by simp linarith
  qed
qed

definition round_div :: "nat \<Rightarrow> nat \<Rightarrow> nat" where
  "round_div a d =
     (let q = a div d; r = a mod d
      in if d < 2 * r \<or> (d = 2 * r \<and> odd q) then Suc q else q)"

definition round53 :: "nat \<Rightarrow> nat" where
  "round53 a =
     (if bit_length a \<le> 53 then a
      else let d = 2 ^ (bit_length a - 53) in round_div a d * d)"

lemma round_div_bounds: "a div d \<le> round_div a d" "2 * (round_div a d * d) \<le> 2 * a + d"
proof -
  show "a div d \<le> round_div a d" by (simp add: round_div_def Let_def)
  have "a = a div d * d + a mod d" by simp
  then have "2 * a = 2 * (a div d * d) + 2 * (a mod d)" by linarith
  then show "2 * (round_div a d * d) \<le> 2 * a + d"
    unfolding round_div_def Let_def by (cases "a mod d < d") auto
qed

lemma round53_lower:
  assumes "2 ^ 54 * k \<le> a" and "bit_length a \<le> 107"
  shows "2 ^ 54 * k \<le> round53 a"
proof (cases "bit_length a \<le> 53")
  case False
  define e where "e = bit_length a - 53"
  have "e \<le> 54" using assms(2) by (simp add: e_def)
  then have split: "2 ^ 54 = 2 ^ (54 - e) * (2 ^ e :: nat)" by (simp flip: power_add)
  have "k * 2 ^ (54 - e) \<le> a div 2 ^ e"
    using assms(1) unfolding split by (simp add: less_eq_div_iff_mult_less_eq mult.commute mult.left_commute)
  also have "\<dots> \<le> round_div a (2 ^ e)" by (rule round_div_bounds)
  finally have "k * 2 ^ (54 - e) * 2 ^ e \<le> round_div a (2 ^ e) * 2 ^ e" by (rule mult_le_mono1)
  then show ?thesis
    using False unfolding split by (simp add: round53_def Let_def e_def mult.commute mult.left_commute)
qed (use assms in \<open>simp add: round53_def\<close>)

lemma round53_upper: "2 ^ 53 * round53 a \<le> 2 ^ 53 * a + a"
proof (cases "bit_length a \<le> 53")
  case False
  define e where "e = bit_length a - 53"
  have "0 < a" using False by (cases "a = 0") (simp_all add: bit_length.simps)
  then have "2 ^ (bit_length a - 1) \<le> a" using bit_length_bounds by blast
  moreover have "2 ^ (bit_length a - 1) = 2 ^ 52 * (2 ^ e :: nat)"
    using False by (simp add: e_def flip: power_add del: power_numeral)
  ultimately have "2 ^ 52 * 2 ^ e \<le> a" by simp
  moreover have "2 * (round_div a (2 ^ e) * 2 ^ e) \<le> 2 * a + 2 ^ e" by (rule round_div_bounds)
  ultimately show ?thesis using False by (simp add: round53_def Let_def e_def)
qed (simp add: round53_def)

lemma bit_length_le: "a < 2 ^ n \<Longrightarrow> bit_length a \<le> n"
proof (rule ccontr)
  assume a: "a < 2 ^ n" "\<not> bit_length a \<le> n"
  then have "0 < a" by (cases "a = 0") (simp_all add: bit_length.simps)
  then have "2 ^ (bit_length a - 1) \<le> a" using bit_length_bounds by blast
  moreover have "(2::nat) ^ n \<le> 2 ^ (bit_length a - 1)" using a by (intro power_increasing) auto
  ultimately show False using a by linarith
qed

lemma round53_small: "a < 2 ^ 53 \<Longrightarrow> round53 a = a"
  using bit_length_le [of a 53] by (simp add: round53_def)

text \<open>The bits of \<^verbatim>\<open>float(i)\<close>; \<open>None\<close> where the conversion overflows.\<close>

definition int_to_double :: "int \<Rightarrow> 64 word option" where
  "int_to_double i =
     (let a = nat \<bar>i\<bar>; l = bit_length a;
          m = (if l \<le> 53 then a * 2 ^ (53 - l) else round_div a (2 ^ (l - 53)));
          bits = (l + 1022) * 2 ^ 52 + m - 2 ^ 52
      in if i = 0 then Some 0
         else if 2047 * 2 ^ 52 \<le> bits then None
         else Some (of_nat ((if i < 0 then 2 ^ 63 else 0) + bits)))"

text \<open>
  \<^verbatim>\<open>int(x)\<close> of a double given by its bits: truncation towards zero; it raises on an infinity and on
  a value that is not a number.
\<close>

definition int_of_double :: "64 word \<Rightarrow> int result" where
  "int_of_double w =
     (let bits = unat w; negative = 2 ^ 63 \<le> bits; rest = bits mod 2 ^ 63;
          ex = rest div 2 ^ 52; frac = rest mod 2 ^ 52;
          magnitude = (if ex = 0 then 0
                       else if 1075 \<le> ex then (2 ^ 52 + frac) * 2 ^ (ex - 1075)
                       else (2 ^ 52 + frac) div 2 ^ (1075 - ex))
      in if ex = 2047
         then (if frac = 0 then Inl OverflowError
               else Inl (ValueError (lit ''cannot convert float NaN to integer'')))
         else Inr (if negative then - int magnitude else int magnitude))"

section \<open>UTF-8\<close>

text \<open>A code point that UTF-8 can carry: in range, and no surrogate.\<close>

definition scalar :: "nat \<Rightarrow> bool" where
  "scalar c \<longleftrightarrow> c < 55296 \<or> (57344 \<le> c \<and> c < 1114112)"

fun utf8_char :: "nat \<Rightarrow> nat list" where
  "utf8_char c =
     (if c < 128 then [c]
      else if c < 2048 then [192 + c div 64, 128 + c mod 64]
      else if c < 65536 then [224 + c div 4096, 128 + c div 64 mod 64, 128 + c mod 64]
      else [240 + c div 262144, 128 + c div 4096 mod 64, 128 + c div 64 mod 64, 128 + c mod 64])"

definition utf8_encode :: "pystr \<Rightarrow> bytes result" where
  "utf8_encode s =
     (if list_all scalar s then Inr (map of_nat (concat (map utf8_char s)))
      else Inl UnicodeEncodeError)"

definition cont :: "nat \<Rightarrow> bool" where
  "cont b \<longleftrightarrow> 128 \<le> b \<and> b < 192"

text \<open>Strict decoding: no overlong form, no surrogate, nothing above the last code point.\<close>

fun utf8_scan :: "nat list \<Rightarrow> pystr option" where
  "utf8_scan [] = Some []"
| "utf8_scan (b # bs) =
     (if b < 128 then map_option (Cons b) (utf8_scan bs)
      else if 194 \<le> b \<and> b < 224 then
        (case bs of
           b1 # r \<Rightarrow> (if cont b1
                     then map_option (Cons ((b - 192) * 64 + (b1 - 128))) (utf8_scan r)
                     else None)
         | _ \<Rightarrow> None)
      else if 224 \<le> b \<and> b < 240 then
        (case bs of
           b1 # b2 # r \<Rightarrow>
             (let c = (b - 224) * 4096 + (b1 - 128) * 64 + (b2 - 128)
              in if cont b1 \<and> cont b2 \<and> 2048 \<le> c \<and> scalar c
                 then map_option (Cons c) (utf8_scan r) else None)
         | _ \<Rightarrow> None)
      else if 240 \<le> b \<and> b < 245 then
        (case bs of
           b1 # b2 # b3 # r \<Rightarrow>
             (let c = (b - 240) * 262144 + (b1 - 128) * 4096 + (b2 - 128) * 64 + (b3 - 128)
              in if cont b1 \<and> cont b2 \<and> cont b3 \<and> 65536 \<le> c \<and> scalar c
                 then map_option (Cons c) (utf8_scan r) else None)
         | _ \<Rightarrow> None)
      else None)"

definition utf8_decode :: "bytes \<Rightarrow> pystr result" where
  "utf8_decode bs =
     (case utf8_scan (map unat bs) of None \<Rightarrow> Inl UnicodeDecodeError | Some s \<Rightarrow> Inr s)"

lemma digits3: "c div 4096 * 4096 + c div 64 mod 64 * 64 + c mod 64 = (c::nat)"
proof -
  have "c div 4096 = c div 64 div 64" by (simp add: div_mult2_eq [symmetric])
  then show ?thesis
    using div_mult_mod_eq [of c 64] div_mult_mod_eq [of "c div 64" 64] by linarith
qed

lemma digits4:
  "c div 262144 * 262144 + c div 4096 mod 64 * 4096 + c div 64 mod 64 * 64 + c mod 64 = (c::nat)"
proof -
  have "c div 262144 = c div 4096 div 64" by (simp add: div_mult2_eq [symmetric])
  then show ?thesis
    using digits3 [of c] div_mult_mod_eq [of "c div 4096" 64] by linarith
qed

lemma utf8_char_scan:
  assumes "scalar c"
  shows "utf8_scan (utf8_char c @ r) = map_option (Cons c) (utf8_scan r)"
proof -
  have c: "c < 1114112" using assms by (auto simp: scalar_def)
  consider "c < 128" | "128 \<le> c" "c < 2048" | "2048 \<le> c" "c < 65536" | "65536 \<le> c" by linarith
  then show ?thesis
  proof cases
    case 2
    then have "2 \<le> c div 64" "c div 64 < 32" by (simp_all add: div_le_mono less_mult_imp_div_less)
    then show ?thesis using 2 by (simp add: cont_def)
  next
    case 3
    have "c div 4096 < 16" using 3 by (simp add: less_mult_imp_div_less)
    moreover have "c div 4096 * 4096 + c div 64 mod 64 * 64 + c mod 64 = c" by (rule digits3)
    ultimately show ?thesis using 3 assms by (simp add: cont_def Let_def)
  next
    case 4
    have "c div 262144 < 5" using c by (simp add: less_mult_imp_div_less)
    moreover have "c div 262144 * 262144 + c div 4096 mod 64 * 4096 + c div 64 mod 64 * 64 + c mod 64 = c"
      by (rule digits4)
    ultimately show ?thesis using 4 assms by (simp add: cont_def Let_def)
  qed simp
qed

lemma utf8_char_bytes:
  assumes "scalar c"
  shows "list_all (\<lambda>b. b < 256) (utf8_char c)"
proof -
  have tail: "128 + n mod 64 < (256::nat)" for n
    using mod_less_divisor [of 64 n] by linarith
  have "c < 1114112" using assms by (auto simp: scalar_def)
  then have "240 + c div 262144 < 256" by (simp add: less_mult_imp_div_less)
  moreover have "224 + c div 4096 < 256" if "c < 65536" using that by (simp add: less_mult_imp_div_less)
  moreover have "192 + c div 64 < 256" if "c < 2048" using that by (simp add: less_mult_imp_div_less)
  ultimately show ?thesis by (simp only: utf8_char.simps list.pred_inject tail split: if_split) simp
qed

lemma utf8_scan_encode:
  "list_all scalar s \<Longrightarrow> utf8_scan (concat (map utf8_char s)) = Some s"
  by (induction s) (simp_all add: utf8_char_scan del: utf8_char.simps utf8_scan.simps(2))

lemma utf8_bytes: "list_all scalar s \<Longrightarrow> list_all (\<lambda>b. b < 256) (concat (map utf8_char s))"
  by (induction s) (simp_all add: utf8_char_bytes del: utf8_char.simps)

lemma map_unat_of_nat:
  "list_all (\<lambda>b. b < 256) bs \<Longrightarrow> map unat (map of_nat bs :: bytes) = bs"
  by (induction bs) (simp_all add: unat_of_nat)

lemma utf8_decode_encode: "utf8_encode s = Inr bs \<Longrightarrow> utf8_decode bs = Inr s"
  by (auto simp: utf8_encode_def utf8_decode_def map_unat_of_nat utf8_bytes utf8_scan_encode
      simp del: map_map split: if_splits)

lemma utf8_encode_ascii: "ascii s \<Longrightarrow> utf8_encode s = Inr (map of_nat s)"
proof -
  assume a: "ascii s"
  then have "list_all scalar s" by (auto simp: ascii_def list_all_iff scalar_def)
  moreover have "concat (map utf8_char s) = s" using a by (induction s) auto
  ultimately show ?thesis by (simp add: utf8_encode_def)
qed

end
