(* ===== verification/Json_Roundtrip.thy ===== *)
theory Json_Roundtrip
  imports Json_Parse
begin

text \<open>
  \<^verbatim>\<open>json.loads\<close> reads back what \<^verbatim>\<open>json.dumps\<close> writes. Each lemma parses a text followed by an
  arbitrary rest, so that the pieces compose.
\<close>

section \<open>Strings\<close>

text \<open>
  A string that survives: code points, and no high surrogate directly before a low one, which the
  scanner joins.
\<close>

fun unpaired :: "pystr \<Rightarrow> bool" where
  "unpaired [] = True"
| "unpaired (c # s) \<longleftrightarrow>
     c < 1114112 \<and> (high_surrogate c \<longrightarrow> s = [] \<or> \<not> low_surrogate (hd s)) \<and> unpaired s"

lemma hex_value_digit [simp]: "n < 16 \<Longrightarrow> hex_value (hex_digit n) = Some n"
  by (auto simp: hex_value_def hex_digit_def)

lemma hex_digits_value:
  "n < 65536 \<Longrightarrow>
   ((n div 4096 mod 16 * 16 + n div 256 mod 16) * 16 + n div 16 mod 16) * 16 + n mod 16 = (n::nat)"
proof -
  assume "n < 65536"
  then have "n div 4096 mod 16 = n div 16 div 16 div 16"
    by (simp flip: div_mult2_eq add: less_mult_imp_div_less)
  moreover have "n div 256 = n div 16 div 16" by (simp flip: div_mult2_eq)
  ultimately show ?thesis by (simp only: div_mult_mod_eq)
qed

lemma scan_hex4_text [simp]: "n < 65536 \<Longrightarrow> scan_hex4 (hex4 n @ r) = Some (n, r)"
  using hex_digits_value [of n] by (simp add: hex4_def)

lemma surrogate_halves:
  fixes c :: nat
  assumes "65536 \<le> c" and "c < 1114112"
  shows "55296 + (c - 65536) div 1024 mod 1024 \<le> 56319"
    and "56320 + (c - 65536) mod 1024 \<le> 57343"
    and "65536 + (55296 + (c - 65536) div 1024 mod 1024 - 55296) * 1024 +
      (56320 + (c - 65536) mod 1024 - 56320) = c"
proof -
  let ?d = "c - 65536"
  have "?d div 1024 mod 1024 < 1024" and "?d mod 1024 < 1024" by simp_all
  then show "55296 + ?d div 1024 mod 1024 \<le> 56319" and "56320 + ?d mod 1024 \<le> 57343"
    by linarith+
  have "?d div 1024 < 1024" using assms by (intro less_mult_imp_div_less) simp
  then have "?d div 1024 mod 1024 = ?d div 1024" by simp
  moreover have "?d div 1024 * 1024 + ?d mod 1024 = ?d" by (rule div_mult_mod_eq)
  ultimately show "65536 + (55296 + ?d div 1024 mod 1024 - 55296) * 1024 +
      (56320 + ?d mod 1024 - 56320) = c" using assms by simp
qed

lemma scan_low_other [simp]: "c \<noteq> 92 \<Longrightarrow> scan_low (c # r) = None"
  by (cases r) simp_all

lemma scan_low_escape:
  "c < 1114112 \<Longrightarrow> \<not> low_surrogate c \<Longrightarrow> scan_low (escape_char c @ r) = None"
  using surrogate_halves(1) [of c]
  by (auto simp: escape_char_def unicode_escape_def low_surrogate_def)

lemma scan_escape_unicode:
  "c < 65536 \<Longrightarrow> (high_surrogate c \<Longrightarrow> scan_low r = None) \<Longrightarrow>
   scan_escape (117 # hex4 c @ r) = Some (c, r)"
  by (simp add: scan_unicode_def)

lemma scan_escape_pair:
  assumes "65536 \<le> c" and "c < 1114112"
  shows "scan_escape (117 # hex4 (55296 + (c - 65536) div 1024 mod 1024) @
           92 # 117 # hex4 (56320 + (c - 65536) mod 1024) @ r) = Some (c, r)"
  using surrogate_halves [OF assms]
  by (simp add: scan_unicode_def high_surrogate_def low_surrogate_def)

text \<open>One escaped character in front of a string whose scan is known.\<close>

lemma scan_string_char:
  assumes "c < 1114112" and "high_surrogate c \<Longrightarrow> scan_low r = None"
  shows "scan_string (escape_char c @ r) = map_sum (\<lambda>e. e) (apfst (Cons c)) (scan_string r)"
proof -
  consider (short) "c \<in> {34, 92, 10, 13, 9, 12, 8}"
    | (plain) "32 \<le> c" "c \<le> 126" "c \<noteq> 34" "c \<noteq> 92"
    | (basic) "c < 65536" "escape_char c = 92 # 117 # hex4 c"
    | (pair) "65536 \<le> c" "escape_char c =
        92 # 117 # hex4 (55296 + (c - 65536) div 1024 mod 1024) @
        92 # 117 # hex4 (56320 + (c - 65536) mod 1024)"
    by (cases "c < 65536"; cases "c \<in> {34, 92, 10, 13, 9, 12, 8}"; cases "32 \<le> c \<and> c \<le> 126")
      (auto simp: escape_char_def unicode_escape_def not_less)
  then show ?thesis
  proof cases
    case short
    then show ?thesis by (auto simp: escape_char_def escaped_def)
  next
    case plain
    then show ?thesis by (simp add: escape_char_def)
  next
    case basic
    then show ?thesis using scan_escape_unicode [of c r] assms(2)
      by (simp del: scan_escape.simps(2))
  next
    case pair
    then show ?thesis using scan_escape_pair [of c r] assms(1)
      by (simp del: scan_escape.simps(2))
  qed
qed

lemma scan_string_text:
  "unpaired s \<Longrightarrow> scan_string (concat (map escape_char s) @ 34 # rest) = Inr (s, rest)"
proof (induction s)
  case (Cons c s)
  have "scan_low (concat (map escape_char s) @ 34 # rest) = None" if "high_surrogate c"
  proof (cases s)
    case (Cons d t)
    with Cons.prems that show ?thesis by (simp add: scan_low_escape)
  qed (cases rest; simp)
  with Cons show ?case by (simp add: scan_string_char)
qed simp

section \<open>Numbers\<close>

text \<open>What may follow a value: nothing, a separator, a closing bracket or white space.\<close>

definition ends_value :: "pystr \<Rightarrow> bool" where
  "ends_value r \<longleftrightarrow> r = [] \<or> hd r = 44 \<or> hd r = 93 \<or> hd r = 125 \<or> is_ws (hd r)"

lemma span_digits_append [simp]:
  "list_all is_digit ds \<Longrightarrow> \<not> starts_digit r \<Longrightarrow> span_digits (ds @ r) = (ds, r)"
  by (induction ds) (auto simp: span_digits_def starts_digit_def split: list.splits)

lemma ends_value_facts:
  assumes "ends_value r"
  shows "\<not> starts_digit r" "scan_fraction r = ([], r)" "scan_exponent r = ([], r)"
  using assms
  by (auto simp: ends_value_def starts_digit_def scan_fraction_def scan_exponent_def is_digit_def
      is_ws_def split: list.splits)

text \<open>The shape of a numeral: whole part, fraction and exponent, one of the last two present.\<close>

definition whole_part :: "pystr \<Rightarrow> bool" where
  "whole_part ds \<longleftrightarrow> ds = [48] \<or> (ds \<noteq> [] \<and> hd ds \<noteq> 48 \<and> list_all is_digit ds)"

definition fraction_part :: "pystr \<Rightarrow> bool" where
  "fraction_part f \<longleftrightarrow> f = [] \<or> (\<exists>ds. f = 46 # ds \<and> ds \<noteq> [] \<and> list_all is_digit ds)"

definition exponent_part :: "pystr \<Rightarrow> bool" where
  "exponent_part x \<longleftrightarrow>
     x = [] \<or> (\<exists>sg ds. x = 101 # sg @ ds \<and> sg \<in> {[], [43], [45]} \<and> ds \<noteq> [] \<and> list_all is_digit ds)"

definition float_lexeme :: "pystr \<Rightarrow> bool" where
  "float_lexeme s \<longleftrightarrow>
     (\<exists>sg w f x. s = sg @ w @ f @ x \<and> sg \<in> {[], [45]} \<and> whole_part w \<and> fraction_part f \<and>
        exponent_part x \<and> (f \<noteq> [] \<or> x \<noteq> []))"

lemma scan_integer_whole:
  "whole_part w \<Longrightarrow> \<not> starts_digit r \<Longrightarrow> scan_integer (w @ r) = Some (w, r)"
proof (cases w)
  case (Cons c t)
  assume "whole_part w" "\<not> starts_digit r"
  then show ?thesis
    using Cons span_digits_append [of w r] by (auto simp: whole_part_def scan_integer_def)
qed (simp add: whole_part_def)

lemma starts_digit_append: "ds \<noteq> [] \<Longrightarrow> list_all is_digit ds \<Longrightarrow> starts_digit (ds @ r)"
  by (cases ds) (auto simp: starts_digit_def)

lemma scan_fraction_part:
  assumes "fraction_part f" and "\<not> starts_digit r" and "f = [] \<Longrightarrow> scan_fraction r = ([], r)"
  shows "scan_fraction (f @ r) = (f, r)"
proof (cases "f = []")
  case False
  with assms show ?thesis by (auto simp: fraction_part_def scan_fraction_def starts_digit_append)
qed (use assms(3) in simp)

lemma scan_exponent_part:
  assumes "exponent_part x" and "ends_value r"
  shows "scan_exponent (x @ r) = (x, r)"
proof (cases "x = []")
  case False
  then obtain sg ds where x: "x = 101 # sg @ ds" "sg \<in> {[], [43], [45]}" "ds \<noteq> []"
      "list_all is_digit ds"
    using assms(1) by (auto simp: exponent_part_def)
  moreover obtain d t where d: "ds = d # t" using x by (cases ds) auto
  ultimately have "is_digit d" by simp
  then have "d \<noteq> 43" "d \<noteq> 45" by (auto simp: is_digit_def)
  then show ?thesis
    using x d ends_value_facts(1) [OF assms(2)] span_digits_append [of ds r] starts_digit_append [of ds r]
    by (auto simp: scan_exponent_def)
qed (simp add: ends_value_facts [OF assms(2)])

lemma part_heads:
  assumes "fraction_part f" and "exponent_part x" and "ends_value r"
  shows "\<not> starts_digit (f @ x @ r)" and "\<not> starts_digit (x @ r)"
    and "scan_fraction (x @ r) = ([], x @ r)"
proof -
  show x: "\<not> starts_digit (x @ r)"
    using assms(2) ends_value_facts [OF assms(3)]
    by (cases "x = []") (auto simp: exponent_part_def starts_digit_def is_digit_def)
  show "scan_fraction (x @ r) = ([], x @ r)"
    using assms(2) ends_value_facts [OF assms(3)]
    by (cases "x = []") (auto simp: exponent_part_def scan_fraction_def)
  show "\<not> starts_digit (f @ x @ r)"
    using assms(1) x by (cases "f = []") (auto simp: fraction_part_def starts_digit_def is_digit_def)
qed

lemma scan_number_signed:
  assumes "sg \<in> {[], [45]}" and "whole_part w" and "fraction_part f" and "exponent_part x"
    and "ends_value r"
  shows "scan_number P (sg @ w @ f @ x @ r) =
    (if f \<noteq> [] \<or> x \<noteq> [] then Inr (JFloat (P (sg @ w @ f @ x)), r)
     else if 4300 < length w then Inl (ValueError (lit ''Exceeds the limit for integer string conversion''))
     else Inr (JInt (if sg = [45] then - int (digits_value w) else int (digits_value w)), r))"
proof -
  have w: "w \<noteq> []" "hd w \<noteq> 45"
    using assms(2) by (cases w; auto simp: whole_part_def is_digit_def)+
  note heads = part_heads [OF assms(3-5)]
  have parts: "scan_integer (w @ f @ x @ r) = Some (w, f @ x @ r)"
    "scan_fraction (f @ x @ r) = (f, x @ r)" "scan_exponent (x @ r) = (x, r)"
    using scan_integer_whole [OF assms(2) heads(1)] scan_fraction_part [OF assms(3) heads(2)]
      heads(3) scan_exponent_part [OF assms(4,5)] by auto
  show ?thesis
  proof (cases "sg = []")
    case True
    then have "take 1 (w @ f @ x @ r) \<noteq> [45]" using w by (cases w) auto
    with True parts show ?thesis by (simp add: scan_number_def)
  next
    case False
    then have "sg = [45]" using assms(1) by simp
    with parts show ?thesis by (simp add: scan_number_def)
  qed
qed

lemma digits_value_snoc [simp]: "digits_value (ds @ [48 + d]) = 10 * digits_value ds + d"
  by (simp add: digits_value_def)

lemma digits_value_digits [simp]: "digits_value (digits n) = n"
proof (induction n rule: digits.induct)
  case (1 n)
  then show ?case by (subst digits.simps) (auto simp: digits_value_def)
qed

lemma digits_digits: "list_all is_digit (digits n) \<and> digits n \<noteq> []"
proof (induction n rule: digits.induct)
  case (1 n)
  have "n mod 10 < 10" by simp
  then have "is_digit (48 + n mod 10)" by (simp add: is_digit_def)
  with 1 show ?case by (simp add: digits.simps [of n]) (simp add: is_digit_def)
qed

lemma digits_head: "0 < n \<Longrightarrow> hd (digits n) \<noteq> 48"
proof (induction n rule: digits.induct)
  case (1 n)
  show ?case
  proof (cases "n < 10")
    case False
    with 1 digits_digits [of "n div 10"] show ?thesis by (subst digits.simps) simp
  qed (use 1 in \<open>subst digits.simps, simp\<close>)
qed

lemma whole_part_digits: "whole_part (digits n)"
proof (cases "n = 0")
  case True
  then show ?thesis by (subst digits.simps) (simp add: whole_part_def)
next
  case False
  then show ?thesis using digits_head [of n] digits_digits [of n] by (simp add: whole_part_def)
qed

lemma scan_int_text:
  assumes "length (digits (nat \<bar>i\<bar>)) \<le> 4300" and "ends_value r"
  shows "scan_number P (int_text i @ r) = Inr (JInt i, r)"
proof (cases "i < 0")
  case True
  with assms scan_number_signed [of "[45]" "digits (nat (- i))" "[]" "[]" r P] whole_part_digits
  show ?thesis by (simp add: int_text_def fraction_part_def exponent_part_def)
next
  case False
  with assms scan_number_signed [of "[]" "digits (nat i)" "[]" "[]" r P] whole_part_digits
  show ?thesis by (simp add: int_text_def fraction_part_def exponent_part_def)
qed

lemma scan_float_text:
  assumes "float_lexeme s" and "ends_value r"
  shows "scan_number P (s @ r) = Inr (JFloat (P s), r)"
proof -
  obtain sg w f x where s: "s = sg @ w @ f @ x" "sg \<in> {[], [45]}" "whole_part w"
      "fraction_part f" "exponent_part x" "f \<noteq> [] \<or> x \<noteq> []"
    using assms(1) by (auto simp: float_lexeme_def)
  with scan_number_signed [of sg w f x r P] assms(2) show ?thesis by simp
qed

section \<open>Values\<close>

text \<open>
  The values that survive: integers within the limit, doubles that \<open>F\<close> and \<open>P\<close> carry (or one of the
  three constants), strings without split pairs, and dictionaries, whose keys are distinct.
\<close>

fun storable :: "(64 word \<Rightarrow> pystr) \<Rightarrow> (pystr \<Rightarrow> 64 word) \<Rightarrow> json \<Rightarrow> bool" where
  "storable F P (JInt i) \<longleftrightarrow> length (digits (nat \<bar>i\<bar>)) \<le> 4300"
| "storable F P (JFloat w) \<longleftrightarrow>
     (if finite_bits w then float_lexeme (F w) \<and> P (F w) = w
      else w \<in> {infinity_bits, minus_infinity_bits, nan_bits})"
| "storable F P (JStr s) \<longleftrightarrow> unpaired s"
| "storable F P (JArr xs) \<longleftrightarrow> list_all (storable F P) xs"
| "storable F P (JObj kvs) \<longleftrightarrow>
     distinct_keys kvs \<and> list_all (\<lambda>(k, v). unpaired k \<and> storable F P v) kvs"
| "storable F P _ \<longleftrightarrow> True"

text \<open>The first character of a number, and of any value.\<close>

definition number_head :: "pystr \<Rightarrow> bool" where
  "number_head s \<longleftrightarrow>
     (\<exists>c t. s = c # t \<and> is_digit c) \<or> (\<exists>d t. s = 45 # d # t \<and> is_digit d)"

definition value_head :: "pystr \<Rightarrow> bool" where
  "value_head s \<longleftrightarrow> (\<exists>c t. s = c # t \<and> c < 128 \<and> \<not> is_ws c \<and> c \<noteq> 93 \<and> c \<noteq> 125)"

lemma whole_part_head: "whole_part w \<Longrightarrow> \<exists>c t. w = c # t \<and> is_digit c"
  by (cases w) (auto simp: whole_part_def is_digit_def)

lemma number_head_int: "number_head (int_text i @ r)"
proof -
  have "\<exists>c t. digits n = c # t \<and> is_digit c" for n
    using whole_part_head whole_part_digits by blast
  from this [of "nat i"] this [of "nat (- i)"] show ?thesis
    by (cases "i < 0") (auto simp: int_text_def number_head_def)
qed

lemma number_head_float: "float_lexeme s \<Longrightarrow> number_head (s @ r)"
  by (auto simp: number_head_def float_lexeme_def dest!: whole_part_head)

lemma number_is_value: "number_head s \<Longrightarrow> value_head s"
  by (auto simp: number_head_def value_head_def is_digit_def is_ws_def)

lemma scan_value_number: "number_head s \<Longrightarrow> scan_value P s = scan_number P s"
  by (subst scan_value.simps)
    (auto simp: number_head_def is_digit_def scan_constant_def constants_def lit_def)

lemma scan_value_constant:
  "(name, v) \<in> set constants \<Longrightarrow> scan_value P (name @ r) = Inr (v, r)"
  by (subst scan_value.simps) (auto simp: scan_constant_def constants_def lit_def)

lemma scan_value_string:
  "unpaired s \<Longrightarrow> scan_value P (string_text s @ r) = Inr (JStr s, r)"
  by (subst scan_value.simps) (simp add: string_text_def scan_string_text)

lemma skip_ws_head [simp]: "\<not> is_ws c \<Longrightarrow> skip_ws (c # s) = c # s"
  by (simp add: skip_ws_def)

lemma skip_ws_value: "value_head s \<Longrightarrow> skip_ws s = s"
  by (auto simp: value_head_def)

lemma skip_ws_append: "list_all is_ws w \<Longrightarrow> value_head s \<Longrightarrow> skip_ws (w @ s) = s"
  by (induction w) (auto simp: skip_ws_def value_head_def)

lemma no_ws [simp]: "\<not> is_ws 34" "\<not> is_ws 44" "\<not> is_ws 58" "\<not> is_ws 91" "\<not> is_ws 93"
  "\<not> is_ws 123" "\<not> is_ws 125"
  by (simp_all add: is_ws_def)

lemma closing_ends [simp]: "ends_value (44 # r)" "ends_value (93 # r)" "ends_value (125 # r)"
  "ends_value []"
  by (simp_all add: ends_value_def)

lemma value_head_dumps: "storable F P v \<Longrightarrow> value_head (json_text F isep ksep v @ r)"
proof (cases v)
  case (JInt i)
  then show ?thesis by (simp add: number_is_value number_head_int)
next
  case (JFloat w)
  moreover assume "storable F P v"
  ultimately show ?thesis
    using number_is_value [OF number_head_float, of "F w" r]
    by (auto simp: float_text_def value_head_def lit_def is_ws_def)
qed (auto simp: value_head_def lit_def is_ws_def string_text_def)

text \<open>Lists of texts, each of which scans.\<close>

definition scans :: "(pystr \<Rightarrow> 64 word) \<Rightarrow> pystr \<Rightarrow> json \<Rightarrow> bool" where
  "scans P s v \<longleftrightarrow>
     (\<forall>r. ends_value r \<longrightarrow> scan_value P (s @ r) = Inr (v, r)) \<and> (\<forall>r. value_head (s @ r))"

lemma scansD: "scans P s v \<Longrightarrow> ends_value r \<Longrightarrow> scan_value P (s @ r) = Inr (v, r)"
  by (simp add: scans_def)

lemma scans_head: "scans P s v \<Longrightarrow> value_head (s @ r)"
  by (simp add: scans_def)

lemma separated_Cons:
  "xs \<noteq> [] \<Longrightarrow> separated sep (x # xs) = x @ sep @ separated sep xs"
  by (cases xs) simp_all

lemma separated_head:
  "xs \<noteq> [] \<Longrightarrow> (\<And>x r. x \<in> set xs \<Longrightarrow> value_head (x @ r)) \<Longrightarrow> value_head (separated sep xs @ r)"
  by (induction sep xs rule: separated.induct) auto

lemma scan_elems_text:
  assumes w: "list_all is_ws w" and "xs \<noteq> []" and "\<And>x. x \<in> set xs \<Longrightarrow> scans P (D x) x"
  shows "scan_elems P (separated (44 # w) (map D xs) @ 93 # r) = Inr (xs, r)"
  using assms(2,3)
proof (induction xs)
  case (Cons x xs)
  then have x: "scans P (D x) x" by simp
  show ?case
  proof (cases "xs = []")
    case True
    with scansD [OF x, of "93 # r"] show ?thesis by (subst scan_elems_unguarded) simp
  next
    case False
    have "value_head (separated (44 # w) (map D xs) @ 93 # r)"
      by (rule separated_head) (use False Cons.prems in \<open>auto intro: scans_head\<close>)
    with w have "skip_ws (w @ separated (44 # w) (map D xs) @ 93 # r) =
        separated (44 # w) (map D xs) @ 93 # r" by (rule skip_ws_append)
    with False Cons scansD [OF x, of "44 # w @ separated (44 # w) (map D xs) @ 93 # r"]
    show ?thesis by (subst scan_elems_unguarded) (simp add: separated_Cons)
  qed
qed simp

lemma scan_members_text:
  assumes w: "list_all is_ws w" "list_all is_ws w'" and "kvs \<noteq> []"
    and "\<And>k v. (k, v) \<in> set kvs \<Longrightarrow> unpaired k \<and> scans P (D v) v"
  shows "scan_members P
    (separated (44 # w) (map (\<lambda>(k, v). string_text k @ (58 # w') @ D v) kvs) @ 125 # r) =
    Inr (kvs, r)"
  using assms(3,4)
proof (induction kvs)
  case (Cons kv kvs)
  obtain k v where kv: "kv = (k, v)" by fastforce
  with Cons.prems have k: "unpaired k" and v: "scans P (D v) v" by auto
  let ?M = "\<lambda>(k, v). string_text k @ (58 # w') @ D v"
  have val: "skip_ws (w' @ D v @ t) = D v @ t" for t
    by (rule skip_ws_append [OF w(2) scans_head [OF v]])
  have key: "scan_string (concat (map escape_char k) @ 34 # t) = Inr (k, t)" for t
    using k by (rule scan_string_text)
  show ?case
  proof (cases "kvs = []")
    case True
    with scansD [OF v, of "125 # r"] kv key val show ?thesis
      by (subst scan_members_unguarded) (simp add: string_text_def)
  next
    case False
    have "value_head (separated (44 # w) (map ?M kvs) @ 125 # r)"
      by (rule separated_head) (use False in \<open>auto simp: string_text_def value_head_def\<close>)
    with w(1) have "skip_ws (w @ separated (44 # w) (map ?M kvs) @ 125 # r) =
        separated (44 # w) (map ?M kvs) @ 125 # r" by (rule skip_ws_append)
    moreover have "scan_members P (separated (44 # w) (map ?M kvs) @ 125 # r) = Inr (kvs, r)"
      by (rule Cons.IH [OF False]) (use Cons.prems in auto)
    ultimately
    show ?thesis
      using False kv key val scansD [OF v, of "44 # w @ separated (44 # w) (map ?M kvs) @ 125 # r"]
      by (subst scan_members_unguarded) (simp add: separated_Cons string_text_def)
  qed
qed simp

lemma fold_update_distinct:
  "distinct_keys (d @ kvs) \<Longrightarrow> fold (\<lambda>(k, v) d. AList.update k v d) kvs d = d @ kvs"
proof (induction kvs arbitrary: d)
  case (Cons kv kvs)
  obtain k v where kv: "kv = (k, v)" by fastforce
  have "k \<notin> fst ` set d \<Longrightarrow> AList.update k v d = d @ [(k, v)]"
    by (induction d) auto
  with Cons kv show ?case by simp
qed simp

lemma dict_of_distinct: "distinct_keys kvs \<Longrightarrow> dict_of kvs = JObj kvs"
  by (simp add: dict_of_def fold_update_distinct)

lemma take_value_head: "value_head s \<Longrightarrow> take 1 s \<noteq> [93] \<and> take 1 s \<noteq> [125]"
  by (auto simp: value_head_def)

lemma scans_array:
  assumes "list_all is_ws w" and "\<And>x. x \<in> set xs \<Longrightarrow> scans P (D x) x"
  shows "scans P (91 # separated (44 # w) (map D xs) @ [93]) (JArr xs)"
proof (cases "xs = []")
  case False
  have "value_head (separated (44 # w) (map D xs) @ 93 # r)" for r
    by (rule separated_head) (use False assms(2) in \<open>auto intro: scans_head\<close>)
  note head = skip_ws_value [OF this] take_value_head [OF this]
  show ?thesis
    unfolding scans_def scan_value.simps [of P "(91 # _) @ _"]
    using scan_elems_text [OF assms(1) False assms(2)] head by (simp add: value_head_def)
qed (simp add: scans_def value_head_def scan_value.simps [of P "91 # _"])

lemma scans_object:
  assumes "list_all is_ws w" "list_all is_ws w'" and "distinct_keys kvs"
    and "\<And>k v. (k, v) \<in> set kvs \<Longrightarrow> unpaired k \<and> scans P (D v) v"
  shows "scans P (123 # separated (44 # w) (map (\<lambda>(k, v). string_text k @ (58 # w') @ D v) kvs) @ [125])
    (JObj kvs)"
proof (cases "kvs = []")
  case False
  let ?M = "\<lambda>(k, v). string_text k @ (58 # w') @ D v"
  have "value_head (separated (44 # w) (map ?M kvs) @ 125 # r)" for r
    by (rule separated_head) (use False in \<open>auto simp: string_text_def value_head_def\<close>)
  note head = skip_ws_value [OF this] take_value_head [OF this]
  show ?thesis
    unfolding scans_def scan_value.simps [of P "(123 # _) @ _"]
    using scan_members_text [OF assms(1,2) False assms(4)] head assms(3)
    by (simp add: value_head_def dict_of_distinct)
qed (simp add: scans_def value_head_def scan_value.simps [of P "123 # _"])

lemma scans_float:
  assumes "storable F P (JFloat x)"
  shows "scans P (float_text F x) (JFloat x)"
proof (cases "finite_bits x")
  case True
  with assms show ?thesis
    using number_head_float [of "F x"] scan_float_text [of "F x"]
    by (auto simp: scans_def float_text_def scan_value_number number_is_value)
next
  case False
  with assms have "(float_text F x, JFloat x) \<in> set constants"
    by (auto simp: float_text_def constants_def infinity_bits_def minus_infinity_bits_def nan_bits_def)
  moreover have "value_head (float_text F x @ r)" for r
    using False by (auto simp: float_text_def value_head_def lit_def is_ws_def)
  ultimately show ?thesis by (simp add: scans_def scan_value_constant)
qed

lemma scans_dumps:
  assumes "list_all is_ws w" and "list_all is_ws w'"
  shows "storable F P v \<Longrightarrow> scans P (json_text F (44 # w) (58 # w') v) v"
proof (induction v)
  case JNull
  show ?case using scan_value_constant [of "lit ''null''" JNull P]
    by (simp add: scans_def constants_def value_head_def lit_def is_ws_def)
next
  case (JBool b)
  show ?case
    using scan_value_constant [of "lit ''true''" "JBool True" P]
      scan_value_constant [of "lit ''false''" "JBool False" P]
    by (simp add: scans_def constants_def value_head_def lit_def is_ws_def)
next
  case (JInt i)
  then show ?case
    by (simp add: scans_def scan_value_number number_head_int number_is_value scan_int_text)
next
  case (JFloat x)
  then show ?case using scans_float by simp
next
  case (JStr s)
  then show ?case by (simp add: scans_def scan_value_string) (simp add: string_text_def value_head_def)
next
  case (JArr xs)
  then show ?case using assms(1) by (auto simp: list_all_iff intro!: scans_array)
next
  case (JObj kvs)
  then have "unpaired k \<and> scans P (json_text F (44 # w) (58 # w') v) v" if "(k, v) \<in> set kvs" for k v
    using that by (fastforce simp: list_all_iff)
  with JObj.prems show ?case
    using scans_object [OF assms, of kvs P "json_text F (44 # w) (58 # w')"] by simp
qed

theorem loads_dumps:
  assumes "list_all is_ws w" and "list_all is_ws w'" and "storable F P v"
  shows "loads P (json_text F (44 # w) (58 # w') v) = Inr v"
proof -
  have s: "scans P (json_text F (44 # w) (58 # w') v) v" using assms by (rule scans_dumps)
  from scans_head [OF s, of "[]"] have h: "value_head (json_text F (44 # w) (58 # w') v)" by simp
  then have "take 1 (json_text F (44 # w) (58 # w') v) \<noteq> [65279]"
    by (auto simp: value_head_def)
  then show ?thesis using scansD [OF s, of "[]"] skip_ws_value [OF h] by (simp add: loads_def skip_ws_def)
qed

lemma storable_printable: "storable F P v \<Longrightarrow> printable v"
  by (induction v) (fastforce simp: list_all_iff)+

lemma ascii_digit_list: "list_all is_digit ds \<Longrightarrow> ascii ds"
  by (auto simp: ascii_def list_all_iff is_digit_def)

lemma ascii_float_lexeme: "float_lexeme s \<Longrightarrow> ascii s"
  by (auto simp: float_lexeme_def whole_part_def fraction_part_def exponent_part_def ascii_digit_list)

lemma storable_ascii:
  assumes "ascii isep" and "ascii ksep"
  shows "storable F P v \<Longrightarrow> ascii (json_text F isep ksep v)"
proof (induction v)
  case (JFloat x)
  then show ?case by (auto simp: float_text_def ascii_float_lexeme lit_def)
next
  case (JArr xs)
  with assms show ?case by (auto simp: list_all_iff intro!: ascii_separated)
next
  case (JObj kvs)
  then have "ascii (json_text F isep ksep v)" if "(k, v) \<in> set kvs" for k v
    using that by (fastforce simp: list_all_iff)
  with assms show ?case by (auto simp: list_all_iff intro!: ascii_separated)
qed (simp_all add: lit_def)

text \<open>The two pairs of separators the library uses: the default and the compact one.\<close>

lemma loads_json_text:
  assumes "storable F P v"
  shows "loads P (json_text F (lit '', '') (lit '': '') v) = Inr v"
    and "loads P (json_text F (lit '','') (lit '':'') v) = Inr v"
  using loads_dumps [of "[32]" "[32]" F P v] loads_dumps [of "[]" "[]" F P v] assms
  by (simp_all add: lit_def is_ws_def)

end
