(* ===== verification/Datatype_Transformer.thy ===== *)
theory Datatype_Transformer
  imports Byte_Codecs Json_Roundtrip
begin

text \<open>
  \<^verbatim>\<open>utils/datatype_transformer.py\<close>: the wire format of arguments and results. A value is a
  plain Python value, a pandas data frame or an Arrow table; the last two are opaque, and the
  Parquet functions on them, which belong to \<^verbatim>\<open>pyarrow\<close>, are parameters (\<open>libraries\<close>), as
  are the conversions between doubles and their digits and the byte order of the machine.
\<close>

section \<open>Types\<close>

text \<open>The generated enumeration is open: an unknown number arrives as itself.\<close>

datatype variant_type = VT_NONE | VT_DOUBLE | VT_INT | VT_STRING | VT_PARQUET | VT_ARROW | VT_JSON | Unrecognized int

datatype ('f, 't) pydata = Plain json | Frame 'f | Table 't

record ('f, 't) libraries =
  from_pandas :: "'f \<Rightarrow> 't result"
  write_table :: "('f, 't) pydata \<Rightarrow> bytes result"
  read_table :: "bytes \<Rightarrow> 't result"
  to_pandas :: "'t \<Rightarrow> 'f result"
  float_repr :: "64 word \<Rightarrow> pystr"
  parse_float :: "pystr \<Rightarrow> 64 word"
  little_endian :: bool

section \<open>Encoding\<close>

text \<open>
  The argument conversions of \<^verbatim>\<open>struct.pack\<close> and \<^verbatim>\<open>to_bytes\<close>: \<^verbatim>\<open>bool\<close> is a subclass of
  \<^verbatim>\<open>int\<close>, and the first also accepts every integer that fits a double.
\<close>

fun as_float :: "('f, 't) pydata \<Rightarrow> 64 word result" where
  "as_float (Plain (JFloat w)) = Inr w"
| "as_float (Plain (JInt i)) =
     (case int_to_double i of None \<Rightarrow> Inl StructError | Some w \<Rightarrow> Inr w)"
| "as_float (Plain (JBool b)) =
     (case int_to_double (of_bool b) of None \<Rightarrow> Inl StructError | Some w \<Rightarrow> Inr w)"
| "as_float _ = Inl StructError"

fun as_int :: "('f, 't) pydata \<Rightarrow> int result" where
  "as_int (Plain (JInt i)) = Inr i"
| "as_int (Plain (JBool b)) = Inr (of_bool b)"
| "as_int _ = Inl AttributeError"

fun as_str :: "('f, 't) pydata \<Rightarrow> pystr result" where
  "as_str (Plain (JStr s)) = Inr s"
| "as_str _ = Inl AttributeError"

fun as_table :: "('f, 't) libraries \<Rightarrow> ('f, 't) pydata \<Rightarrow> ('f, 't) pydata result" where
  "as_table L (Frame f) = map_sum (\<lambda>e. e) Table (from_pandas L f)"
| "as_table L v = Inr v"

fun dumps_data :: "('f, 't) libraries \<Rightarrow> ('f, 't) pydata \<Rightarrow> pystr result" where
  "dumps_data L (Plain v) = json_dumps (float_repr L) (lit '', '') (lit '': '') v"
| "dumps_data L _ = Inl TypeError"

fun encode_data :: "('f, 't) libraries \<Rightarrow> variant_type \<Rightarrow> ('f, 't) pydata \<Rightarrow> bytes result" where
  "encode_data L VT_NONE v = Inr []"
| "encode_data L VT_DOUBLE v =
     bind_result (as_float v) (\<lambda>w. Inr (pack_double (little_endian L) w))"
| "encode_data L VT_INT v = bind_result (as_int v) (int_to_bytes 8)"
| "encode_data L VT_STRING v = bind_result (as_str v) utf8_encode"
| "encode_data L VT_PARQUET v = bind_result (as_table L v) (write_table L)"
| "encode_data L VT_JSON v =
     (case bind_result (dumps_data L v) utf8_encode of
        Inl e \<Rightarrow> Inl (if e = TypeError
                     then ValueError (lit ''Data cannot be serialized to JSON'') else e)
      | Inr bs \<Rightarrow> Inr bs)"
| "encode_data L _ v = Inl (ValueError (lit ''Unsupported data type''))"

section \<open>Decoding\<close>

fun decode_data :: "('f, 't) libraries \<Rightarrow> bytes \<Rightarrow> variant_type \<Rightarrow> ('f, 't) pydata result" where
  "decode_data L bs VT_NONE = Inr (Plain JNull)"
| "decode_data L bs VT_DOUBLE =
     bind_result (unpack_double (little_endian L) bs) (\<lambda>w. Inr (Plain (JFloat w)))"
| "decode_data L bs VT_INT = Inr (Plain (JInt (int_from_bytes bs)))"
| "decode_data L bs VT_STRING = bind_result (utf8_decode bs) (\<lambda>s. Inr (Plain (JStr s)))"
| "decode_data L bs VT_PARQUET =
     bind_result (read_table L bs) (\<lambda>t. bind_result (to_pandas L t) (\<lambda>f. Inr (Frame f)))"
| "decode_data L bs VT_JSON =
     (case bind_result (utf8_decode bs) (loads (parse_float L)) of
        Inl e \<Rightarrow> Inl (if e = JSONDecodeError
                     then ValueError (lit ''Failed to decode JSON data'') else e)
      | Inr v \<Rightarrow> Inr (Plain v))"
| "decode_data L bs _ = Inl (ValueError (lit ''Unsupported data type''))"

section \<open>Detection\<close>

fun detect_data_type :: "('f, 't) pydata \<Rightarrow> variant_type result" where
  "detect_data_type (Plain JNull) = Inr VT_NONE"
| "detect_data_type (Plain (JFloat _)) = Inr VT_DOUBLE"
| "detect_data_type (Plain (JInt _)) = Inr VT_INT"
| "detect_data_type (Plain (JBool _)) = Inr VT_INT"
| "detect_data_type (Plain (JStr _)) = Inr VT_STRING"
| "detect_data_type (Frame _) = Inr VT_PARQUET"
| "detect_data_type (Plain (JObj _)) = Inr VT_JSON"
| "detect_data_type (Plain (JArr _)) = Inr VT_JSON"
| "detect_data_type (Table _) = Inl (ValueError (lit ''Unsupported data type''))"

text \<open>What the other side of the wire reads back from a value sent with its detected type.\<close>

definition transport :: "('f, 't) libraries \<Rightarrow> ('f, 't) pydata \<Rightarrow> ('f, 't) pydata result" where
  "transport L v =
     bind_result (detect_data_type v) (\<lambda>t.
       bind_result (encode_data L t v) (\<lambda>bs. decode_data L bs t))"

section \<open>The codec contract\<close>

locale codec =
  fixes enc :: "'v \<Rightarrow> bytes result"
    and dec :: "bytes \<Rightarrow> 'v result"
    and carries :: "'v \<Rightarrow> bool"
  assumes enc_total: "carries v \<Longrightarrow> \<exists>bs. enc v = Inr bs"
    and dec_enc: "carries v \<Longrightarrow> enc v = Inr bs \<Longrightarrow> dec bs = Inr v"
begin

lemma through: "carries v \<Longrightarrow> bind_result (enc v) dec = Inr v"
  using enc_total [of v] dec_enc [of v] by auto

lemma enc_injective: "carries v \<Longrightarrow> carries v' \<Longrightarrow> enc v = enc v' \<Longrightarrow> v = v'"
  using enc_total [of v] dec_enc [of v] dec_enc [of v'] by auto

end

text \<open>
  The values each type carries without loss: for \<^verbatim>\<open>PARQUET\<close> that is what the library gives
  back.
\<close>

fun carries :: "('f, 't) libraries \<Rightarrow> variant_type \<Rightarrow> ('f, 't) pydata \<Rightarrow> bool" where
  "carries L VT_NONE (Plain JNull) = True"
| "carries L VT_DOUBLE (Plain (JFloat _)) = True"
| "carries L VT_INT (Plain (JInt i)) = (- (2 ^ 63) \<le> i \<and> i < 2 ^ 63)"
| "carries L VT_STRING (Plain (JStr s)) = list_all scalar s"
| "carries L VT_JSON (Plain v) =
     storable (float_repr L) (parse_float L) v"
| "carries L VT_PARQUET (Frame f) =
     (bind_result (from_pandas L f) (\<lambda>t. bind_result (write_table L (Table t)) (\<lambda>bs.
        bind_result (read_table L bs) (to_pandas L))) = Inr f)"
| "carries L _ _ = False"

lemma encode_json:
  assumes "storable (float_repr L) (parse_float L) v"
  shows "\<exists>bs. encode_data L VT_JSON (Plain v) = Inr bs \<and> decode_data L bs VT_JSON = Inr (Plain v)"
proof -
  let ?s = "json_text (float_repr L) (lit '', '') (lit '': '') v"
  have "ascii ?s" using assms by (intro storable_ascii) (simp_all add: lit_def)
  then obtain bs where bs: "utf8_encode ?s = Inr bs" using utf8_encode_ascii by blast
  with utf8_decode_encode [OF bs] loads_json_text(1) [OF assms] storable_printable [OF assms]
  show ?thesis by (simp add: json_dumps_def)
qed

interpretation wire: codec "encode_data L t" "\<lambda>bs. decode_data L bs t" "carries L t" for L t
proof
  show "\<exists>bs. encode_data L t v = Inr bs" if "carries L t v" for v
    using that
    by (cases "(L, t, v)" rule: carries.cases)
       (auto simp: int_to_bytes_def utf8_encode_def bind_result_Inr dest: encode_json
         split: sum.splits)
  show "decode_data L bs t = Inr v" if "carries L t v" and "encode_data L t v = Inr bs" for v bs
    using that
    by (cases "(L, t, v)" rule: carries.cases)
       (auto simp: unpack_pack_double bind_result_Inr dest: int_from_to_bytes utf8_decode_encode
         encode_json split: sum.splits)
qed

end
