(* ===== verification/Dynamic_Subclass_Runner.thy ===== *)
theory Dynamic_Subclass_Runner
  imports Model_Runner Datatype_Transformer
begin

text \<open>
  \<^verbatim>\<open>model_runners/dynamic_subclass_model_runner.py\<close>: the runner of a remotely instantiated
  class. The record extends the one of \<^verbatim>\<open>ModelRunner\<close>. The two coroutines \<^verbatim>\<open>setup\<close> and
  \<^verbatim>\<open>call\<close> have one await each, the remote procedure call, and are given by what precedes it and
  by what follows its answer.
\<close>

section \<open>Messages\<close>

record variant =
  v_type :: variant_type
  v_value :: bytes

record argument =
  position :: "32 word"
  arg_data :: variant

record kw_argument =
  keyword :: pystr
  kw_data :: variant

record rpc_status =
  status_code :: pystr
  status_message :: pystr

record setup_request =
  class_name :: pystr
  instance_arguments :: "argument list"
  instance_kw_arguments :: "kw_argument list"

record call_request =
  method_name :: pystr
  method_arguments :: "argument list"
  method_kw_arguments :: "kw_argument list"

record call_response =
  call_status :: rpc_status
  method_response :: variant

section \<open>State\<close>

text \<open>The stub is bound to a channel, which is named by the attempt that opened it.\<close>

record dyn_runner = runner +
  base_classname :: pystr
  instance_args :: "argument list"
  instance_kwargs :: "kw_argument list"
  grpc_stub :: "nat option"

definition new_dyn_runner ::
  "pystr \<Rightarrow> argument list \<Rightarrow> kw_argument list \<Rightarrow>
   secure_credentials option \<Rightarrow> gateway_credentials option \<Rightarrow>
   json \<Rightarrow> json \<Rightarrow> json \<Rightarrow> json \<Rightarrow> json \<Rightarrow> json \<Rightarrow> dyn_runner result" where
  "new_dyn_runner base args kwargs sec gw dep mid name addr prt info =
     map_sum (\<lambda>e. e) (\<lambda>r. runner.extend r (dyn_runner.fields base args kwargs None))
       (new_runner sec gw dep mid name addr prt info)"

section \<open>setup\<close>

definition setup_begin :: "dyn_runner \<Rightarrow> dyn_runner" where
  "setup_begin r = r\<lparr>grpc_stub := grpc_channel r\<rparr>"

definition setup_message :: "dyn_runner \<Rightarrow> setup_request" where
  "setup_message r =
     \<lparr>class_name = base_classname r, instance_arguments = instance_args r,
      instance_kw_arguments = instance_kwargs r\<rparr>"

definition setup_outcome :: "rpc_status result \<Rightarrow> awaited" where
  "setup_outcome response =
     (case response of
        Inl e \<Rightarrow> Got_exn e
      | Inr st \<Rightarrow>
          (if status_code st = lit ''SUCCESS'' then Got_setup True None
           else if status_code st = lit ''INVALID_ARGUMENT''
           then Got_exn (InvalidCoordinatorUsageError (status_message st))
           else if status_code st = lit ''BAD_IMPLEMENTATION''
           then Got_setup False (Some BAD_IMPLEMENTATION)
           else Got_setup False (Some FAILED)))"

section \<open>call\<close>

text \<open>The arguments of a call are given, or computed from the runner by a function that may raise.\<close>

type_synonym args_and_kwargs = "argument list option \<times> kw_argument list option"

datatype arguments = Given args_and_kwargs | Computed "dyn_runner \<Rightarrow> args_and_kwargs result"

fun evaluate_arguments :: "arguments \<Rightarrow> dyn_runner \<Rightarrow> args_and_kwargs result" where
  "evaluate_arguments (Given akw) r = Inr akw"
| "evaluate_arguments (Computed f) r = f r"

definition call_begin :: "dyn_runner \<Rightarrow> pystr \<Rightarrow> arguments \<Rightarrow> call_request result" where
  "call_begin r method arguments =
     (case evaluate_arguments arguments r of
        Inl e \<Rightarrow> Inl e
      | Inr (args, kwargs) \<Rightarrow>
          (if grpc_stub r = None
           then Inl (InvalidCoordinatorUsageError
             (lit ''gRPC stub is not initialized, please call setup() first.''))
           else Inr
             \<lparr>method_name = method,
              method_arguments = (case args of None \<Rightarrow> [] | Some xs \<Rightarrow> xs),
              method_kw_arguments = (case kwargs of None \<Rightarrow> [] | Some xs \<Rightarrow> xs)\<rparr>))"

definition call_end ::
  "('f, 't) libraries \<Rightarrow> call_response option result \<Rightarrow>
   (('f, 't) pydata \<times> error_type option) result" where
  "call_end L response =
     (case response of
        Inl e \<Rightarrow> Inl e
      | Inr None \<Rightarrow> Inr (Plain JNull, Some FAILED)
      | Inr (Some answer) \<Rightarrow>
          (let st = call_status answer; v = method_response answer in
           if status_code st = lit ''SUCCESS''
           then map_sum (\<lambda>e. e) (\<lambda>x. (x, None)) (decode_data L (v_value v) (v_type v))
           else if status_code st = lit ''INVALID_ARGUMENT'' \<or>
                   status_code st = lit ''FAILED_PRECONDITION''
           then Inl (InvalidCoordinatorUsageError (status_message st))
           else if status_code st = lit ''BAD_IMPLEMENTATION''
           then Inr (Plain JNull, Some BAD_IMPLEMENTATION)
           else Inr (Plain JNull, Some FAILED)))"

section \<open>The hook contract\<close>

lemma runner_extend_fields [simp]:
  "deployment_id (runner.extend r x) = deployment_id r"
  "model_id (runner.extend r x) = model_id r"
  "ip (runner.extend r x) = ip r"
  "port (runner.extend r x) = port r"
  "closed (runner.extend r x) = closed r"
  "grpc_channel (runner.extend r x) = grpc_channel r"
  "grpc_health_channel (runner.extend r x) = grpc_health_channel r"
  "retry_attempts (runner.extend r x) = retry_attempts r"
  "retry_backoff_factor (runner.extend r x) = retry_backoff_factor r"
  "infos (runner.extend r x) = infos r"
  "model_name (runner.extend r x) = model_name r"
  "secure_creds (runner.extend r x) = secure_creds r"
  "gateway_creds (runner.extend r x) = gateway_creds r"
  "consecutive_failures (runner.extend r x) = consecutive_failures r"
  "consecutive_timeouts (runner.extend r x) = consecutive_timeouts r"
  "cooldown_calls_remaining (runner.extend r x) = cooldown_calls_remaining r"
  by (simp_all add: runner.defs)

interpretation dyn_setup: setup_hook setup_begin
  by unfold_locales (simp_all add: setup_begin_def kept_defs)

lemma new_dyn_runner_built:
  "new_dyn_runner base args kwargs sec gw dep mid name addr prt info = Inr r \<Longrightarrow>
   identity r = (dep, mid, addr, prt) \<and> model_name r = name \<and> infos r = info \<and>
   \<not> closed r \<and> \<not> close_awaits r"
  by (auto simp: new_dyn_runner_def new_runner_def identity_def close_awaits_def split: if_splits)

text \<open>A remote method that succeeds with a value its type carries: the call returns that value.\<close>

lemma call_end_value:
  assumes "carries L t v" and "encode_data L t v = Inr bs"
    and "status_code st = lit ''SUCCESS''"
  shows "call_end L (Inr (Some \<lparr>call_status = st,
    method_response = \<lparr>v_type = t, v_value = bs\<rparr>\<rparr>)) = Inr (v, None)"
  using wire.dec_enc [OF assms(1,2)] assms(3) by (simp add: call_end_def Let_def)

end
