(* ===== verification/Concurrent_Runner.thy ===== *)
theory Concurrent_Runner
  imports Cluster_System Dynamic_Subclass_Runner
begin

text \<open>
  \<^verbatim>\<open>model_concurrent_runners/model_concurrent_runner.py\<close>: a call made on every model at once, and
  the bookkeeping of failures and timeouts. The coroutine of one model has two awaits, that of the
  remote call and that of the health check; a segment between them yields the new cluster, the tasks
  it creates and what it ends with. The time a call took is an input.
\<close>

section \<open>Results\<close>

datatype predict_status = SUCCESS | FAILED | TIMEOUT

record 'v predict_result =
  model_runner :: nat
  result :: "'v option"
  predict_status :: predict_status
  exec_time_us :: int

definition of_success :: "nat \<Rightarrow> 'v \<Rightarrow> int \<Rightarrow> 'v predict_result" where
  "of_success a v exec_time =
     \<lparr>model_runner = a, result = Some v, predict_status = SUCCESS, exec_time_us = exec_time\<rparr>"

definition of_failed :: "nat \<Rightarrow> int \<Rightarrow> 'v predict_result" where
  "of_failed a exec_time =
     \<lparr>model_runner = a, result = None, predict_status = predict_status.FAILED,
      exec_time_us = exec_time\<rparr>"

definition of_timeout :: "nat \<Rightarrow> int \<Rightarrow> 'v predict_result" where
  "of_timeout a exec_time =
     \<lparr>model_runner = a, result = None, predict_status = TIMEOUT, exec_time_us = exec_time\<rparr>"

section \<open>Configuration\<close>

record concurrent_runner =
  call_timeout :: int
  cr_host :: pystr
  cr_port :: nat
  max_consecutive_failures :: int
  max_consecutive_timeout :: int
  health_check_threshold :: int
  cr_secure_credentials :: "secure_credentials option"
  cr_gateway_credentials :: "gateway_credentials option"

text \<open>
  \<^verbatim>\<open>max(1, int(n * 0.2))\<close>: the double \<open>0.2\<close> is \<open>3602879701896397 / 2 ^ 54\<close>, the integer
  is converted first, and \<^verbatim>\<open>int\<close> truncates.
\<close>

definition double_fifth :: nat where
  "double_fifth = 3602879701896397"

definition health_threshold :: "int \<Rightarrow> int result" where
  "health_threshold n =
     (let a = round53 (nat \<bar>n\<bar>)
      in if 2 ^ 1024 \<le> a then Inl OverflowError
         else Inr (max 1 (sgn n * int (round53 (a * double_fifth) div 2 ^ 54))))"

definition new_concurrent_runner ::
  "(nat \<Rightarrow> 'r) \<Rightarrow> int \<Rightarrow> pystr \<Rightarrow> pystr \<Rightarrow> nat \<Rightarrow> int \<Rightarrow> int \<Rightarrow>
   secure_credentials option \<Rightarrow> gateway_credentials option \<Rightarrow> bool \<Rightarrow>
   (concurrent_runner \<times> 'r cluster) result" where
  "new_concurrent_runner blank tmo crunch host prt max_failures max_timeouts sec gw report =
     map_sum (\<lambda>e. e)
       (\<lambda>threshold.
          (\<lparr>call_timeout = tmo, cr_host = host, cr_port = prt,
            max_consecutive_failures = max_failures, max_consecutive_timeout = max_timeouts,
            health_check_threshold = threshold,
            cr_secure_credentials = sec, cr_gateway_credentials = gw\<rparr>,
           new_cluster blank crunch host prt report))
       (health_threshold max_timeouts)"

text \<open>\<^verbatim>\<open>timeout or self.timeout\<close>\<close>

definition effective_timeout :: "'b concurrent_runner_scheme \<Rightarrow> int option \<Rightarrow> int" where
  "effective_timeout R tmo =
     (case tmo of
        None \<Rightarrow> call_timeout R
      | Some t \<Rightarrow> (if t = 0 then call_timeout R else t))"

section \<open>One model\<close>

datatype 'v exec_end = Ended_result "'v predict_result" | Ended_none | Ended_raised exn

text \<open>The method is awaited with its request and its timeout, the health check with the timeout.\<close>

datatype 'q exec_pc = At_method 'q int | At_health_check int int

datatype ('q, 'v) exec_next = Exec_await "'q exec_pc" | Exec_end "'v exec_end"

definition count_failure ::
  "'b concurrent_runner_scheme \<Rightarrow> nat \<Rightarrow> int \<Rightarrow> 'a runner_scheme cluster \<Rightarrow>
   'a runner_scheme cluster \<times> call list \<times> ('q, 'v) exec_next" where
  "count_failure R a exec_time c =
     (let c' = modify a register_failure c
      in (c',
          if max_consecutive_failures R \<noteq> 0 \<and>
             int (consecutive_failures (heap c' a)) > max_consecutive_failures R
          then [Report a (lit ''MULTIPLE_FAILED'') JNull] else [],
          Exec_end (Ended_result (of_failed a exec_time))))"

definition finish_timeout ::
  "'b concurrent_runner_scheme \<Rightarrow> nat \<Rightarrow> int \<Rightarrow> bool \<Rightarrow> 'a runner_scheme cluster \<Rightarrow>
   'a runner_scheme cluster \<times> call list \<times> ('q, 'v) exec_next" where
  "finish_timeout R a exec_time health_serving c =
     (let c' = (if health_serving then modify a register_timeout c else c)
      in (c',
          (if health_serving then [] else [Reconnect a]) @
          (if max_consecutive_timeout R \<noteq> 0 \<and>
              int (consecutive_timeouts (heap c' a)) > max_consecutive_timeout R
           then [Report a (lit ''MULTIPLE_TIMEOUT'') JNull] else []),
          Exec_end (Ended_result (of_timeout a exec_time))))"

text \<open>
  Building the health stub on a missing channel raises inside the inner \<^verbatim>\<open>try\<close> and counts as
  not serving.
\<close>

definition timed_out ::
  "'b concurrent_runner_scheme \<Rightarrow> nat \<Rightarrow> int \<Rightarrow> int \<Rightarrow> 'a runner_scheme cluster \<Rightarrow>
   'a runner_scheme cluster \<times> call list \<times> ('q, 'v) exec_next" where
  "timed_out R a tmo exec_time c =
     (let r = heap c a
      in if consecutive_timeouts r > 0 \<and>
            int (consecutive_timeouts r) mod health_check_threshold R = 0
         then (if grpc_health_channel r = None then finish_timeout R a exec_time False c
               else (c, [], Exec_await (At_health_check tmo exec_time)))
         else finish_timeout R a exec_time True c)"

definition except_clause ::
  "'b concurrent_runner_scheme \<Rightarrow> nat \<Rightarrow> int \<Rightarrow> int \<Rightarrow> exn \<Rightarrow> 'a runner_scheme cluster \<Rightarrow>
   'a runner_scheme cluster \<times> call list \<times> ('q, 'v) exec_next" where
  "except_clause R a tmo exec_time e c =
     (case e of
        TimeoutError \<Rightarrow> timed_out R a tmo exec_time c
      | AioRpcError _ _ \<Rightarrow> timed_out R a tmo exec_time c
      | AuthError message \<Rightarrow>
          (c, [Report a (lit ''CONNECTION_FAILED'') (JStr message)], Exec_end Ended_none)
      | CancelledError \<Rightarrow> (c, [], Exec_end (Ended_raised e))
      | _ \<Rightarrow> (c, [], Exec_end (Ended_result (of_failed a exec_time))))"

definition method_done ::
  "'b concurrent_runner_scheme \<Rightarrow> nat \<Rightarrow> int \<Rightarrow> int \<Rightarrow> ('v \<times> error_type option) result \<Rightarrow>
   'a runner_scheme cluster \<Rightarrow> 'a runner_scheme cluster \<times> call list \<times> ('q, 'v) exec_next" where
  "method_done R a tmo exec_time outcome c =
     (case outcome of
        Inl e \<Rightarrow> (if is_ValueError e then count_failure R a exec_time c
                 else except_clause R a tmo exec_time e c)
      | Inr (v, None) \<Rightarrow>
          (modify a (reset_timeouts \<circ> reset_failures) c, [],
           Exec_end (Ended_result (of_success a v exec_time)))
      | Inr (v, Some err) \<Rightarrow>
          (if err = BAD_IMPLEMENTATION
           then (c, [Report a (lit ''BAD_IMPLEMENTATION'') JNull],
                 Exec_end (Ended_result (of_failed a exec_time)))
           else count_failure R a exec_time c))"

text \<open>
  \<^verbatim>\<open>_execute_model_method_with_timeout\<close> up to its first await: \<open>attribute\<close> is
  \<^verbatim>\<open>getattr\<close>, and gives the method's own synchronous beginning.
\<close>

definition exec_begin ::
  "'b concurrent_runner_scheme \<Rightarrow> (pystr \<Rightarrow> ('a runner_scheme \<Rightarrow> 'q result) option) \<Rightarrow> pystr \<Rightarrow>
   int option \<Rightarrow> nat \<Rightarrow> int \<Rightarrow> 'a runner_scheme cluster \<Rightarrow>
   'a runner_scheme cluster \<times> call list \<times> ('q, 'v) exec_next" where
  "exec_begin R attribute name tmo a exec_time c =
     (let t = effective_timeout R tmo in
      case attribute name of
        None \<Rightarrow> except_clause R a t exec_time AttributeError c
      | Some prefix \<Rightarrow>
          (let (skip, r) = should_skip_for_timeout_reason (heap c a);
               c' = modify a (\<lambda>_. r) c
           in if skip then except_clause R a t exec_time TimeoutError c'
              else case prefix r of
                     Inl e \<Rightarrow> method_done R a t exec_time (Inl e) c'
                   | Inr request \<Rightarrow> (c', [], Exec_await (At_method request t))))"

text \<open>What an await delivers: the outcome of the method, or whether the model is serving.\<close>

datatype 'v delivery = Method_outcome int "('v \<times> error_type option) result" | Health_outcome "bool result"

fun exec_resume ::
  "'b concurrent_runner_scheme \<Rightarrow> nat \<Rightarrow> 'q exec_pc \<Rightarrow> 'v delivery \<Rightarrow> 'a runner_scheme cluster \<Rightarrow>
   'a runner_scheme cluster \<times> call list \<times> ('q, 'v) exec_next" where
  "exec_resume R a (At_method q t) (Method_outcome exec_time outcome) c =
     method_done R a t exec_time outcome c"
| "exec_resume R a (At_health_check t exec_time) (Health_outcome (Inr serving)) c =
     finish_timeout R a exec_time serving c"
| "exec_resume R a (At_health_check t exec_time) (Health_outcome (Inl e)) c =
     (if is_Exception e then finish_timeout R a exec_time False c
      else (c, [], Exec_end (Ended_raised e)))"
| "exec_resume R a pc _ c = (c, [], Exec_await pc)"

section \<open>All models\<close>

definition select_models :: "'r cluster \<Rightarrow> nat list option \<Rightarrow> nat list" where
  "select_models c model_runs =
     (case model_runs of
        Some (a # as) \<Rightarrow> a # as
      | _ \<Rightarrow> map snd (models_run c))"

text \<open>
  The dictionary built from the gathered results, an exception being an object of its own there:
  a coroutine that returned \<^verbatim>\<open>None\<close> has no \<^verbatim>\<open>model_runner\<close>.
\<close>

fun collect_results ::
  "'v exec_end list \<Rightarrow> (nat \<times> 'v predict_result) list \<Rightarrow>
   (nat \<times> 'v predict_result) list result" where
  "collect_results [] d = Inr d"
| "collect_results (Ended_result p # es) d =
     collect_results es (AList.update (model_runner p) p d)"
| "collect_results (Ended_raised e # es) d = collect_results es d"
| "collect_results (Ended_none # es) d = Inl AttributeError"

section \<open>The dynamic subclass\<close>

record dyn_concurrent_runner = concurrent_runner +
  cr_base_classname :: pystr
  cr_instance_args :: "argument list"
  cr_instance_kwargs :: "kw_argument list"

definition new_dyn_concurrent_runner ::
  "(nat \<Rightarrow> 'r) \<Rightarrow> int \<Rightarrow> pystr \<Rightarrow> pystr \<Rightarrow> nat \<Rightarrow> pystr \<Rightarrow>
   argument list option \<Rightarrow> kw_argument list option \<Rightarrow> int \<Rightarrow> int \<Rightarrow>
   secure_credentials option \<Rightarrow> gateway_credentials option \<Rightarrow> bool \<Rightarrow>
   (dyn_concurrent_runner \<times> 'r cluster) result" where
  "new_dyn_concurrent_runner blank tmo crunch host prt base args kwargs mf mt sec gw report =
     map_sum (\<lambda>e. e)
       (\<lambda>(R, c). (concurrent_runner.extend R (dyn_concurrent_runner.fields base
            (case args of None \<Rightarrow> [] | Some xs \<Rightarrow> xs)
            (case kwargs of None \<Rightarrow> [] | Some xs \<Rightarrow> xs)), c))
       (new_concurrent_runner blank tmo crunch host prt mf mt sec gw report)"

definition create_model_runner ::
  "dyn_concurrent_runner \<Rightarrow> json \<Rightarrow> json \<Rightarrow> json \<Rightarrow> json \<Rightarrow> json \<Rightarrow> json \<Rightarrow> dyn_runner result" where
  "create_model_runner R =
     new_dyn_runner (cr_base_classname R) (cr_instance_args R) (cr_instance_kwargs R)
       (cr_secure_credentials R) (cr_gateway_credentials R)"

text \<open>
  \<^verbatim>\<open>call\<close>: \<open>None\<close> stands for the sentinel default of the three argument parameters. The
  deprecated ones count only when the new one is missing.
\<close>

definition call_arguments ::
  "arguments option \<Rightarrow> argument list option option \<Rightarrow> kw_argument list option option \<Rightarrow> arguments" where
  "call_arguments arguments args kwargs =
     (case arguments of
        Some x \<Rightarrow> x
      | None \<Rightarrow> Given (case args of None \<Rightarrow> Some [] | Some xs \<Rightarrow> xs,
                       case kwargs of None \<Rightarrow> Some [] | Some xs \<Rightarrow> xs))"

definition dyn_attribute ::
  "pystr \<Rightarrow> arguments \<Rightarrow> pystr \<Rightarrow> (dyn_runner \<Rightarrow> call_request result) option" where
  "dyn_attribute method arguments name =
     (if name = lit ''call'' then Some (\<lambda>r. call_begin r method arguments) else None)"

definition call_model ::
  "dyn_concurrent_runner \<Rightarrow> pystr \<Rightarrow> arguments \<Rightarrow> int option \<Rightarrow> nat \<Rightarrow> int \<Rightarrow>
   dyn_runner cluster \<Rightarrow> dyn_runner cluster \<times> call list \<times> (call_request, 'v) exec_next" where
  "call_model R method arguments tmo a exec_time c =
     exec_begin R (dyn_attribute method arguments) (lit ''call'') tmo a exec_time c"

text \<open>The environment in which a cluster of dynamic runners runs.\<close>

definition dyn_environment ::
  "dyn_concurrent_runner \<Rightarrow> (64 word \<Rightarrow> pystr) \<Rightarrow> dyn_runner environment" where
  "dyn_environment R F =
     \<lparr>model_factory = create_model_runner R, setup_prefix = setup_begin,
      dumps = json_text F (lit '', '') (lit '': '')\<rparr>"

interpretation dyn: runner_factory "dyn_environment R F" for R F
proof unfold_locales
qed (simp_all add: dyn_environment_def create_model_runner_def new_dyn_runner_built
    dyn_setup.identity_kept dyn_setup.configuration_kept dyn_setup.closed_kept)

section \<open>The health-check threshold\<close>

lemma fifth_rounded:
  assumes "n < 2 ^ 50"
  shows "round53 (n * double_fifth) div 2 ^ 54 = n div 5"
proof -
  define k where "k = n div 5"
  define m where "m = n * double_fifth"
  have n: "5 * k \<le> n" "n \<le> 5 * k + 4" unfolding k_def by linarith+
  have five: "5 * m = n * 18014398509481985" by (simp add: m_def double_fifth_def)
  have small: "n < 1125899906842624" using assms by simp
  have "2 ^ 54 * k \<le> m" using five n by simp
  moreover have "m < 2 ^ 107" using five small by simp
  ultimately have "2 ^ 54 * k \<le> round53 m" by (intro round53_lower bit_length_le)
  moreover have "round53 m < 2 ^ 54 * (k + 1)"
    using round53_upper [of m] five n small by simp
  ultimately have "round53 m div 2 ^ 54 = k" by (simp add: div_nat_eqI)
  then show ?thesis by (simp add: k_def m_def)
qed

section \<open>What one coroutine may do\<close>

text \<open>
  A segment changes the counters of its own model and nothing else of the cluster, creates tasks
  about that model only, and ends with a result of that model or, when it is cancelled, an exception.
\<close>

fun call_about :: "nat \<Rightarrow> call \<Rightarrow> bool" where
  "call_about a (Report b code reason) = (b = a)"
| "call_about a (Reconnect b) = (b = a)"
| "call_about a _ = False"

fun end_about :: "nat \<Rightarrow> 'v exec_end \<Rightarrow> bool" where
  "end_about a (Ended_result p) = (model_runner p = a)"
| "end_about a (Ended_raised e) = (e = CancelledError)"
| "end_about a Ended_none = True"

fun end_of :: "nat \<Rightarrow> ('q, 'v) exec_next \<Rightarrow> bool" where
  "end_of a (Exec_end e) = end_about a e"
| "end_of a (Exec_await pc) = True"

definition counters_changed ::
  "nat \<Rightarrow> 'a runner_scheme cluster \<Rightarrow> 'a runner_scheme cluster \<Rightarrow> bool" where
  "counters_changed a c c' \<longleftrightarrow> (\<exists>f t cd. c' = modify a (set_counters f t cd) c)"

definition exec_segment ::
  "nat \<Rightarrow> 'a runner_scheme cluster \<Rightarrow>
   'a runner_scheme cluster \<times> call list \<times> ('q, 'v) exec_next \<Rightarrow> bool" where
  "exec_segment a c x \<longleftrightarrow>
     counters_changed a c (fst x) \<and> list_all (call_about a) (fst (snd x)) \<and> end_of a (snd (snd x))"

lemma counters_refl [simp]: "counters_changed a c c"
proof -
  have "c = modify a (set_counters (consecutive_failures (heap c a))
      (consecutive_timeouts (heap c a)) (cooldown_calls_remaining (heap c a))) c"
    by (simp add: modify_def set_counters_def)
  then show ?thesis unfolding counters_changed_def by blast
qed

lemma counters_trans:
  "counters_changed a c c' \<Longrightarrow> counters_changed a c' c'' \<Longrightarrow> counters_changed a c c''"
proof -
  have "modify a (set_counters f t cd) (modify a (set_counters f' t' cd') c) =
      modify a (set_counters f t cd) c" for f t cd f' t' cd'
    by (simp add: modify_def set_counters_def)
  then show "counters_changed a c c' \<Longrightarrow> counters_changed a c' c'' \<Longrightarrow> counters_changed a c c''"
    unfolding counters_changed_def by metis
qed

lemma counters_modify:
  "f (heap c a) = set_counters x y z (heap c a) \<Longrightarrow> counters_changed a c (modify a f c)"
  by (auto simp: counters_changed_def modify_def)

lemma counters_ops [simp]:
  "counters_changed a c (modify a register_failure c)"
  "counters_changed a c (modify a register_timeout c)"
  "counters_changed a c (modify a (reset_timeouts \<circ> reset_failures) c)"
  "counters_changed a c (modify a (\<lambda>_. snd (should_skip_for_timeout_reason (heap c a))) c)"
proof -
  let ?r = "heap c a"
  note by_fields = counters_modify [where c = c and a = a and x = f and y = t and z = cd for f t cd]
  show "counters_changed a c (modify a register_failure c)"
    by (rule by_fields [of _ "consecutive_failures ?r + 1" "consecutive_timeouts ?r"
          "cooldown_calls_remaining ?r"]) (simp add: register_failure_def set_counters_def)
  show "counters_changed a c (modify a register_timeout c)"
    by (rule by_fields [of _ "consecutive_failures ?r" "consecutive_timeouts ?r + 1"
          "cooldown_calls_remaining ?r"]) (simp add: register_timeout_def set_counters_def)
  show "counters_changed a c (modify a (reset_timeouts \<circ> reset_failures) c)"
    by (rule by_fields [of _ 0 0 "cooldown_calls_remaining ?r"])
       (simp add: reset_timeouts_def reset_failures_def set_counters_def)
  show "counters_changed a c (modify a (\<lambda>_. snd (should_skip_for_timeout_reason ?r)) c)"
    by (rule by_fields [of _ "consecutive_failures ?r" "consecutive_timeouts ?r"
          "cooldown_calls_remaining (snd (should_skip_for_timeout_reason ?r))"])
       (simp add: should_skip_for_timeout_reason_def set_counters_def Let_def)
qed

lemma segment_after:
  "counters_changed a c c' \<Longrightarrow> exec_segment a c' x \<Longrightarrow> exec_segment a c x"
  by (auto simp: exec_segment_def intro: counters_trans)

lemma finish_timeout_segment [simp]: "exec_segment a c (finish_timeout R a x b c)"
  by (simp add: exec_segment_def finish_timeout_def Let_def of_timeout_def)

lemma timed_out_segment [simp]: "exec_segment a c (timed_out R a t x c)"
  by (simp add: timed_out_def Let_def) (simp add: exec_segment_def)

lemma count_failure_segment [simp]: "exec_segment a c (count_failure R a x c)"
  by (simp add: exec_segment_def count_failure_def Let_def of_failed_def)

lemma except_clause_segment [simp]: "exec_segment a c (except_clause R a t x e c)"
  by (cases e) (simp_all add: except_clause_def, simp_all add: exec_segment_def of_failed_def)

lemma method_done_segment [simp]: "exec_segment a c (method_done R a t x out c)"
  by (simp add: method_done_def split: sum.split option.split prod.split)
     (simp add: exec_segment_def of_failed_def of_success_def)

lemma exec_begin_segment [simp]: "exec_segment a c (exec_begin R attribute name tmo a x c)"
proof (cases "attribute name")
  case (Some prefix)
  define c' where "c' = modify a (\<lambda>_. snd (should_skip_for_timeout_reason (heap c a))) c"
  have c': "counters_changed a c c'" by (simp add: c'_def)
  obtain skip r where s: "should_skip_for_timeout_reason (heap c a) = (skip, r)" by fastforce
  have m: "modify a (\<lambda>_. r) c = c'" using s by (simp add: c'_def)
  have "exec_begin R attribute name tmo a x c =
      (if skip then except_clause R a (effective_timeout R tmo) x TimeoutError c'
       else case prefix r of
              Inl e \<Rightarrow> method_done R a (effective_timeout R tmo) x (Inl e) c'
            | Inr request \<Rightarrow> (c', [], Exec_await (At_method request (effective_timeout R tmo))))"
    using Some s m by (simp add: exec_begin_def Let_def split: sum.split)
  also have "exec_segment a c \<dots>"
    by (rule segment_after [OF c']) (simp add: exec_segment_def [of _ _ "(_, [], _)"] split: sum.split)
  finally show ?thesis .
qed (simp add: exec_begin_def Let_def)

lemma exec_resume_segment [simp]: "exec_segment a c (exec_resume R a pc d c)"
  by (cases "(R, a, pc, d, c)" rule: exec_resume.cases)
     (auto, simp_all add: exec_segment_def)

end
