(* ===== verification/Concurrent_Calls.thy ===== *)
theory Concurrent_Calls
  imports Concurrent_Runner
begin

text \<open>
  Whole calls: \<^verbatim>\<open>_execute_concurrent_method\<close> running on every selected model while the cluster
  goes on, its simulation by the cluster's own step relation, the dictionary it returns, and
  sequences of calls on one model, where the limits take effect.
\<close>

section \<open>Running on every model at once\<close>

datatype ('q, 'v) progress = Fresh | In_flight "'q exec_pc" | Finished "'v exec_end"

fun progress_of :: "('q, 'v) exec_next \<Rightarrow> ('q, 'v) progress" where
  "progress_of (Exec_await pc) = In_flight pc"
| "progress_of (Exec_end e) = Finished e"

type_synonym ('q, 'v) calls_state = "(nat \<times> ('q, 'v) progress) list"

text \<open>The coroutines that \<^verbatim>\<open>_execute_concurrent_method\<close> builds.\<close>

definition fresh_calls :: "'r cluster \<Rightarrow> nat list option \<Rightarrow> ('q, 'v) calls_state" where
  "fresh_calls c model_runs = map (\<lambda>a. (a, Fresh)) (select_models c model_runs)"

definition advance ::
  "'r system \<times> ('q, 'v) calls_state \<Rightarrow> nat \<Rightarrow> nat \<Rightarrow> 'r cluster \<times> call list \<times> ('q, 'v) exec_next \<Rightarrow>
   'r system \<times> ('q, 'v) calls_state" where
  "advance s i a x =
     (case (s, x) of ((sys, ps), (c', calls, nxt)) \<Rightarrow>
        (fst (spawn calls (sys\<lparr>cluster_of := c'\<rparr>)), ps[i := (a, progress_of nxt)]))"

inductive run_step ::
  "'a runner_scheme environment \<Rightarrow> 'b concurrent_runner_scheme \<Rightarrow>
   (pystr \<Rightarrow> ('a runner_scheme \<Rightarrow> 'q result) option) \<Rightarrow> pystr \<Rightarrow> int option \<Rightarrow>
   'a runner_scheme system \<times> ('q, 'v) calls_state \<Rightarrow>
   'a runner_scheme system \<times> ('q, 'v) calls_state \<Rightarrow> bool"
  for K R attribute name tmo where
  cluster_step:
    "system_step K sys sys' \<Longrightarrow> run_step K R attribute name tmo (sys, ps) (sys', ps)"
| begin_call_on:
    "i < length ps \<Longrightarrow> ps ! i = (a, Fresh) \<Longrightarrow>
     run_step K R attribute name tmo (sys, ps)
       (advance (sys, ps) i a (exec_begin R attribute name tmo a x (cluster_of sys)))"
| resume_call_on:
    "i < length ps \<Longrightarrow> ps ! i = (a, In_flight pc) \<Longrightarrow>
     run_step K R attribute name tmo (sys, ps)
       (advance (sys, ps) i a (exec_resume R a pc d (cluster_of sys)))"

text \<open>
  Seen from the cluster, a segment of a call is a change of counters and the creation of tasks:
  every run of calls is a run of the system, so all its invariants hold during calls.
\<close>

lemma spawn_Cons: "fst (spawn (cl # cls) s) = fst (spawn cls (fst (spawn [cl] s)))"
  by (simp add: spawn_def)

lemma spawn_reachable:
  "list_all (call_about a) calls \<Longrightarrow> a < next_address (cluster_of s) \<Longrightarrow>
   reachable K s (fst (spawn calls s))"
proof (induction calls arbitrary: s)
  case Nil
  then show ?case by (simp add: spawn_def)
next
  case (Cons cl calls)
  have "system_step K s (fst (spawn [cl] s))"
    using Cons.prems by (cases cl) (auto intro: system_step.create_task)
  moreover have "reachable K (fst (spawn [cl] s)) (fst (spawn calls (fst (spawn [cl] s))))"
    using Cons.prems by (intro Cons.IH) (simp_all add: spawn_def)
  ultimately show ?case
    unfolding spawn_Cons [of cl calls s] by (rule converse_rtranclp_into_rtranclp)
qed

lemma exec_segment_reachable:
  assumes "exec_segment a (cluster_of s) (c', calls, nxt)" and "a < next_address (cluster_of s)"
  shows "reachable K s (fst (spawn calls (s\<lparr>cluster_of := c'\<rparr>)))"
proof -
  obtain f t cd where c': "c' = modify a (set_counters f t cd) (cluster_of s)"
    using assms(1) by (auto simp: exec_segment_def counters_changed_def)
  have "system_step K s (s\<lparr>cluster_of := c'\<rparr>)"
    unfolding c' by (rule system_step.call_in_flight [OF assms(2)])
  moreover have "reachable K (s\<lparr>cluster_of := c'\<rparr>) (fst (spawn calls (s\<lparr>cluster_of := c'\<rparr>)))"
    using assms by (intro spawn_reachable) (simp_all add: exec_segment_def c')
  ultimately show ?thesis by (rule converse_rtranclp_into_rtranclp)
qed

definition calls_ok :: "'r system \<times> ('q, 'v) calls_state \<Rightarrow> bool" where
  "calls_ok s \<longleftrightarrow>
     (\<forall>(a, p) \<in> set (snd s). a < next_address (cluster_of (fst s)) \<and>
        (\<forall>e. p = Finished e \<longrightarrow> end_about a e))"

lemma system_step_next_address:
  "system_step K s t \<Longrightarrow> system_ok s \<Longrightarrow> runner_factory K \<Longrightarrow>
   next_address (cluster_of s) \<le> next_address (cluster_of t)"
  using runner_factory.closed_forever [of K s t] by (simp add: evolves_def)

lemma calls_ok_mono:
  "calls_ok (s, ps) \<Longrightarrow> next_address (cluster_of s) \<le> next_address (cluster_of t) \<Longrightarrow> calls_ok (t, ps)"
  by (fastforce simp: calls_ok_def)

lemma advance_simulated:
  assumes "i < length ps" and "ps ! i = (a, p)" and "calls_ok (sys, ps)"
    and seg: "exec_segment a (cluster_of sys) x"
    and adv: "advance (sys, ps) i a x = (sys', ps')"
  shows "reachable K sys sys' \<and> map fst ps' = map fst ps \<and> calls_ok (sys', ps')"
proof -
  obtain c' calls nxt where x: "x = (c', calls, nxt)" by (cases x)
  have a: "a < next_address (cluster_of sys)"
    using assms(1-3) nth_mem [OF assms(1)] by (auto simp: calls_ok_def)
  have sys': "sys' = fst (spawn calls (sys\<lparr>cluster_of := c'\<rparr>))"
    and ps': "ps' = ps[i := (a, progress_of nxt)]"
    using adv by (simp_all add: advance_def x)
  have n: "next_address (cluster_of sys') = next_address (cluster_of sys)"
    using seg by (auto simp: sys' x spawn_def exec_segment_def counters_changed_def)
  have "end_about a e" if "progress_of nxt = Finished e" for e
    using that seg by (cases nxt) (simp_all add: exec_segment_def x)
  moreover have "calls_ok (sys', ps)" by (rule calls_ok_mono [OF assms(3)]) (simp add: n)
  ultimately have "calls_ok (sys', ps')"
    using a n set_update_subset_insert [of ps i "(a, progress_of nxt)"]
    by (fastforce simp: calls_ok_def ps')
  moreover have "map fst ps' = map fst ps"
    using assms(1,2) by (simp add: ps' map_update list_update_same_conv)
  moreover have "reachable K sys sys'"
    using exec_segment_reachable [of a sys c' calls nxt K] seg a by (simp add: sys' x)
  ultimately show ?thesis by blast
qed

context runner_factory
begin

lemma run_step_simulated:
  assumes "run_step K R attribute name tmo s t" and "system_ok (fst s)" and "calls_ok s"
  shows "reachable K (fst s) (fst t) \<and> map fst (snd t) = map fst (snd s) \<and> calls_ok t"
  using assms
proof (induction rule: run_step.induct)
  case (cluster_step sys sys' ps)
  then show ?case
    using calls_ok_mono [of sys ps sys'] closed_forever [of sys sys'] by (auto simp: evolves_def)
next
  case (begin_call_on i ps a sys x)
  then show ?case
    using advance_simulated [OF begin_call_on.hyps _ exec_begin_segment [of a _ R attribute name tmo x]]
    by (cases "advance (sys, ps) i a (exec_begin R attribute name tmo a x (cluster_of sys))") simp
next
  case (resume_call_on i ps a pc sys d)
  then show ?case
    using advance_simulated [OF resume_call_on.hyps _ exec_resume_segment [of a _ R pc d]]
    by (cases "advance (sys, ps) i a (exec_resume R a pc d (cluster_of sys))") simp
qed

lemma runs_simulated:
  assumes "rtranclp (run_step K R attribute name tmo) s t" and "system_ok (fst s)" and "calls_ok s"
  shows "reachable K (fst s) (fst t) \<and> map fst (snd t) = map fst (snd s) \<and> calls_ok t"
  using assms(1)
proof (induction rule: rtranclp_induct)
  case (step t u)
  then show ?case
    using run_step_simulated [of R attribute name tmo t u] running.always [of "fst s" "fst t"] assms
    by (auto intro: rtranclp_trans)
qed (simp add: assms)

end

section \<open>The dictionary of results\<close>

text \<open>What the call returns once every coroutine is over.\<close>

fun ended :: "('q, 'v) calls_state \<Rightarrow> 'v exec_end list option" where
  "ended [] = Some []"
| "ended ((a, Finished e) # ps) = map_option (Cons e) (ended ps)"
| "ended _ = None"

definition call_results ::
  "('q, 'v) calls_state \<Rightarrow> (nat \<times> 'v predict_result) list result option" where
  "call_results ps = map_option (\<lambda>es. collect_results es []) (ended ps)"

fun result_entries :: "('q, 'v) calls_state \<Rightarrow> (nat \<times> 'v predict_result) list" where
  "result_entries [] = []"
| "result_entries ((a, Finished (Ended_result p)) # ps) = (a, p) # result_entries ps"
| "result_entries (_ # ps) = result_entries ps"

lemma update_new_key: "k \<notin> fst ` set d \<Longrightarrow> AList.update k v d = d @ [(k, v)]"
  by (induction d) auto

lemma result_entries_keys: "fst ` set (result_entries ps) \<subseteq> fst ` set ps"
  by (induction ps rule: result_entries.induct) auto

lemma collect_results_entries:
  assumes "ended ps = Some es" and "distinct (map fst d @ map fst ps)"
    and "\<And>a e. (a, Finished e) \<in> set ps \<Longrightarrow> end_about a e"
  shows "collect_results es d =
    (if Ended_none \<in> set es then Inl AttributeError else Inr (d @ result_entries ps))"
  using assms
proof (induction ps arbitrary: es d rule: ended.induct)
  case (2 a e ps)
  then obtain es' where es': "ended ps = Some es'" "es = e # es'" by auto
  have about: "\<And>a e. (a, Finished e) \<in> set ps \<Longrightarrow> end_about a e" using 2(4) by simp
  show ?case
  proof (cases e)
    case (Ended_result p)
    have "model_runner p = a" using 2(4) [of a e] Ended_result by simp
    then have "AList.update (model_runner p) p d = d @ [(a, p)]"
      using 2(3) by (intro update_new_key [of a, THEN trans] trans [OF update_new_key]) auto
    then show ?thesis
      using 2(1) [OF es'(1), of "d @ [(a, p)]"] 2(3) about es' Ended_result by auto
  qed (use 2(1) [OF es'(1), of d] 2(3) about es' in auto)
qed auto

lemma call_results_entries:
  assumes "calls_ok (s, ps)" and "distinct (map fst ps)" and "ended ps = Some es"
  shows "call_results ps =
    Some (if Ended_none \<in> set es then Inl AttributeError else Inr (result_entries ps))"
proof -
  have "end_about a e" if "(a, Finished e) \<in> set ps" for a e
    using assms(1) that by (auto simp: calls_ok_def)
  from collect_results_entries [OF assms(3), of "[]", simplified, OF assms(2) this]
  show ?thesis using assms(3) by (simp add: call_results_def)
qed

text \<open>If no coroutine returned \<^verbatim>\<open>None\<close> or was cancelled, every model has its entry.\<close>

lemma result_entries_complete:
  assumes "ended ps = Some es" and "\<And>e. e \<in> set es \<Longrightarrow> \<exists>p. e = Ended_result p"
  shows "map fst (result_entries ps) = map fst ps"
  using assms
proof (induction ps arbitrary: es rule: result_entries.induct)
  case (2 a p ps)
  then obtain es' where "ended ps = Some es'" "es = Ended_result p # es'" by auto
  then show ?case using 2 by auto
qed fastforce+

section \<open>Calls on one model, one after the other\<close>

text \<open>
  A call that nothing interleaves with: the method's outcome and that of a health check, should
  one be made, are given.
\<close>

type_synonym 'v call_outcome = "('v \<times> error_type option) result \<times> bool result"

fun answer :: "'v call_outcome \<Rightarrow> 'q exec_pc \<Rightarrow> 'v delivery" where
  "answer (out, health) (At_method q t) = Method_outcome 0 out"
| "answer (out, health) (At_health_check t x) = Health_outcome health"

definition serve ::
  "'b concurrent_runner_scheme \<Rightarrow> nat \<Rightarrow> 'v call_outcome \<Rightarrow>
   'a runner_scheme cluster \<times> call list \<times> ('q, 'v) exec_next \<Rightarrow>
   'a runner_scheme cluster \<times> call list \<times> ('q, 'v) exec_next" where
  "serve R a oc x =
     (case x of
        (c, calls, Exec_await pc) \<Rightarrow>
          (case exec_resume R a pc (answer oc pc) c of (c', calls', nxt) \<Rightarrow> (c', calls @ calls', nxt))
      | _ \<Rightarrow> x)"

definition serial_call ::
  "'b concurrent_runner_scheme \<Rightarrow> nat \<Rightarrow> 'v call_outcome \<Rightarrow> 'a runner_scheme cluster \<Rightarrow>
   'a runner_scheme cluster \<times> call list \<times> (unit, 'v) exec_next" where
  "serial_call R a oc c =
     serve R a oc (serve R a oc (exec_begin R (\<lambda>_. Some (\<lambda>_. Inr ())) [] None a 0 c))"

text \<open>The tasks each call of a sequence creates, and the cluster after it.\<close>

fun serial_calls ::
  "'b concurrent_runner_scheme \<Rightarrow> nat \<Rightarrow> 'v call_outcome list \<Rightarrow> 'a runner_scheme cluster \<Rightarrow>
   'a runner_scheme cluster \<times> call list list" where
  "serial_calls R a [] c = (c, [])"
| "serial_calls R a (oc # ocs) c =
     (case serial_call R a oc c of
        (c', calls, nxt) \<Rightarrow>
          (case serial_calls R a ocs c' of (c'', rest) \<Rightarrow> (c'', calls # rest)))"

text \<open>Whether the next call reaches the model at all.\<close>

definition asked :: "nat \<Rightarrow> 'a runner_scheme cluster \<Rightarrow> bool" where
  "asked a c \<longleftrightarrow> \<not> fst (should_skip_for_timeout_reason (heap c a))"

lemma serve_simps [simp]:
  "serve R a oc (c, calls, Exec_end e) = (c, calls, Exec_end e)"
  by (simp add: serve_def)

lemma serial_call_unasked:
  assumes "\<not> asked a c"
  shows "serial_call R a oc c =
    serve R a oc (timed_out R a (effective_timeout R None) 0
      (modify a (\<lambda>_. snd (should_skip_for_timeout_reason (heap c a))) c))"
proof -
  obtain r where s: "should_skip_for_timeout_reason (heap c a) = (True, r)"
    using assms by (cases "should_skip_for_timeout_reason (heap c a)") (auto simp: asked_def)
  have two: "serve R a oc (serve R a oc (timed_out R a t 0 c')) = serve R a oc (timed_out R a t 0 c')"
    for t c'
    by (cases oc; cases "snd oc")
       (auto simp: timed_out_def Let_def finish_timeout_def serve_def split: if_splits)
  show ?thesis using s by (simp add: serial_call_def exec_begin_def except_clause_def two)
qed

lemma serial_call_asked:
  assumes "asked a c"
  shows "serial_call R a (out, health) c =
    serve R a (out, health) (method_done R a (effective_timeout R None) 0 out
      (modify a (\<lambda>_. snd (should_skip_for_timeout_reason (heap c a))) c))"
proof -
  obtain r where s: "should_skip_for_timeout_reason (heap c a) = (False, r)"
    using assms by (cases "should_skip_for_timeout_reason (heap c a)") (auto simp: asked_def)
  show ?thesis
    using s by (simp add: serial_call_def exec_begin_def serve_def [of R a "(out, health)" "(_, [], _)"])
qed

subsection \<open>Timeouts in a row\<close>

definition timeout_report :: "'b concurrent_runner_scheme \<Rightarrow> nat \<Rightarrow> nat \<Rightarrow> call list" where
  "timeout_report R a n =
     (if max_consecutive_timeout R \<noteq> 0 \<and> int n > max_consecutive_timeout R
      then [Report a (lit ''MULTIPLE_TIMEOUT'') JNull] else [])"

text \<open>No answer in time, or a gRPC error, from a model whose health check answers serving.\<close>

definition unanswered :: "('v \<times> error_type option) result \<Rightarrow> bool" where
  "unanswered out \<longleftrightarrow>
     (case out of
        Inl TimeoutError \<Rightarrow> True
      | Inl (AioRpcError code details) \<Rightarrow> True
      | _ \<Rightarrow> False)"

definition times_out :: "'v call_outcome \<Rightarrow> bool" where
  "times_out oc \<longleftrightarrow> unanswered (fst oc) \<and> snd oc = Inr True"

lemma serve_timed_out:
  "grpc_health_channel (heap c a) \<noteq> None \<Longrightarrow>
   serve R a (out, Inr True) (timed_out R a t 0 c) = finish_timeout R a 0 True c"
  by (auto simp: timed_out_def Let_def serve_def finish_timeout_def)

lemma times_out_method_done:
  "unanswered out \<Longrightarrow> method_done R a t x out c = timed_out R a t x c"
  by (auto simp: unanswered_def method_done_def except_clause_def split: sum.splits exn.splits)

lemma should_skip_frame [simp]:
  "consecutive_timeouts (snd (should_skip_for_timeout_reason r)) = consecutive_timeouts r"
  "consecutive_failures (snd (should_skip_for_timeout_reason r)) = consecutive_failures r"
  "grpc_health_channel (snd (should_skip_for_timeout_reason r)) = grpc_health_channel r"
  by (simp_all add: should_skip_for_timeout_reason_def Let_def)

text \<open>Such a call counts, whether it reached the model or was skipped.\<close>

lemma serial_timeout:
  assumes "times_out oc" and "grpc_health_channel (heap c a) \<noteq> None"
  shows "serial_call R a oc c =
    finish_timeout R a 0 True
      (modify a (\<lambda>_. snd (should_skip_for_timeout_reason (heap c a))) c)"
proof -
  obtain out health where oc: "oc = (out, health)" by fastforce
  have h: "health = Inr True" using assms(1) by (simp add: times_out_def oc)
  have "serial_call R a oc c = serve R a oc (timed_out R a (effective_timeout R None) 0
      (modify a (\<lambda>_. snd (should_skip_for_timeout_reason (heap c a))) c))"
    using serial_call_unasked [of a c R oc] serial_call_asked [of a c R out health]
      times_out_method_done [of out] assms(1) oc by (metis times_out_def fst_conv)
  then show ?thesis using assms(2) by (simp add: oc h serve_timed_out)
qed

lemma serial_timeout_state:
  assumes "times_out oc" and "grpc_health_channel (heap c a) \<noteq> None"
    and "serial_call R a oc c = (c', calls, nxt)"
  shows "consecutive_timeouts (heap c' a) = Suc (consecutive_timeouts (heap c a))"
    and "cooldown_calls_remaining (heap c' a) =
      cooldown_calls_remaining (snd (should_skip_for_timeout_reason (heap c a)))"
    and "grpc_health_channel (heap c' a) = grpc_health_channel (heap c a)"
    and "calls = timeout_report R a (Suc (consecutive_timeouts (heap c a)))"
    and "nxt = Exec_end (Ended_result (of_timeout a 0))"
  using serial_timeout [OF assms(1,2), of R] assms(3)
  by (auto simp: finish_timeout_def Let_def register_timeout_def timeout_report_def)

lemma upt_from: "[n..<n + Suc k] = n # [Suc n..<Suc n + k]"
  by (simp add: upt_conv_Cons del: upt_Suc)

lemma timeouts_in_a_row:
  "list_all times_out ocs \<Longrightarrow> grpc_health_channel (heap c a) \<noteq> None \<Longrightarrow>
   snd (serial_calls R a ocs c) =
     map (timeout_report R a)
       [Suc (consecutive_timeouts (heap c a))..<
        Suc (consecutive_timeouts (heap c a)) + length ocs] \<and>
   consecutive_timeouts (heap (fst (serial_calls R a ocs c)) a) =
     consecutive_timeouts (heap c a) + length ocs"
proof (induction ocs arbitrary: c)
  case (Cons oc ocs)
  obtain c' calls nxt where call: "serial_call R a oc c = (c', calls, nxt)"
    by (rule prod_cases3)
  have "times_out oc" using Cons.prems(1) by simp
  note state = serial_timeout_state [OF this Cons.prems(2) call]
  have "grpc_health_channel (heap c' a) \<noteq> None" using state(3) Cons.prems(2) by simp
  with Cons.IH [of c'] Cons.prems(1) state(1)
  have "snd (serial_calls R a ocs c') = map (timeout_report R a)
      [Suc (Suc (consecutive_timeouts (heap c a)))..<
       Suc (Suc (consecutive_timeouts (heap c a))) + length ocs]"
    and "consecutive_timeouts (heap (fst (serial_calls R a ocs c')) a) =
      Suc (consecutive_timeouts (heap c a)) + length ocs"
    by simp_all
  then show ?case
    using state(4) call upt_from [of "Suc (consecutive_timeouts (heap c a))" "length ocs"]
    by (simp del: upt_Suc add: case_prod_beta)
qed simp

lemma skip_decisions_cong:
  "cooldown_calls_remaining x = cooldown_calls_remaining y \<Longrightarrow>
   skip_decisions x ts = skip_decisions y ts"
proof (induction ts arbitrary: x y)
  case (Cons t ts)
  have "fst (should_skip_for_timeout_reason (x\<lparr>consecutive_timeouts := t\<rparr>)) =
      fst (should_skip_for_timeout_reason (y\<lparr>consecutive_timeouts := t\<rparr>))"
    and "cooldown_calls_remaining
        (snd (should_skip_for_timeout_reason (x\<lparr>consecutive_timeouts := t\<rparr>))) =
      cooldown_calls_remaining
        (snd (should_skip_for_timeout_reason (y\<lparr>consecutive_timeouts := t\<rparr>)))"
    using Cons.prems by (simp_all add: should_skip_for_timeout_reason_def Let_def)
  then show ?case using Cons.IH by (simp add: case_prod_beta)
qed simp

text \<open>Which calls of a sequence reach the model.\<close>

fun asked_in ::
  "'b concurrent_runner_scheme \<Rightarrow> nat \<Rightarrow> 'v call_outcome list \<Rightarrow> 'a runner_scheme cluster \<Rightarrow>
   bool list" where
  "asked_in R a [] c = []"
| "asked_in R a (oc # ocs) c =
     asked a c # asked_in R a ocs (fst (serial_call R a oc c))"

lemma asked_in_timeouts:
  "list_all times_out ocs \<Longrightarrow> grpc_health_channel (heap c a) \<noteq> None \<Longrightarrow>
   asked_in R a ocs c =
     map Not (skip_decisions (heap c a)
       [consecutive_timeouts (heap c a)..<consecutive_timeouts (heap c a) + length ocs])"
proof (induction ocs arbitrary: c)
  case (Cons oc ocs)
  let ?t = "consecutive_timeouts (heap c a)"
  obtain c' calls nxt where call: "serial_call R a oc c = (c', calls, nxt)"
    by (rule prod_cases3)
  have "times_out oc" using Cons.prems(1) by simp
  note state = serial_timeout_state [OF this Cons.prems(2) call]
  obtain b r where s: "should_skip_for_timeout_reason (heap c a) = (b, r)" by fastforce
  have "asked_in R a ocs c' = map Not (skip_decisions (heap c' a) [Suc ?t..<Suc ?t + length ocs])"
    using Cons.IH [of c'] Cons.prems state by simp
  also have "skip_decisions (heap c' a) [Suc ?t..<Suc ?t + length ocs] =
      skip_decisions r [Suc ?t..<Suc ?t + length ocs]"
    by (rule skip_decisions_cong) (simp add: state(2) s)
  finally show ?case
    using call s upt_from [of ?t "length ocs"] by (simp del: upt_Suc add: asked_def)
qed simp

subsection \<open>Failures in a row\<close>

definition failure_report :: "'b concurrent_runner_scheme \<Rightarrow> nat \<Rightarrow> nat \<Rightarrow> call list" where
  "failure_report R a n =
     (if max_consecutive_failures R \<noteq> 0 \<and> int n > max_consecutive_failures R
      then [Report a (lit ''MULTIPLE_FAILED'') JNull] else [])"

text \<open>The model reports an error that is not a bad implementation, or its answer does not decode.\<close>

definition fails :: "'v call_outcome \<Rightarrow> bool" where
  "fails oc \<longleftrightarrow>
     (case fst oc of
        Inl e \<Rightarrow> is_ValueError e
      | Inr (v, None) \<Rightarrow> False
      | Inr (v, Some err) \<Rightarrow> err \<noteq> BAD_IMPLEMENTATION)"

definition unpenalised :: "'a runner_scheme \<Rightarrow> bool" where
  "unpenalised r \<longleftrightarrow> consecutive_timeouts r = 0 \<and> cooldown_calls_remaining r \<le> 0"

lemma unpenalised_asked: "unpenalised (heap c a) \<Longrightarrow> asked a c"
  by (simp add: unpenalised_def asked_def should_skip_for_timeout_reason_def)

lemma should_skip_cooldown:
  "\<not> fst (should_skip_for_timeout_reason r) \<Longrightarrow>
   cooldown_calls_remaining (snd (should_skip_for_timeout_reason r)) < 0"
  by (auto simp: should_skip_for_timeout_reason_def Let_def ceil_half_def split: if_splits)

lemma fails_method_done:
  "fails (out, health) \<Longrightarrow> method_done R a t x out c = count_failure R a x c"
  by (auto simp: fails_def method_done_def split: sum.splits option.splits)

lemma serial_failure:
  assumes "fails oc" and "asked a c" and "serial_call R a oc c = (c', calls, nxt)"
  shows "consecutive_failures (heap c' a) = Suc (consecutive_failures (heap c a))"
    and "consecutive_timeouts (heap c' a) = consecutive_timeouts (heap c a)"
    and "cooldown_calls_remaining (heap c' a) < 0"
    and "calls = failure_report R a (Suc (consecutive_failures (heap c a)))"
    and "nxt = Exec_end (Ended_result (of_failed a 0))"
proof -
  obtain out health where oc: "oc = (out, health)" by fastforce
  have "serial_call R a oc c =
      serve R a oc (count_failure R a 0
        (modify a (\<lambda>_. snd (should_skip_for_timeout_reason (heap c a))) c))"
    using serial_call_asked [OF assms(2), of R out health] assms(1)
    by (simp add: oc fails_method_done [of out health])
  also have "\<dots> = count_failure R a 0
        (modify a (\<lambda>_. snd (should_skip_for_timeout_reason (heap c a))) c)"
    by (simp add: count_failure_def Let_def)
  finally have eq: "(c', calls, nxt) = \<dots>" using assms(3) by simp
  have "\<not> fst (should_skip_for_timeout_reason (heap c a))" using assms(2) by (simp add: asked_def)
  note cool = should_skip_cooldown [OF this]
  from eq cool show "consecutive_failures (heap c' a) = Suc (consecutive_failures (heap c a))"
    and "consecutive_timeouts (heap c' a) = consecutive_timeouts (heap c a)"
    and "cooldown_calls_remaining (heap c' a) < 0"
    and "calls = failure_report R a (Suc (consecutive_failures (heap c a)))"
    and "nxt = Exec_end (Ended_result (of_failed a 0))"
    by (simp_all add: count_failure_def Let_def register_failure_def failure_report_def)
qed

lemma failures_in_a_row:
  "list_all fails ocs \<Longrightarrow> unpenalised (heap c a) \<Longrightarrow>
   snd (serial_calls R a ocs c) =
     map (failure_report R a)
       [Suc (consecutive_failures (heap c a))..<
        Suc (consecutive_failures (heap c a)) + length ocs] \<and>
   consecutive_failures (heap (fst (serial_calls R a ocs c)) a) =
     consecutive_failures (heap c a) + length ocs"
proof (induction ocs arbitrary: c)
  case (Cons oc ocs)
  obtain c' calls nxt where call: "serial_call R a oc c = (c', calls, nxt)"
    by (rule prod_cases3)
  have f: "fails oc" using Cons.prems(1) by simp
  note state = serial_failure [OF f unpenalised_asked [OF Cons.prems(2)] call]
  have "unpenalised (heap c' a)"
    using state(2,3) Cons.prems(2) by (simp add: unpenalised_def)
  with Cons.IH [of c'] Cons.prems(1) state(1,4) call
  show ?case
    using upt_from [of "Suc (consecutive_failures (heap c a))" "length ocs"]
    by (simp del: upt_Suc add: case_prod_beta)
qed simp

subsection \<open>Successes and unhealthy models\<close>

lemma serial_success:
  assumes "asked a c" and "serial_call R a (Inr (v, None), health) c = (c', calls, nxt)"
  shows "nxt = Exec_end (Ended_result (of_success a v 0))" and "calls = []"
    and "consecutive_failures (heap c' a) = 0" and "unpenalised (heap c' a)"
    and "cooldown_calls_remaining (heap c' a) < 0"
proof -
  have eq: "(c', calls, nxt) =
      (modify a (reset_timeouts \<circ> reset_failures)
         (modify a (\<lambda>_. snd (should_skip_for_timeout_reason (heap c a))) c), [],
       Exec_end (Ended_result (of_success a v 0)))"
    using assms by (simp add: serial_call_asked method_done_def)
  have "\<not> fst (should_skip_for_timeout_reason (heap c a))" using assms(1) by (simp add: asked_def)
  note cool = should_skip_cooldown [OF this]
  from eq cool show "nxt = Exec_end (Ended_result (of_success a v 0))" and "calls = []"
    and "consecutive_failures (heap c' a) = 0" and "unpenalised (heap c' a)"
    and "cooldown_calls_remaining (heap c' a) < 0"
    by (simp_all add: reset_timeouts_def reset_failures_def unpenalised_def)
qed

text \<open>
  A timeout at a multiple of the threshold, the model being unhealthy or unreachable for the health
  check: it is reconnected, and its counter does not move.
\<close>

definition unhealthy :: "bool result \<Rightarrow> bool" where
  "unhealthy health \<longleftrightarrow> (case health of Inr serving \<Rightarrow> \<not> serving | Inl e \<Rightarrow> is_Exception e)"

lemma serve_unhealthy:
  assumes "unhealthy health" and "0 < consecutive_timeouts (heap c a)"
    and "int (consecutive_timeouts (heap c a)) mod health_check_threshold R = 0"
  shows "serve R a (out, health) (timed_out R a t 0 c) = finish_timeout R a 0 False c"
  using assms
  by (cases health) (auto simp: timed_out_def Let_def unhealthy_def serve_def finish_timeout_def)

lemma serial_unhealthy:
  assumes "unanswered out"
    and "unhealthy health" and "0 < consecutive_timeouts (heap c a)"
    and "int (consecutive_timeouts (heap c a)) mod health_check_threshold R = 0"
    and "serial_call R a (out, health) c = (c', calls, nxt)"
  shows "calls = Reconnect a # timeout_report R a (consecutive_timeouts (heap c a))"
    and "consecutive_timeouts (heap c' a) = consecutive_timeouts (heap c a)"
    and "nxt = Exec_end (Ended_result (of_timeout a 0))"
proof -
  let ?c = "modify a (\<lambda>_. snd (should_skip_for_timeout_reason (heap c a))) c"
  have "serial_call R a (out, health) c =
      serve R a (out, health) (timed_out R a (effective_timeout R None) 0 ?c)"
    using serial_call_unasked [of a c R "(out, health)"] serial_call_asked [of a c R out health]
      times_out_method_done [OF assms(1)] by metis
  also have "\<dots> = finish_timeout R a 0 False ?c"
    by (rule serve_unhealthy) (use assms in simp_all)
  finally have eq: "(c', calls, nxt) = finish_timeout R a 0 False ?c" using assms(5) by simp
  then show "calls = Reconnect a # timeout_report R a (consecutive_timeouts (heap c a))"
    and "consecutive_timeouts (heap c' a) = consecutive_timeouts (heap c a)"
    and "nxt = Exec_end (Ended_result (of_timeout a 0))"
    by (simp_all add: finish_timeout_def timeout_report_def)
qed

end
