(* ===== verification/Cluster_Schedules.thy ===== *)
theory Cluster_Schedules
  imports Concurrent_Calls
begin

text \<open>
  Schedules of the cluster: a schedule names which task goes on next and what its await delivers,
  what the orchestrator says, and whatever else changes the cluster, and is executed. The executed
  schedules are exactly the runs of the step relation. Concrete behaviours are exhibited this way, and
  a schedule is the history of a run.
\<close>

datatype action =
    Begin nat conn_outcome
  | Wake nat conn_outcome awaited
  | Event json json
  | Gathered
  | Gather_raised nat
  | Spawn call
  | Count nat nat nat int
  | Socket websocket_client

definition put_task :: "'r system \<Rightarrow> nat \<Rightarrow> 'r cluster \<times> status \<Rightarrow> 'r system" where
  "put_task s i x = (case x of (c', st) \<Rightarrow> s\<lparr>cluster_of := c', tasks := (tasks s)[i := Task st]\<rparr>)"

fun spawnable :: "nat \<Rightarrow> call \<Rightarrow> bool" where
  "spawnable n (Report a code reason) = (a < n)"
| "spawnable n (Reconnect a) = (a < n)"
| "spawnable n _ = False"

fun gathers :: "handler \<Rightarrow> nat list" where
  "gathers (Idle prev) = []"
| "gathers (Gathering first ids) = ids"
| "gathers (Removing ids) = ids"

fun act ::
  "'a runner_scheme environment \<Rightarrow> 'a runner_scheme system \<Rightarrow> action \<Rightarrow>
   'a runner_scheme system option" where
  "act K s (Begin i conn) =
     (if i < length (tasks s)
      then (case tasks s ! i of
              Ready cl \<Rightarrow> Some (put_task s i (start K conn cl (cluster_of s)))
            | _ \<Rightarrow> None)
      else None)"
| "act K s (Wake i conn aw) =
     (if i < length (tasks s)
      then (case tasks s ! i of
              Task (Wait w fs) \<Rightarrow>
                (if accepts w aw
                 then Some (put_task s i (resume K conn aw (Wait w fs) (cluster_of s)))
                 else None)
            | _ \<Rightarrow> None)
      else None)"
| "act K s (Event event_type data) =
     (case (handler s, dispatch_event event_type) of
        (Idle prev, Some first) \<Rightarrow>
          (case update_plan K (cluster_of s) data of
             (c', Inr calls) \<Rightarrow>
               (case spawn calls (s\<lparr>cluster_of := c'\<rparr>) of
                  (s', ids) \<Rightarrow> Some (s'\<lparr>handler := Gathering (if first then Some data else None) ids\<rparr>))
           | (c', Inl e) \<Rightarrow> Some (s\<lparr>cluster_of := c', handler := Idle (Some e)\<rparr>))
      | _ \<Rightarrow> None)"
| "act K s Gathered =
     (case handler s of
        Gathering None ids \<Rightarrow>
          (if list_all (finished_ok (tasks s)) ids then Some (s\<lparr>handler := Idle None\<rparr>) else None)
      | Gathering (Some data) ids \<Rightarrow>
          (if list_all (finished_ok (tasks s)) ids
           then (case removal_plan (cluster_of s) data of
                   Inl e \<Rightarrow> Some (s\<lparr>handler := Idle (Some e)\<rparr>)
                 | Inr calls \<Rightarrow>
                     (case spawn calls s of (s', ids') \<Rightarrow> Some (s'\<lparr>handler := Removing ids'\<rparr>)))
           else None)
      | Removing ids \<Rightarrow>
          (if list_all (finished_ok (tasks s)) ids then Some (s\<lparr>handler := Idle None\<rparr>) else None)
      | Idle prev \<Rightarrow> None)"
| "act K s (Spawn cl) =
     (if spawnable (next_address (cluster_of s)) cl then Some (fst (spawn [cl] s)) else None)"
| "act K s (Gather_raised i) =
     (case (handler s, tasks s ! i) of
        (Idle prev, _) \<Rightarrow> None
      | (h, Task (Done (Raise e))) \<Rightarrow>
          (if i < length (tasks s) \<and> i \<in> set (gathers h) then Some (s\<lparr>handler := Idle (Some e)\<rparr>)
           else None)
      | _ \<Rightarrow> None)"
| "act K s (Count a failures timeouts cooldown) =
     (if a < next_address (cluster_of s)
      then Some (s\<lparr>cluster_of := modify a (set_counters failures timeouts cooldown) (cluster_of s)\<rparr>)
      else None)"
| "act K s (Socket w) = Some (s\<lparr>cluster_of := (cluster_of s)\<lparr>ws_client := w\<rparr>\<rparr>)"

fun schedule ::
  "'a runner_scheme environment \<Rightarrow> 'a runner_scheme system \<Rightarrow> action list \<Rightarrow>
   'a runner_scheme system option" where
  "schedule K s [] = Some s"
| "schedule K s (x # xs) = (case act K s x of None \<Rightarrow> None | Some s' \<Rightarrow> schedule K s' xs)"

lemma act_step: "act K s x = Some t \<Longrightarrow> system_step K s t"
proof (cases x)
  case (Begin i conn)
  moreover assume "act K s x = Some t"
  ultimately show ?thesis
    using system_step.begin_task [of i s _ K conn]
    by (auto simp: put_task_def split: if_splits task.splits prod.splits)
next
  case (Wake i conn aw)
  moreover assume "act K s x = Some t"
  ultimately show ?thesis
    using system_step.wake_task [of i s _ _ aw K conn]
    by (auto simp: put_task_def split: if_splits task.splits status.splits prod.splits)
next
  case (Event event_type data)
  assume a: "act K s x = Some t"
  obtain prev first where h: "handler s = Idle prev" and d: "dispatch_event event_type = Some first"
    using a Event by (auto split: handler.splits option.splits)
  obtain c' res where p: "update_plan K (cluster_of s) data = (c', res)" by fastforce
  show ?thesis
  proof (cases res)
    case (Inl e)
    then show ?thesis
      using a Event h d p system_step.event_raised [OF h, of K data c' e event_type first] by simp
  next
    case (Inr calls)
    obtain s' ids where "spawn calls (s\<lparr>cluster_of := c'\<rparr>) = (s', ids)" by fastforce
    then show ?thesis
      using a Event h d p Inr
        system_step.event_planned [OF h, of K data c' calls s' ids event_type first]
      by simp
  qed
next
  case Gathered
  moreover assume "act K s x = Some t"
  ultimately show ?thesis
    using system_step.update_gathered [of s _ K] system_step.removals_gathered [of s _ K]
      system_step.init_gathered [of s _ _ _ _ _ K] system_step.init_raised [of s _ _ _ K]
    by (auto split: handler.splits option.splits if_splits sum.splits prod.splits)
next
  case (Spawn cl)
  moreover assume "act K s x = Some t"
  ultimately show ?thesis
    by (cases cl) (auto split: if_splits intro: system_step.create_task)
next
  case (Gather_raised i)
  moreover assume "act K s x = Some t"
  ultimately show ?thesis
    using system_step.gather_raised [of s _ _ i _ K]
    by (auto split: handler.splits task.splits status.splits outcome.splits if_splits)
next
  case (Count a failures timeouts cooldown)
  moreover assume "act K s x = Some t"
  ultimately show ?thesis by (auto split: if_splits intro: system_step.call_in_flight)
next
  case (Socket w)
  moreover assume "act K s x = Some t"
  ultimately show ?thesis by (auto intro: system_step.socket_activity)
qed

lemma step_act:
  assumes "system_step K s t"
  obtains x where "act K s x = Some t"
  using assms
proof (cases rule: system_step.cases)
  case (begin_task i cl conn c' st)
  then show thesis by (intro that [of "Begin i conn"]) (simp add: put_task_def)
next
  case (wake_task i w fs aw conn c' st)
  then show thesis by (intro that [of "Wake i conn aw"]) (simp add: put_task_def)
next
  case (event_planned prev data c' calls s' ids event_type first)
  then show thesis by (intro that [of "Event event_type data"]) simp
next
  case (event_raised prev data c' e event_type first)
  then show thesis by (intro that [of "Event event_type data"]) simp
next
  case (init_gathered data ids calls s' ids')
  then show thesis by (intro that [of Gathered]) simp
next
  case (init_raised data ids e)
  then show thesis by (intro that [of Gathered]) simp
next
  case (gather_raised first ids i e)
  then show thesis by (intro that [of "Gather_raised i"]) (auto split: handler.split)
next
  case (create_task cl a code reason)
  then show thesis by (intro that [of "Spawn cl"]) auto
next
  case (call_in_flight a failures timeouts cooldown)
  then show thesis by (intro that [of "Count a failures timeouts cooldown"]) simp
next
  case (socket_activity w)
  then show thesis by (intro that [of "Socket w"]) simp
qed (use that [of Gathered] in simp)+

lemma schedule_reachable: "schedule K s xs = Some t \<Longrightarrow> reachable K s t"
proof (induction K s xs rule: schedule.induct)
  case (2 K s x xs)
  then obtain s' where "act K s x = Some s'" "schedule K s' xs = Some t"
    by (auto split: option.splits)
  then show ?case using 2 act_step converse_rtranclp_into_rtranclp by metis
qed simp

lemma schedule_append:
  "schedule K s (xs @ ys) = (case schedule K s xs of None \<Rightarrow> None | Some t \<Rightarrow> schedule K t ys)"
  by (induction K s xs rule: schedule.induct) (simp_all split: option.split)

lemma reachable_schedule:
  assumes "reachable K s t"
  obtains xs where "schedule K s xs = Some t"
proof -
  have "\<exists>xs. schedule K s xs = Some t"
    using assms
  proof (induction rule: rtranclp_induct)
    case base
    have "schedule K s [] = Some s" by simp
    then show ?case by blast
  next
    case (step t u)
    then obtain xs x where "schedule K s xs = Some t" "act K t x = Some u"
      using step_act by metis
    then have "schedule K s (xs @ [x]) = Some u" by (simp add: schedule_append)
    then show ?case by blast
  qed
  then show thesis using that by blast
qed

section \<open>The start\<close>

abbreviation start_of ::
  "dyn_runner \<Rightarrow> pystr \<Rightarrow> pystr \<Rightarrow> nat \<Rightarrow> bool \<Rightarrow> dyn_runner system" where
  "start_of blank crunch host prt report \<equiv>
     initial_system (new_cluster (\<lambda>_. blank) crunch host prt report)"

lemma initial_system_ok: "system_ok (start_of blank crunch host prt report)"
  by (simp add: system_ok_def initial_system_def new_cluster_def wf_cluster_def keyed_def
      pending_within_def)

lemma reachable_ok:
  "reachable (dyn_environment R F) (start_of blank crunch host prt report) s \<Longrightarrow> system_ok s"
  by (rule dyn.running.always [OF _ initial_system_ok])

section \<open>A sample cluster\<close>

definition sample_concurrent :: dyn_concurrent_runner where
  "sample_concurrent =
     \<lparr>call_timeout = 10, cr_host = lit ''orchestrator'', cr_port = 8000,
      max_consecutive_failures = 3, max_consecutive_timeout = 3, health_check_threshold = 1,
      cr_secure_credentials = None, cr_gateway_credentials = None,
      cr_base_classname = lit ''Base'', cr_instance_args = [], cr_instance_kwargs = []\<rparr>"

definition sample_secured :: dyn_concurrent_runner where
  "sample_secured =
     sample_concurrent\<lparr>cr_secure_credentials :=
       Some sample_credentials\<rparr>"

definition blank_runner :: dyn_runner where
  "blank_runner =
     \<lparr>deployment_id = JNull, model_id = JNull, model_name = JNull, ip = JNull, port = JNull,
      infos = JNull, retry_backoff_factor = 2, grpc_channel = None, grpc_health_channel = None,
      retry_attempts = 5, min_retry_interval = 2, closed = False, consecutive_failures = 0,
      consecutive_timeouts = 0, cooldown_calls_remaining = 0, secure_creds = None,
      gateway_creds = None, base_classname = [], instance_args = [], instance_kwargs = [],
      grpc_stub = None\<rparr>"

definition empty_cluster :: "dyn_runner cluster" where
  "empty_cluster =
     new_cluster (\<lambda>_. blank_runner) (lit ''bird-game'') (lit ''orchestrator'') 8000 True"

definition update_of :: "string \<Rightarrow> string \<Rightarrow> json" where
  "update_of mid state =
     JObj [(lit ''deployment_id'', jstr ''d1''), (lit ''model_id'', jstr mid),
           (lit ''infos'', JObj []), (lit ''state'', jstr state),
           (lit ''ip'', jstr ''10.0.0.1''), (lit ''port'', JInt 50051)]"

abbreviation sample_environment :: "dyn_runner environment" where
  "sample_environment \<equiv> dyn_environment sample_concurrent (\<lambda>_. [])"

abbreviation secured_environment :: "dyn_runner environment" where
  "secured_environment \<equiv> dyn_environment sample_secured (\<lambda>_. [])"

text \<open>Everything the evaluation of a schedule unfolds.\<close>

lemmas run_defs =
  put_task_def start_def resume_def begin_call_def deliver_def remove_begin_def remove_end_def
  add_begin_def add_init_def add_unpend_def add_enlist_def reconnect_rebuild_def find_model_def
  modify_def allocate_def update_plan_def plan_entry_def plan_new_def read_entry_def
  known_model_def dispatch_event_def spawn_def finished_ok_def initial_system_def drop_if_is_def
  init_begin_def start_attempt_def fetch_begin_def is_secure_def is_gateway_def connect_secure_channels_def
  connect_insecure_channels_def on_exception_def after_failure_def close_begin_def close_awaits_def
  dyn_environment_def create_model_runner_def new_dyn_runner_def new_runner_def setup_begin_def
  runner.defs dyn_runner.defs Let_def

lemmas sample_defs =
  sample_concurrent_def sample_secured_def blank_runner_def empty_cluster_def update_of_def
  new_cluster_def

text \<open>Connecting a model with TLS, every await succeeding.\<close>

definition connects :: "nat \<Rightarrow> action list" where
  "connects i =
     [Wake i Conn_ok Got_unit, Wake i Conn_ok Got_unit, Wake i Conn_ok Got_unit,
      Wake i Conn_ok (Got_setup True None)]"

text \<open>
  What the stories below are about: a task inside \<^verbatim>\<open>init\<close> of the object it has made to reconnect a
  model; turns of that task alone; and a system in which every task has ended without an exception
  and the handler has returned.
\<close>

definition reconnecting :: "'r system \<Rightarrow> nat \<Rightarrow> nat \<Rightarrow> bool" where
  "reconnecting s i a \<longleftrightarrow> i < length (tasks s) \<and>
     (\<exists>pc fs b. tasks s ! i = Task (Wait (On_init a pc) fs) \<and> Reconnect_guard b \<in> set fs)"

definition only_turns_of :: "nat \<Rightarrow> action list \<Rightarrow> bool" where
  "only_turns_of i acts \<longleftrightarrow> (\<forall>x\<in>set acts. \<exists>conn aw. x = Wake i conn aw)"

definition all_well :: "'r system \<Rightarrow> bool" where
  "all_well s \<longleftrightarrow> handler s = Idle None \<and> (\<forall>t\<in>set (tasks s). t = Task (Done Ok))"

text \<open>
  A model runs; an unhealthy health check makes the concurrent runner reconnect it; while the new
  object fetches the TLS key of the node, the orchestrator says that the model has stopped, and the
  event is handled to its end; then the connection succeeds.
\<close>

definition zombie_start :: "action list" where
  "zombie_start =
     [Event (jstr ''update'') (JArr [update_of ''m1'' ''RUNNING'']), Begin 0 Conn_ok] @ connects 0 @
     [Gathered, Spawn (Reconnect 0), Begin 1 Conn_ok, Wake 1 Conn_ok Got_unit]"

definition zombie_stop :: "action list" where
  "zombie_stop =
     [Event (jstr ''update'') (JArr [update_of ''m1'' ''STOPPED'']), Begin 2 Conn_ok, Gathered]"

lemma zombie_run:
  "case schedule secured_environment (initial_system empty_cluster) zombie_start of
     None \<Rightarrow> False
   | Some s0 \<Rightarrow> reconnecting s0 1 1 \<and> handler s0 = Idle None \<and>
       model_id (heap (cluster_of s0) 1) = jstr ''m1'' \<and>
       deployment_id (heap (cluster_of s0) 1) = jstr ''d1'' \<and>
       (case schedule secured_environment s0 zombie_stop of
          None \<Rightarrow> False
        | Some s1 \<Rightarrow> reconnecting s1 1 1 \<and> handler s1 = Idle None \<and> closed (heap (cluster_of s1) 1) \<and>
            models_run (cluster_of s1) = [] \<and> pending_model_runs (cluster_of s1) = [] \<and>
            (case schedule secured_environment s1 (connects 1) of
               None \<Rightarrow> False
             | Some s2 \<Rightarrow> all_well s2 \<and> models_run (cluster_of s2) = [(jstr ''m1'', 1)] \<and>
                 closed (heap (cluster_of s2) 1)))"
  by (simp add: zombie_start_def zombie_stop_def connects_def run_defs sample_defs reconnecting_def
      all_well_def)

end
