(* ===== verification/Cluster_Properties.thy ===== *)
theory Cluster_Properties
  imports Cluster_Schedules
begin

text \<open>
  The properties of the cluster of dynamic runners: what each event does to it, and what holds in
  every state that events, tasks and calls can reach in any interleaving.
\<close>

section \<open>Running a task to its end\<close>

text \<open>A coroutine whose first await, if it has one, delivers without an exception.\<close>

definition settle ::
  "'a runner_scheme environment \<Rightarrow> conn_outcome \<Rightarrow> 'a runner_scheme cluster \<times> status \<Rightarrow>
   'a runner_scheme cluster \<times> status" where
  "settle K conn x =
     (case x of
        (c, Wait w fs) \<Rightarrow> resume K conn Got_unit (Wait w fs) c
      | _ \<Rightarrow> x)"

definition closing :: "nat \<Rightarrow> 'a runner_scheme cluster \<Rightarrow> 'a runner_scheme cluster" where
  "closing a c = remove_end a (modify a close_begin c)"

lemma settle_remove:
  "settle K conn (start K conn (Remove a) c) = (closing a c, Done Ok)"
  by (simp add: settle_def start_def resume_def begin_call_def remove_begin_def deliver_def
      closing_def Let_def)

lemma closing_state:
  "models_run (closing a c) = drop_if_is (model_id (heap c a)) a (models_run c)"
  "pending_model_runs (closing a c) = drop_if_is (model_id (heap c a)) a (pending_model_runs c)"
  "closed (heap (closing a c) a)"
  "b \<noteq> a \<Longrightarrow> heap (closing a c) b = heap c b"
  "ws_client (closing a c) = ws_client c"
  "next_address (closing a c) = next_address c"
  by (simp_all add: closing_def remove_end_def Let_def close_begin_def)

lemma closing_unlisted: "wf_cluster c \<Longrightarrow> a < next_address c \<Longrightarrow> a \<notin> listed (closing a c)"
  unfolding closing_def
  by (rule remove_end_unlisted) (rule wf_evolves [OF close_op.modify_evolves], simp_all)

lemma update_plan_one:
  "update_plan K c (JArr [u]) =
     (case plan_entry K c u of
        (c', Inl e) \<Rightarrow> (c', Inl e)
      | (c', Inr task) \<Rightarrow> (c', Inr (case task of None \<Rightarrow> [] | Some t \<Rightarrow> [t])))"
  by (simp add: update_plan_def split: prod.split sum.split)

text \<open>An entry of an event, by its fields; the infos are a dictionary or missing.\<close>

definition entry_of :: "(pystr \<times> json) list \<Rightarrow> entry \<Rightarrow> bool" where
  "entry_of d e \<longleftrightarrow> read_entry (JObj d) = Inr e \<and> hashable (e_model_id e)"

definition sample_entry :: entry where
  "sample_entry =
     \<lparr>e_deployment_id = jstr ''d1'', e_model_id = jstr ''m1'', e_infos = JObj [],
      e_model_name = JNull, e_state = jstr ''STOPPED'', e_ip = jstr ''10.0.0.1'',
      e_port = JInt 50051\<rparr>"

definition fields_of :: "string \<Rightarrow> string \<Rightarrow> (pystr \<times> json) list" where
  "fields_of mid state = (case update_of mid state of JObj d \<Rightarrow> d | _ \<Rightarrow> [])"

text \<open>A cluster with one connected model, and the object of that model.\<close>

definition one_runner :: dyn_runner where
  "one_runner = blank_runner
     \<lparr>deployment_id := jstr ''d1'', model_id := jstr ''m1'', infos := JObj [],
      ip := jstr ''10.0.0.1'', port := JInt 50051, grpc_channel := Some 1,
      grpc_health_channel := Some 1, grpc_stub := Some 1, base_classname := lit ''Base''\<rparr>"

definition one_model :: "dyn_runner cluster" where
  "one_model = empty_cluster
     \<lparr>models_run := [(jstr ''m1'', 0)], heap := (\<lambda>_. one_runner), next_address := 1\<rparr>"

lemmas one_defs =
  one_model_def one_runner_def sample_entry_def fields_of_def sample_defs entry_of_def
  read_entry_def keyed_def

lemma wf_one_model: "wf_cluster one_model"
  by (auto simp: wf_cluster_def one_defs)

text \<open>What the factory builds is ready to connect, and a first attempt leads to an await.\<close>

lemma created_runner:
  assumes "create_model_runner R dep mid name addr prt info = Inr r"
  shows "identity r = (dep, mid, addr, prt)" and "model_id r = mid"
    and "consecutive_failures r = 0" and "consecutive_timeouts r = 0"
    and "\<exists>r' pc. init_begin Conn_ok r = (r', Await pc) \<and> identity r' = identity r \<and>
      consecutive_failures r' = 0 \<and> consecutive_timeouts r' = 0"
proof -
  have r: "identity r = (dep, mid, addr, prt)" "\<not> closed r" "retry_attempts r = 5"
    "consecutive_failures r = 0" "consecutive_timeouts r = 0"
    using assms by (auto simp: create_model_runner_def new_dyn_runner_def new_runner_def
        identity_def split: if_splits)
  then show "identity r = (dep, mid, addr, prt)" and "model_id r = mid"
    and "consecutive_failures r = 0" and "consecutive_timeouts r = 0"
    by (simp_all add: identity_def)
  show "\<exists>r' pc. init_begin Conn_ok r = (r', Await pc) \<and> identity r' = identity r \<and>
      consecutive_failures r' = 0 \<and> consecutive_timeouts r' = 0"
    using r by (simp add: init_begin_def start_attempt_def fetch_begin_def on_exception_def
        after_failure_def connect_gateway_channels_def
        connect_insecure_channels_def identity_def split: option.split)
qed

text \<open>Adding a fresh object whose id is not known: it becomes pending and waits inside \<^verbatim>\<open>init\<close>.\<close>

definition pending_fresh ::
  "'a runner_scheme cluster \<Rightarrow> 'a runner_scheme \<Rightarrow> json \<Rightarrow> 'a runner_scheme cluster" where
  "pending_fresh c r mid =
     c\<lparr>heap := (heap c)(next_address c := r), next_address := Suc (next_address c),
       pending_model_runs := AList.update mid (next_address c) (pending_model_runs c)\<rparr>"

lemma add_fresh:
  assumes "find_model c mid = None" and "model_id r = mid" and "init_begin Conn_ok r = (r', Await pc)"
  shows "drive K Conn_ok (add_begin (next_address c) fs (fst (allocate r c))) =
    (pending_fresh c r' mid,
     Wait (On_init (next_address c) pc) (After_init (next_address c) # fs))"
proof -
  have "find_model (fst (allocate r c)) mid = None"
    using assms(1) by (auto simp: find_model_def allocate_simps split: option.splits)
  then show ?thesis
    using assms(2,3)
    by (simp add: add_begin_def add_init_def Let_def allocate_simps)
       (simp add: allocate_def modify_def pending_fresh_def)
qed

section \<open>Events\<close>

text \<open>
  C34. An update that says a known model has stopped or is recovering removes it: the only coroutine
  to run closes the object and deletes its entries; once it is done no dictionary lists the object,
  every other model is listed as before, and no other object was touched.
\<close>

theorem stopped_model_removed:
  assumes "wf_cluster c" and "entry_of d e" and "find_model c (e_model_id e) = Some a"
    and "deployment_id (heap c a) = e_deployment_id e"
    and "e_state e = jstr ''STOPPED'' \<or> e_state e = jstr ''RECOVERING''"
  shows "update_plan K c (JArr [JObj d]) = (c, Inr [Remove a]) \<and>
    (\<exists>c'. settle K conn (start K conn (Remove a) c) = (c', Done Ok) \<and>
       closed (heap c' a) \<and> a \<notin> listed c' \<and>
       (\<forall>b. b \<noteq> a \<longrightarrow> heap c' b = heap c b) \<and>
       (\<forall>k. k \<noteq> e_model_id e \<longrightarrow>
          map_of (models_run c') k = map_of (models_run c) k \<and>
          map_of (pending_model_runs c') k = map_of (pending_model_runs c) k))"
proof -
  have a: "a < next_address c" and mid: "model_id (heap c a) = e_model_id e"
    using assms(1,3)
    by (auto simp: wf_cluster_def keyed_def find_model_def split: option.splits)
  have "plan_entry K c (JObj d) = (c, Inr (Some (Remove a)))"
    using assms(2-5) by (auto simp: plan_entry_def entry_of_def known_model_def)
  then have "update_plan K c (JArr [JObj d]) = (c, Inr [Remove a])" by (simp add: update_plan_one)
  moreover have "map_of (models_run (closing a c)) k = map_of (models_run c) k \<and>
      map_of (pending_model_runs (closing a c)) k = map_of (pending_model_runs c) k"
    if "k \<noteq> e_model_id e" for k
    using that by (simp add: closing_state mid drop_if_is_map_of)
  ultimately show ?thesis
    using settle_remove [of K conn a c] closing_state(3) [of a c] closing_state(4) [of _ a c]
      closing_unlisted [OF assms(1) a] by blast
qed

theorem stopped_model_removed_witness:
  "update_plan sample_environment one_model (JArr [JObj (fields_of ''m1'' ''STOPPED'')]) =
     (one_model, Inr [Remove 0]) \<and>
    (\<exists>c'. settle sample_environment Conn_ok (start sample_environment Conn_ok (Remove 0) one_model) =
         (c', Done Ok) \<and>
       closed (heap c' 0) \<and> 0 \<notin> listed c' \<and>
       (\<forall>b. b \<noteq> 0 \<longrightarrow> heap c' b = heap one_model b) \<and>
       (\<forall>k. k \<noteq> e_model_id sample_entry \<longrightarrow>
          map_of (models_run c') k = map_of (models_run one_model) k \<and>
          map_of (pending_model_runs c') k = map_of (pending_model_runs one_model) k))"
  by (rule stopped_model_removed [OF wf_one_model])
     (simp_all add: one_defs find_model_def)

text \<open>
  An update about another deployment of a model does not stop the one that runs: nothing
  changes and no coroutine is created.
\<close>

theorem other_deployment_ignored:
  assumes "entry_of d e" and "find_model c (e_model_id e) = Some a"
    and "deployment_id (heap c a) \<noteq> e_deployment_id e"
    and "e_state e \<noteq> jstr ''RUNNING''"
  shows "update_plan K c (JArr [JObj d]) = (c, Inr [])"
proof -
  have "plan_entry K c (JObj d) = (c, Inr None)"
    using assms by (auto simp: plan_entry_def entry_of_def known_model_def)
  then show ?thesis by (simp add: update_plan_one)
qed

theorem other_deployment_ignored_witness:
  "update_plan sample_environment
     (one_model\<lparr>heap := (\<lambda>_. one_runner\<lparr>deployment_id := jstr ''d0''\<rparr>)\<rparr>)
     (JArr [JObj (fields_of ''m1'' ''STOPPED'')]) =
   (one_model\<lparr>heap := (\<lambda>_. one_runner\<lparr>deployment_id := jstr ''d0''\<rparr>)\<rparr>, Inr [])"
  by (rule other_deployment_ignored [where e = sample_entry and a = 0])
     (simp_all add: one_defs find_model_def)

text \<open>
  An update that says a running model still runs at its address refreshes its infos and its name
  in place: no coroutine is created, and nothing else of the cluster or of the object changes.
\<close>

theorem running_model_refreshed:
  assumes "entry_of d e" and "map_of (models_run c) (e_model_id e) = Some a"
    and "deployment_id (heap c a) = e_deployment_id e" and "ip (heap c a) = e_ip e"
    and "port (heap c a) = e_port e" and "e_state e = jstr ''RUNNING''"
  shows "update_plan K c (JArr [JObj d]) =
    (c\<lparr>heap := (heap c)(a := (heap c a)\<lparr>infos := e_infos e, model_name := e_model_name e\<rparr>)\<rparr>, Inr [])"
proof -
  have "plan_entry K c (JObj d) = (modify a (set_infos (e_infos e) (e_model_name e)) c, Inr None)"
    using assms by (simp add: plan_entry_def entry_of_def known_model_def find_model_def)
  then show ?thesis by (simp add: update_plan_one modify_def set_infos_def)
qed

theorem running_model_refreshed_witness:
  "update_plan sample_environment one_model (JArr [JObj (fields_of ''m1'' ''RUNNING'')]) =
    (one_model\<lparr>heap := (heap one_model)(0 := (heap one_model 0)\<lparr>infos := JObj [], model_name := JNull\<rparr>)\<rparr>,
     Inr [])"
  using running_model_refreshed
    [of "fields_of ''m1'' ''RUNNING''" "sample_entry\<lparr>e_state := jstr ''RUNNING''\<rparr>" one_model 0]
  by (simp add: one_defs)

text \<open>
  An update about a model that is neither running nor pending builds one object for it, with the
  identity the update gives, and one coroutine; once that coroutine has opened the channels or
  awaits the TLS key, the object is the pending one of its model id and waits inside \<^verbatim>\<open>init\<close>.
\<close>

theorem new_model_pending:
  assumes "wf_cluster c" and "entry_of d e" and "find_model c (e_model_id e) = None"
    and "e_state e = jstr ''RUNNING''"
    and "create_model_runner R (e_deployment_id e) (e_model_id e) (e_model_name e) (e_ip e)
      (e_port e) (e_infos e) = Inr r"
  shows "\<exists>c1. update_plan (dyn_environment R F) c (JArr [JObj d]) = (c1, Inr [Add (next_address c)]) \<and>
    (\<exists>c2 pc. start (dyn_environment R F) Conn_ok (Add (next_address c)) c1 =
         (c2, Wait (On_init (next_address c) pc) [After_init (next_address c)]) \<and>
       map_of (pending_model_runs c2) =
         (map_of (pending_model_runs c))(e_model_id e \<mapsto> next_address c) \<and>
       models_run c2 = models_run c \<and>
       identity (heap c2 (next_address c)) = (e_deployment_id e, e_model_id e, e_ip e, e_port e))"
proof -
  let ?K = "dyn_environment R F" and ?n = "next_address c"
  let ?c1 = "fst (allocate r c)"
  note r = created_runner [OF assms(5)]
  have "plan_entry ?K c (JObj d) = (?c1, Inr (Some (Add ?n)))"
    using assms(2-5)
    by (simp add: plan_entry_def entry_of_def known_model_def plan_new_def dyn_environment_def
        allocate_def)
  then have plan: "update_plan ?K c (JArr [JObj d]) = (?c1, Inr [Add ?n])" by (simp add: update_plan_one)
  obtain r' pc where begun: "init_begin Conn_ok r = (r', Await pc)" and "identity r' = identity r"
    using r(5) by blast
  then have "start ?K Conn_ok (Add ?n) ?c1 =
      (pending_fresh c r' (e_model_id e), Wait (On_init ?n pc) [After_init ?n])"
    using add_fresh [OF assms(3) r(2) begun, of ?K "[]"]
    by (simp add: start_def begin_call_def)
  then show ?thesis
    using plan r(1) \<open>identity r' = identity r\<close> by (simp add: pending_fresh_def AList.update_conv')
qed

theorem new_model_pending_witness:
  "\<exists>c1. update_plan sample_environment empty_cluster (JArr [JObj (fields_of ''m1'' ''RUNNING'')]) =
      (c1, Inr [Add (next_address empty_cluster)]) \<and>
    (\<exists>c2 pc. start sample_environment Conn_ok (Add (next_address empty_cluster)) c1 =
         (c2, Wait (On_init (next_address empty_cluster) pc) [After_init (next_address empty_cluster)]) \<and>
       map_of (pending_model_runs c2) = (map_of (pending_model_runs empty_cluster))
         (e_model_id (sample_entry\<lparr>e_state := jstr ''RUNNING''\<rparr>) \<mapsto> next_address empty_cluster) \<and>
       models_run c2 = models_run empty_cluster \<and>
       identity (heap c2 (next_address empty_cluster)) =
         (e_deployment_id (sample_entry\<lparr>e_state := jstr ''RUNNING''\<rparr>),
          e_model_id (sample_entry\<lparr>e_state := jstr ''RUNNING''\<rparr>),
          e_ip (sample_entry\<lparr>e_state := jstr ''RUNNING''\<rparr>),
          e_port (sample_entry\<lparr>e_state := jstr ''RUNNING''\<rparr>)))"
  by (rule new_model_pending)
     (simp_all add: one_defs find_model_def wf_cluster_def create_model_runner_def
       new_dyn_runner_def new_runner_def)

text \<open>
  When \<^verbatim>\<open>init\<close> of a pending model succeeds, the model is put into service: its id maps to the
  new object, it is not pending any more, and the other models are as before.
\<close>

theorem initialised_model_enlisted:
  assumes "init_resume setup_begin conn (heap c a) pc aw = (r, Returned True err)"
  shows "\<exists>c'. resume (dyn_environment R F) conn aw (Wait (On_init a pc) [After_init a]) c =
      (c', Done Ok) \<and> heap c' a = r \<and>
    map_of (models_run c') = (map_of (models_run c))(model_id (heap c a) \<mapsto> a) \<and>
    map_of (pending_model_runs c') (model_id (heap c a)) \<noteq> Some a \<and>
    (\<forall>k. k \<noteq> model_id (heap c a) \<longrightarrow>
       map_of (pending_model_runs c') k = map_of (pending_model_runs c) k)"
proof -
  have mid: "model_id r = model_id (heap c a)"
    using dyn_setup.resumed.model_id_kept [of conn "heap c a" pc aw] assms by simp
  let ?c = "add_enlist a (add_unpend a (modify a (\<lambda>_. r) c))"
  have "resume (dyn_environment R F) conn aw (Wait (On_init a pc) [After_init a]) c = (?c, Done Ok)"
    using assms by (simp add: resume_def deliver_def dyn_environment_def)
  then show ?thesis
    using mid
    by (auto simp: add_enlist_def add_unpend_def AList.update_conv' drop_if_is_other
        dest: drop_if_is_gone [THEN notE])
qed

theorem initialised_model_enlisted_witness:
  "\<exists>c'. resume sample_environment Conn_ok (Got_setup True None)
      (Wait (On_init 0 (At_setup 1)) [After_init 0])
      (one_model\<lparr>models_run := [], pending_model_runs := [(jstr ''m1'', 0)]\<rparr>) = (c', Done Ok) \<and>
    heap c' 0 = one_runner \<and>
    map_of (models_run c') =
      (map_of (models_run (one_model\<lparr>models_run := [], pending_model_runs := [(jstr ''m1'', 0)]\<rparr>)))
      (model_id (heap (one_model\<lparr>models_run := [], pending_model_runs := [(jstr ''m1'', 0)]\<rparr>) 0) \<mapsto> 0) \<and>
    map_of (pending_model_runs c')
      (model_id (heap (one_model\<lparr>models_run := [], pending_model_runs := [(jstr ''m1'', 0)]\<rparr>) 0)) \<noteq> Some 0 \<and>
    (\<forall>k. k \<noteq> model_id (heap (one_model\<lparr>models_run := [], pending_model_runs := [(jstr ''m1'', 0)]\<rparr>) 0) \<longrightarrow>
       map_of (pending_model_runs c') k =
       map_of (pending_model_runs (one_model\<lparr>models_run := [], pending_model_runs := [(jstr ''m1'', 0)]\<rparr>)) k)"
  by (rule initialised_model_enlisted [where err = None]) (simp add: one_model_def)

text \<open>The failure code that stands for an error of \<^verbatim>\<open>init\<close>.\<close>

definition failure_code :: "error_type option \<Rightarrow> pystr" where
  "failure_code err =
     (if err = Some BAD_IMPLEMENTATION then lit ''BAD_IMPLEMENTATION''
      else if err = Some GRPC_CONNECTION_FAILED \<or> err = Some AUTH_ERROR
      then lit ''CONNECTION_FAILED'' else lit ''MULTIPLE_FAILED'')"

lemma storable_report:
  "storable F P (model_id r) \<Longrightarrow> storable F P (ip r) \<Longrightarrow>
   storable F P (failure_message r (failure_code err) JNull)"
  by (auto simp: failure_message_def failure_code_def lit_def high_surrogate_def)

text \<open>
  C35. When \<^verbatim>\<open>init\<close> of a pending model fails for good, the object is closed and listed nowhere,
  and the orchestrator is told why: with no connection the report waits at the end of the queue, and
  its text, read as JSON, is the report with the code that stands for the error.
\<close>

theorem failed_model_reported:
  assumes "wf_cluster c" and "a < next_address c"
    and "init_resume setup_begin conn (heap c a) pc aw = (r, Returned False err)"
    and "err \<noteq> Some ABORTED" and "report_failure c" and "\<not> is_connected (ws_client c)"
    and "storable F P (model_id r)" and "storable F P (ip r)"
  shows "\<exists>c' message. settle (dyn_environment R F) conn'
      (resume (dyn_environment R F) conn aw (Wait (On_init a pc) [After_init a]) c) = (c', Done Ok) \<and>
    a \<notin> listed c' \<and> closed (heap c' a) \<and>
    message_queue (ws_client c') =
      message_queue (ws_client c) @ [message] \<and>
    loads P message = Inr (failure_message r (failure_code err) JNull)"
proof -
  let ?K = "dyn_environment R F"
  let ?c1 = "add_unpend a (modify a (\<lambda>_. r) c)"
  let ?m = "json_text F (lit '', '') (lit '': '') (failure_message r (failure_code err) JNull)"
  let ?c2 = "?c1\<lparr>ws_client := enqueue (ws_client c) ?m\<rparr>"
  have K: "setup_prefix ?K = setup_begin" "dumps ?K = json_text F (lit '', '') (lit '': '')" by (simp_all add: dyn_environment_def)
  have c1: "heap ?c1 a = r" "ws_client ?c1 = ws_client c" "report_failure ?c1 = report_failure c"
    by (simp_all add: add_unpend_def)
  have report: "report_begin ?K a (failure_code err) JNull [] ?c1 = (?c2, Run Ok [After_send a])"
    using assms(5,6) by (simp add: report_begin_def send_message_begin_def K c1)
  have failed: "add_failed ?K a err [] ?c1 = (?c2, Run Ok [After_send a])"
    using report assms(4) by (auto simp: add_failed_def failure_code_def)
  have "resume ?K conn aw (Wait (On_init a pc) [After_init a]) c =
      drive ?K conn (remove_begin a [] ?c2)"
    using assms(3) failed by (simp add: resume_def deliver_def K)
  then have settled: "settle ?K conn' (resume ?K conn aw (Wait (On_init a pc) [After_init a]) c) =
      (closing a ?c2, Done Ok)"
    by (simp add: settle_def remove_begin_def Let_def resume_def deliver_def closing_def)
  have "identity r = identity (heap c a)" and "closed (heap c a) \<Longrightarrow> closed r"
    using dyn_setup.resumed.identity_kept [of conn "heap c a" pc aw]
      dyn_setup.resumed.closed_kept [of "heap c a" conn pc aw] assms(3) by simp_all
  then have "wf_cluster (modify a (\<lambda>_. r) c)"
    using assms(1) by (intro wf_evolves [OF evolves_modify]) simp_all
  then have "wf_cluster ?c2"
    by (simp add: wf_cluster_def add_unpend_def keyed_drop drop_if_is_ok)
  moreover have "a < next_address ?c2" using assms(2) by (simp add: add_unpend_def)
  ultimately have "a \<notin> listed (closing a ?c2)" by (rule closing_unlisted)
  moreover have "closed (heap (closing a ?c2) a)" by (rule closing_state)
  moreover have "ws_client (closing a ?c2) = enqueue (ws_client c) ?m" by (simp add: closing_state)
  moreover have "storable F P (failure_message r (failure_code err) JNull)"
    using assms(7,8) by (rule storable_report)
  then have "loads P ?m = Inr (failure_message r (failure_code err) JNull)"
    by (rule loads_json_text(1))
  ultimately show ?thesis using settled by (simp add: enqueue_def)
qed

theorem failed_model_reported_witness:
  "\<exists>c' message. settle sample_environment Conn_ok
      (resume sample_environment Conn_ok (Got_setup False (Some BAD_IMPLEMENTATION))
        (Wait (On_init 0 (At_setup 1)) [After_init 0]) one_model) = (c', Done Ok) \<and>
    0 \<notin> listed c' \<and> closed (heap c' 0) \<and>
    message_queue (ws_client c') = message_queue (ws_client one_model) @ [message] \<and>
    loads (\<lambda>_. 0) message =
      Inr (failure_message one_runner (failure_code (Some BAD_IMPLEMENTATION)) JNull)"
  by (rule failed_model_reported [OF wf_one_model, where err = "Some BAD_IMPLEMENTATION"])
     (simp_all add: one_defs is_connected_def new_websocket_client_def lit_def high_surrogate_def)

text \<open>
  After the updates of an \<^verbatim>\<open>init\<close> event have been applied, exactly the running models that the
  event does not name are removed.
\<close>

theorem init_event_prunes:
  assumes "wf_cluster c" and "data_model_ids us = Inr ids"
  shows "\<exists>calls. removal_plan c (JArr us) = Inr calls \<and>
    (\<forall>cl. cl \<in> set calls \<longleftrightarrow>
       (\<exists>mid a. cl = Remove a \<and> map_of (models_run c) mid = Some a \<and> mid \<notin> set ids))"
proof -
  have "distinct_keys (models_run c)" using assms(1) by (simp add: wf_cluster_def)
  then show ?thesis using assms(2) by (force simp: removal_plan_def)
qed

theorem init_event_prunes_witness:
  "\<exists>calls. removal_plan one_model (JArr [JObj (fields_of ''m2'' ''RUNNING'')]) = Inr calls \<and>
    (\<forall>cl. cl \<in> set calls \<longleftrightarrow>
       (\<exists>mid a. cl = Remove a \<and> map_of (models_run one_model) mid = Some a \<and> mid \<notin> set [jstr ''m2'']))"
  by (rule init_event_prunes [OF wf_one_model]) (simp add: fields_of_def update_of_def)

lemma reconnect_after_closing:
  assumes "model_id (heap c a) = mid"
    and "create_model_runner R (deployment_id (heap c a)) mid (model_name (heap c a)) (ip (heap c a))
      (port (heap c a)) (infos (heap c a)) = Inr r"
  shows "reconnect_rebuild (dyn_environment R F) a fs (closing a c) =
    add_begin (next_address c) fs (fst (allocate r (closing a c)))"
proof -
  have "deployment_id (heap (closing a c) a) = deployment_id (heap c a)"
    "model_id (heap (closing a c) a) = mid" "model_name (heap (closing a c) a) = model_name (heap c a)"
    "ip (heap (closing a c) a) = ip (heap c a)" "port (heap (closing a c) a) = port (heap c a)"
    "infos (heap (closing a c) a) = infos (heap c a)"
    by (simp_all add: closing_def remove_end_def Let_def close_begin_def assms(1))
  then show ?thesis
    using assms(2)
    by (simp add: reconnect_rebuild_def dyn_environment_def Let_def allocate_def closing_state)
qed

text \<open>
  Reconnecting a running model closes its object and starts afresh: a new object with the same
  identity, name and infos and clean counters is the pending one of that id, inside \<^verbatim>\<open>init\<close>, and
  the old object is listed nowhere.
\<close>

theorem reconnect_starts_afresh:
  assumes "wf_cluster c" and "map_of (models_run c) mid = Some a"
    and "map_of (pending_model_runs c) mid = None" and "close_awaits (heap c a)"
    and "create_model_runner R (deployment_id (heap c a)) mid (model_name (heap c a)) (ip (heap c a))
      (port (heap c a)) (infos (heap c a)) = Inr r"
  shows "\<exists>c' pc. settle (dyn_environment R F) Conn_ok
      (start (dyn_environment R F) Conn_ok (Reconnect a) c) =
      (c', Wait (On_init (next_address c) pc) [After_init (next_address c), Reconnect_guard a]) \<and>
    closed (heap c' a) \<and> a \<notin> listed c' \<and>
    map_of (pending_model_runs c') mid = Some (next_address c) \<and>
    identity (heap c' (next_address c)) = identity (heap c a) \<and>
    consecutive_failures (heap c' (next_address c)) = 0 \<and>
    consecutive_timeouts (heap c' (next_address c)) = 0"
proof -
  let ?K = "dyn_environment R F" and ?n = "next_address c"
  have a: "a < ?n" and mid: "model_id (heap c a) = mid"
    using assms(1,2) by (auto simp: wf_cluster_def keyed_def)
  note r = created_runner [OF assms(5)]
  obtain r' pc where begun: "init_begin Conn_ok r = (r', Await pc)" and same: "identity r' = identity r"
    and counters: "consecutive_failures r' = 0" "consecutive_timeouts r' = 0"
    using r(5) by blast
  let ?c' = "pending_fresh (closing a c) r' mid"
  have "find_model (closing a c) mid = None"
    using assms(2,3) by (simp add: find_model_def closing_state mid drop_if_is_map_of)
  from add_fresh [OF this r(2) begun, of ?K "[Reconnect_guard a]"]
  have drives: "drive ?K Conn_ok (closing a c, Run Ok [After_reconnect_remove a, Reconnect_guard a]) =
      (?c', Wait (On_init ?n pc) [After_init ?n, Reconnect_guard a])"
    using reconnect_after_closing [OF mid assms(5)] by (simp add: closing_state)
  have "close_awaits (heap (modify a close_begin c) a)"
    using assms(4) by (simp add: close_awaits_def close_begin_def)
  then have "settle ?K Conn_ok (start ?K Conn_ok (Reconnect a) c) =
      (?c', Wait (On_init ?n pc) [After_init ?n, Reconnect_guard a])"
    using drives
    by (simp add: settle_def start_def begin_call_def remove_begin_def Let_def resume_def deliver_def
        closing_def)
  moreover have "closed (heap ?c' a)"
    using a closing_state(3) [of a c] by (simp add: pending_fresh_def closing_state)
  moreover have "a \<notin> listed ?c'"
    using closing_unlisted [OF assms(1) a] a
    by (auto simp: listed_def ran_def pending_fresh_def closing_state py_dict_simps split: if_splits)
  moreover have "identity r' = identity (heap c a)" using same r(1) mid by (simp add: identity_def)
  ultimately show ?thesis
    using counters by (simp add: pending_fresh_def closing_state py_dict_simps)
qed

theorem reconnect_starts_afresh_witness:
  "\<exists>c' pc. settle sample_environment Conn_ok
      (start sample_environment Conn_ok (Reconnect 0) one_model) =
      (c', Wait (On_init (next_address one_model) pc)
         [After_init (next_address one_model), Reconnect_guard 0]) \<and>
    closed (heap c' 0) \<and> 0 \<notin> listed c' \<and>
    map_of (pending_model_runs c') (jstr ''m1'') = Some (next_address one_model) \<and>
    identity (heap c' (next_address one_model)) = identity (heap one_model 0) \<and>
    consecutive_failures (heap c' (next_address one_model)) = 0 \<and>
    consecutive_timeouts (heap c' (next_address one_model)) = 0"
  by (rule reconnect_starts_afresh [OF wf_one_model])
     (simp_all add: one_defs close_awaits_def create_model_runner_def new_dyn_runner_def
       new_runner_def)

end
