(* ===== verification/Call_Properties.thy ===== *)
theory Call_Properties
  imports Cluster_Properties
begin

text \<open>
  The properties of calls: what travels over the wire, what one call does to the bookkeeping of its
  model, when the limits take effect, and what the dictionary of results holds.
\<close>

section \<open>Values on the wire\<close>

definition sample_libraries :: "(unit, unit) libraries" where
  "sample_libraries =
     \<lparr>from_pandas = Inr, write_table = (\<lambda>_. Inr []), read_table = (\<lambda>_. Inr ()),
      to_pandas = Inr, float_repr = (\<lambda>_. lit ''0.5''), parse_float = (\<lambda>_. 4602678819172646912),
      little_endian = True\<rparr>"

text \<open>
  C20. Decoding undoes encoding: a value that its type carries (a float, a 64-bit integer, a string
  without surrogates, \<^verbatim>\<open>None\<close>, a JSON value, and whatever the library gives back of a data
  frame) encodes without an exception, and the bytes decode to the same value. A JSON value is carried if
  its strings split no surrogate pair, its integers have at most 4300 digits, and its doubles are
  written as numerals that read back.
\<close>

theorem wire_roundtrip:
  "carries L t v \<Longrightarrow> \<exists>bs. encode_data L t v = Inr bs \<and> decode_data L bs t = Inr v"
  using wire.enc_total [of L t v] wire.dec_enc [of L t v] by blast

theorem wire_roundtrip_witness:
  "\<exists>bs. encode_data sample_libraries VT_JSON (Plain (JObj [(lit ''a'', JArr [JInt (- 7), jstr ''b''])])) =
      Inr bs \<and>
     decode_data sample_libraries bs VT_JSON =
      Inr (Plain (JObj [(lit ''a'', JArr [JInt (- 7), jstr ''b''])]))"
  by (rule wire_roundtrip) (simp add: lit_def high_surrogate_def digits.simps)

text \<open>
  A value sent with the type \<^verbatim>\<open>detect_data_type\<close> finds for it comes back as itself when that
  type carries it; a \<^verbatim>\<open>bool\<close> is detected as an integer and comes back as 0 or 1, and an Arrow
  table, which could be encoded, has no detected type.
\<close>

theorem detected_transport:
  "(\<forall>v t. detect_data_type v = Inr t \<and> carries L t v \<longrightarrow> transport L v = Inr v) \<and>
   transport L (Plain (JBool b)) = Inr (Plain (JInt (of_bool b))) \<and>
   (\<exists>message. transport L (Table tbl) = Inl (ValueError message))"
proof -
  have "transport L v = Inr v" if "detect_data_type v = Inr t" and "carries L t v" for v t
    using wire.through [OF that(2)] that(1) by (simp add: transport_def)
  moreover have "int_to_bytes 8 (of_bool b) = Inr (le_bytes 8 (of_bool b))"
    by (simp add: int_to_bytes_def)
  ultimately show ?thesis
    using int_from_to_bytes [of 8 "of_bool b"] by (auto simp: transport_def)
qed

theorem detected_transport_witness:
  "transport sample_libraries (Plain (JStr (lit ''up''))) = Inr (Plain (JStr (lit ''up'')))"
  using detected_transport [of sample_libraries True "()"]
  by (auto simp: lit_def scalar_def)

text \<open>
  An integer is encoded exactly if it fits 64 bits with sign; any other raises
  \<^verbatim>\<open>OverflowError\<close>.
\<close>

theorem int_encoding_range:
  "(case encode_data L VT_INT (Plain (JInt i)) of
      Inl e \<Rightarrow> e = OverflowError \<and> (i < - (2 ^ 63) \<or> 2 ^ 63 \<le> i)
    | Inr bs \<Rightarrow> - (2 ^ 63) \<le> i \<and> i < 2 ^ 63 \<and> length bs = 8 \<and> int_from_bytes bs = i)"
  using int_from_to_bytes [of 8 i "le_bytes 8 i"] by (auto simp: int_to_bytes_def)

text \<open>
  Bytes that do not decode raise a \<^verbatim>\<open>ValueError\<close>, which the caller counts as a failure of
  the model, with one exception: a double of the wrong length raises \<^verbatim>\<open>struct.error\<close>, which is
  not one. (Parquet is read by a library.)
\<close>

theorem decode_errors:
  assumes "decode_data L bs t = Inl e" and "t \<noteq> VT_PARQUET"
  shows "if t = VT_DOUBLE then length bs \<noteq> 8 \<and> e = StructError else is_ValueError e"
proof (cases t)
  case VT_JSON
  then show ?thesis
    using assms loads_errors
    by (fastforce simp: utf8_decode_def bind_result_def split: sum.splits option.splits if_splits)
qed (use assms(1,2) in \<open>auto simp: unpack_double_def utf8_decode_def bind_result_def
      split: if_splits option.splits sum.splits\<close>)

theorem decode_errors_witness:
  "if VT_DOUBLE = VT_DOUBLE then length ([1, 2] :: bytes) \<noteq> 8 \<and> StructError = StructError
   else is_ValueError StructError"
  by (rule decode_errors [where L = sample_libraries])
     (auto simp: unpack_double_def sample_libraries_def split: if_splits)

section \<open>One call\<close>

text \<open>
  C29. The value a model's method returned is the value the coordinator gets: encoded with a type that
  carries it and sent with \<^verbatim>\<open>SUCCESS\<close>, it is the result of the call, and the failure and timeout
  counters of that model, and of no other, are back at zero.
\<close>

theorem call_delivers_value:
  assumes "carries L t v" and "encode_data L t v = Inr bs" and "status_code st = lit ''SUCCESS''"
    and "exec_resume R a (At_method q tmo) (Method_outcome x (call_end L
      (Inr (Some \<lparr>call_status = st, method_response = \<lparr>v_type = t, v_value = bs\<rparr>\<rparr>)))) c =
      (c', calls, nxt)"
  shows "nxt = Exec_end (Ended_result \<lparr>model_runner = a, result = Some v, predict_status = SUCCESS,
      exec_time_us = x\<rparr>) \<and> calls = [] \<and>
    consecutive_failures (heap c' a) = 0 \<and> consecutive_timeouts (heap c' a) = 0 \<and>
    (\<forall>b. b \<noteq> a \<longrightarrow> heap c' b = heap c b)"
  using assms(4) call_end_value [OF assms(1-3)]
  by (auto simp: method_done_def of_success_def reset_failures_def reset_timeouts_def)

theorem call_delivers_value_witness:
  "\<exists>c'. exec_resume sample_concurrent 0 (At_method () 10) (Method_outcome 5 (call_end sample_libraries
      (Inr (Some \<lparr>call_status = \<lparr>status_code = lit ''SUCCESS'', status_message = []\<rparr>,
         method_response = \<lparr>v_type = VT_INT, v_value = le_bytes 8 7\<rparr>\<rparr>)))) one_model =
      (c', [], Exec_end (Ended_result \<lparr>model_runner = 0, result = Some (Plain (JInt 7)),
         predict_status = SUCCESS, exec_time_us = 5\<rparr>)) \<and>
    consecutive_failures (heap c' 0) = 0 \<and> consecutive_timeouts (heap c' 0) = 0"
proof -
  obtain c' calls nxt where call: "exec_resume sample_concurrent 0 (At_method () 10)
      (Method_outcome 5 (call_end sample_libraries
        (Inr (Some \<lparr>call_status = \<lparr>status_code = lit ''SUCCESS'', status_message = []\<rparr>,
           method_response = \<lparr>v_type = VT_INT, v_value = le_bytes 8 7\<rparr>\<rparr>)))) one_model = (c', calls, nxt)"
    by (rule prod_cases3)
  from call_delivers_value [OF _ _ _ call, of "Plain (JInt 7)"] call show ?thesis
    by (simp add: int_to_bytes_def)
qed

text \<open>
  A malformed answer counts as a failure of the model, except a malformed double: the model is
  reported as failed for this call, but its failure counter does not move, so such a model is never
  stopped.
\<close>

theorem malformed_double_uncounted:
  assumes "status_code st = lit ''SUCCESS''" and "length bs \<noteq> 8"
  shows "exec_resume R a (At_method q tmo) (Method_outcome x (call_end L
      (Inr (Some \<lparr>call_status = st, method_response = \<lparr>v_type = VT_DOUBLE, v_value = bs\<rparr>\<rparr>)))) c =
    (c, [], Exec_end (Ended_result (of_failed a x)))"
  using assms by (simp add: call_end_def unpack_double_def method_done_def except_clause_def)

theorem malformed_double_uncounted_witness:
  "exec_resume sample_concurrent 0 (At_method () 10) (Method_outcome 5 (call_end sample_libraries
      (Inr (Some \<lparr>call_status = \<lparr>status_code = lit ''SUCCESS'', status_message = []\<rparr>,
         method_response = \<lparr>v_type = VT_DOUBLE, v_value = [0, 0]\<rparr>\<rparr>)))) one_model =
    (one_model, [], Exec_end (Ended_result (of_failed 0 5)))"
  by (rule malformed_double_uncounted) simp_all

section \<open>The limits\<close>

text \<open>
  C17. Failures in a row. A model starts with no timeout on record and no cooldown, and each call that
  follows is answered by it with an error other than a bad implementation, or with something whose
  decoding raises a \<^verbatim>\<open>ValueError\<close>. (A bad implementation is reported at once, and other exceptions of
  decoding give a failed result that is not counted.) Then every such call adds one to the failure
  counter, and the calls that bring it above \<^verbatim>\<open>max_consecutive_failures\<close>, and only those, create the task
  that reports \<^verbatim>\<open>MULTIPLE_FAILED\<close> and removes the model; a limit of 0 disables the report.
\<close>

theorem failures_limit:
  assumes "list_all fails ocs" and "unpenalised (heap c a)"
  shows "consecutive_failures (heap (fst (serial_calls R a ocs c)) a) =
      consecutive_failures (heap c a) + length ocs \<and>
    snd (serial_calls R a ocs c) = map (\<lambda>n.
      if max_consecutive_failures R \<noteq> 0 \<and> int n > max_consecutive_failures R
      then [Report a (lit ''MULTIPLE_FAILED'') JNull] else [])
      [Suc (consecutive_failures (heap c a))..<
       Suc (consecutive_failures (heap c a)) + length ocs]"
  using failures_in_a_row [OF assms, of R] by (simp add: failure_report_def [abs_def] del: upt_Suc)

definition failing :: "unit call_outcome" where
  "failing = (Inl UnicodeDecodeError, Inr True)"

theorem failures_limit_witness:
  "consecutive_failures (heap (fst (serial_calls sample_concurrent 0 (replicate 4 failing) one_model)) 0) =
      consecutive_failures (heap one_model 0) + length (replicate 4 failing) \<and>
    snd (serial_calls sample_concurrent 0 (replicate 4 failing) one_model) = map (\<lambda>n.
      if max_consecutive_failures sample_concurrent \<noteq> 0 \<and>
         int n > max_consecutive_failures sample_concurrent
      then [Report 0 (lit ''MULTIPLE_FAILED'') JNull] else [])
      [Suc (consecutive_failures (heap one_model 0))..<
       Suc (consecutive_failures (heap one_model 0)) + length (replicate 4 failing)]"
  by (rule failures_limit)
     (simp_all add: failing_def fails_def unpenalised_def one_defs list_all_iff)

text \<open>
  C16. Timeouts in a row. Each of a sequence of calls would find the model without an answer in time,
  or with a gRPC error, and each health check that is made finds it serving. (If it does not, the model
  is reconnected and the call is not counted.) Then every call adds one to the timeout counter, whether it reached the model or was skipped to let it breathe, and the calls that bring it
  above \<^verbatim>\<open>max_consecutive_timeouts\<close>, and only those, create the task that reports
  \<^verbatim>\<open>MULTIPLE_TIMEOUT\<close> and removes the model.
\<close>

theorem timeouts_limit:
  assumes "list_all times_out ocs" and "grpc_health_channel (heap c a) \<noteq> None"
  shows "consecutive_timeouts (heap (fst (serial_calls R a ocs c)) a) =
      consecutive_timeouts (heap c a) + length ocs \<and>
    snd (serial_calls R a ocs c) = map (\<lambda>n.
      if max_consecutive_timeout R \<noteq> 0 \<and> int n > max_consecutive_timeout R
      then [Report a (lit ''MULTIPLE_TIMEOUT'') JNull] else [])
      [Suc (consecutive_timeouts (heap c a))..<
       Suc (consecutive_timeouts (heap c a)) + length ocs]"
  using timeouts_in_a_row [OF assms, of R] by (simp add: timeout_report_def [abs_def] del: upt_Suc)

definition late :: "unit call_outcome" where
  "late = (Inl TimeoutError, Inr True)"

lemma times_out_late [simp]: "times_out late"
  by (simp add: late_def times_out_def unanswered_def)

theorem timeouts_limit_witness:
  "consecutive_timeouts (heap (fst (serial_calls sample_concurrent 0 (replicate 5 late) one_model)) 0) =
      consecutive_timeouts (heap one_model 0) + length (replicate 5 late) \<and>
    snd (serial_calls sample_concurrent 0 (replicate 5 late) one_model) = map (\<lambda>n.
      if max_consecutive_timeout sample_concurrent \<noteq> 0 \<and>
         int n > max_consecutive_timeout sample_concurrent
      then [Report 0 (lit ''MULTIPLE_TIMEOUT'') JNull] else [])
      [Suc (consecutive_timeouts (heap one_model 0))..<
       Suc (consecutive_timeouts (heap one_model 0)) + length (replicate 5 late)]"
  by (rule timeouts_limit) (simp_all add: one_defs list_all_iff)

text \<open>
  With the default limit of three timeouts, two unanswered calls stop a model: of four calls in a
  row to a model that does not answer in time only the first and the third reach it, the others are
  skipped but count as well, and the fourth creates the report.
\<close>

theorem two_timeouts_suffice:
  assumes "max_consecutive_timeout R = 3" and "consecutive_timeouts (heap c a) = 0"
    and "cooldown_calls_remaining (heap c a) = 0" and "grpc_health_channel (heap c a) \<noteq> None"
    and "list_all times_out ocs" and "length ocs = 4"
  shows "asked_in R a ocs c = [True, False, True, False] \<and>
    snd (serial_calls R a ocs c) = [[], [], [], [Report a (lit ''MULTIPLE_TIMEOUT'') JNull]]"
proof -
  have "skip_decisions (heap c a) [0, 1, 2, 3] = [False, True, False, True]"
    using assms(3) by (simp add: should_skip_for_timeout_reason_def ceil_half_def Let_def)
  moreover have "[0..<4] = [0, 1, 2, 3::nat]" and "[1..<5] = [1, 2, 3, 4::nat]"
    by (simp_all add: upt_rec)
  ultimately show ?thesis
    using asked_in_timeouts [OF assms(5,4), of R] timeouts_in_a_row [OF assms(5,4), of R] assms(1,2,6)
    by (simp add: timeout_report_def del: upt_Suc)
qed

theorem two_timeouts_suffice_witness:
  "asked_in sample_concurrent 0 (replicate 4 late) one_model = [True, False, True, False] \<and>
   snd (serial_calls sample_concurrent 0 (replicate 4 late) one_model) =
     [[], [], [], [Report 0 (lit ''MULTIPLE_TIMEOUT'') JNull]]"
  by (rule two_timeouts_suffice) (simp_all add: one_defs list_all_iff)

text \<open>
  A success wipes the slate clean: when a call that reaches the model succeeds, both counters are
  at zero, no task is created, and the next call reaches the model.
\<close>

theorem success_clears_penalties:
  assumes "asked a c" and "serial_call R a (Inr (v, None), health) c = (c', calls, nxt)"
  shows "nxt = Exec_end (Ended_result (of_success a v 0)) \<and> calls = [] \<and>
    consecutive_failures (heap c' a) = 0 \<and> consecutive_timeouts (heap c' a) = 0 \<and> asked a c'"
  using serial_success [OF assms] unpenalised_asked [of c' a] by (simp add: unpenalised_def)

definition after_three_failures :: "dyn_runner cluster" where
  "after_three_failures = one_model\<lparr>heap := (\<lambda>_. one_runner\<lparr>consecutive_failures := 3,
     consecutive_timeouts := 1, cooldown_calls_remaining := 0\<rparr>)\<rparr>"

theorem success_clears_penalties_witness:
  "\<exists>c'. serial_call sample_concurrent 0 (Inr ((), None), Inr True) after_three_failures =
      (c', [], Exec_end (Ended_result (of_success 0 () 0))) \<and>
    consecutive_failures (heap c' 0) = 0 \<and> consecutive_timeouts (heap c' 0) = 0 \<and> asked 0 c'"
proof -
  obtain c' calls nxt where call:
    "serial_call sample_concurrent 0 (Inr ((), None), Inr True) after_three_failures = (c', calls, nxt)"
    by (rule prod_cases3)
  have "asked 0 after_three_failures"
    by (simp add: asked_def after_three_failures_def should_skip_for_timeout_reason_def)
  from success_clears_penalties [OF this call] call show ?thesis by auto
qed

text \<open>
  C37. An unanswered call at a multiple of the health-check threshold, the model not serving: the model
  is reconnected instead of being penalised.
\<close>

theorem unhealthy_reconnected:
  assumes "unanswered out" and "unhealthy health" and "0 < consecutive_timeouts (heap c a)"
    and "int (consecutive_timeouts (heap c a)) mod health_check_threshold R = 0"
    and "int (consecutive_timeouts (heap c a)) \<le> max_consecutive_timeout R"
    and "serial_call R a (out, health) c = (c', calls, nxt)"
  shows "calls = [Reconnect a] \<and> consecutive_timeouts (heap c' a) = consecutive_timeouts (heap c a) \<and>
    nxt = Exec_end (Ended_result (of_timeout a 0))"
  using serial_unhealthy [OF assms(1-4,6)] assms(5) by (simp add: timeout_report_def)

theorem unhealthy_reconnected_witness:
  "\<exists>c'. serial_call sample_concurrent 0 (Inl TimeoutError :: (unit \<times> error_type option) result, Inr False)
      after_three_failures = (c', [Reconnect 0], Exec_end (Ended_result (of_timeout 0 0))) \<and>
    consecutive_timeouts (heap c' 0) = consecutive_timeouts (heap after_three_failures 0)"
proof -
  obtain c' calls nxt where call: "serial_call sample_concurrent 0
      (Inl TimeoutError :: (unit \<times> error_type option) result, Inr False) after_three_failures =
      (c', calls, nxt)"
    by (rule prod_cases3)
  have "calls = [Reconnect 0] \<and>
      consecutive_timeouts (heap c' 0) = consecutive_timeouts (heap after_three_failures 0) \<and>
      nxt = Exec_end (Ended_result (of_timeout 0 0))"
    by (rule unhealthy_reconnected [OF _ _ _ _ _ call])
       (simp_all add: unanswered_def unhealthy_def after_three_failures_def sample_concurrent_def)
  then show ?thesis using call by blast
qed

text \<open>
  C31. The health-check threshold is a fifth of the timeout limit, rounded down, and at least 1: the
  product with the double \<open>0.2\<close>, which is a little above a fifth, never rounds it up to the next
  integer for a limit below \<open>2 ^ 50\<close>.
\<close>

theorem health_threshold_is_fifth:
  assumes "0 \<le> n" and "n < 2 ^ 50"
  shows "health_threshold n = Inr (max 1 (n div 5))"
proof -
  have nat: "nat n < 2 ^ 50" using assms by simp
  then have r: "round53 (nat n) = nat n" by (intro round53_small) simp
  have "\<not> 2 ^ 1024 \<le> nat n" using nat power_increasing [of 50 1024 "2::nat"] by simp
  moreover have "sgn n * int (nat n div 5) = n div 5"
    using assms by (cases "n = 0") (simp_all add: zdiv_int)
  ultimately show ?thesis
    using assms fifth_rounded [OF nat] r by (simp add: health_threshold_def Let_def del: power_numeral)
qed

theorem health_threshold_is_fifth_witness: "health_threshold 35 = Inr (max 1 (35 div 5))"
  by (rule health_threshold_is_fifth) simp_all

end
