(* ===== verification/Runner_Properties.thy ===== *)
theory Runner_Properties
  imports Dynamic_Subclass_Runner
begin

text \<open>
  The properties of one runner: its connection procedure \<^verbatim>\<open>init\<close>, with the hook of the dynamic
  subclass, and its cooldown. The witnesses run a sample model.
\<close>

section \<open>A sample model\<close>

definition sample_runner :: dyn_runner where
  "sample_runner =
     \<lparr>deployment_id = jstr ''d1'', model_id = jstr ''m1'', model_name = jstr ''alpha'',
      ip = jstr ''10.0.0.1'', port = JInt 50051, infos = JObj [], retry_backoff_factor = 2,
      grpc_channel = None, grpc_health_channel = None, retry_attempts = 5,
      min_retry_interval = 2, closed = False, consecutive_failures = 0,
      consecutive_timeouts = 0, cooldown_calls_remaining = 0, secure_creds = None,
      gateway_creds = None, base_classname = lit ''Base'', instance_args = [],
      instance_kwargs = [], grpc_stub = None\<rparr>"

lemma sample_runner_built:
  "new_dyn_runner (lit ''Base'') [] [] None None (jstr ''d1'') (jstr ''m1'') (jstr ''alpha'')
     (jstr ''10.0.0.1'') (JInt 50051) (JObj []) = Inr sample_runner"
  by (simp add: new_dyn_runner_def new_runner_def sample_runner_def dyn_runner.defs runner.defs)

definition sample_success :: rpc_status where
  "sample_success = \<lparr>status_code = lit ''SUCCESS'', status_message = []\<rparr>"

lemma sample_setup: "setup_outcome (Inr sample_success) = Got_setup True None"
  by (simp add: setup_outcome_def sample_success_def)

text \<open>An unreachable model node without TLS: no channel ever gets ready, every probe says no.\<close>

definition unreachable :: "init_event list" where
  "unreachable =
     [Deliver Conn_ok (Got_exn TimeoutError), Deliver Conn_ok (Got_bool False),
      Deliver Conn_ok Got_unit]"

definition sample_secure :: dyn_runner where
  "sample_secure = sample_runner\<lparr>secure_creds := Some sample_credentials\<rparr>"

lemmas run_sample =
  sample_runner_def sample_secure_def unreachable_def init_begin_def start_attempt_def fetch_begin_def
  is_secure_def is_gateway_def connect_insecure_channels_def connect_secure_channels_def
  on_exception_def after_failure_def setup_begin_def backoff_time_def seconds_slept_def

section \<open>Properties\<close>

text \<open>
  C12. \<^verbatim>\<open>init\<close> always comes to an end: after at most six deliveries per attempt (30 for the five
  attempts of every runner) it has returned or raised, whatever its awaits deliver and whenever the
  runner is closed.
\<close>

theorem init_terminates:
  assumes "well_answered setup_begin (init_begin conn r) evs"
    and "6 * retry_attempts r \<le> deliveries evs"
  shows "\<not> suspended (snd (run_init setup_begin (init_begin conn r) evs))"
proof -
  obtain r' nxt where b: "init_begin conn r = (r', nxt)" by fastforce
  show ?thesis
  proof (cases nxt)
    case (Await pc)
    have "1 \<le> retry_attempts r" and "remaining (retry_attempts r) pc \<le> 6 * (retry_attempts r - 1) + 6"
      using start_attempt_remaining [of conn r 1 r' pc] b Await by (simp_all add: init_begin_def)
    moreover have "retry_attempts r' = retry_attempts r"
      using init_begin_op.retry_attempts_kept [of conn r] b by simp
    ultimately show ?thesis
      using dyn_setup.run_init_finishes [of r' pc evs] assms b Await by simp
  qed (use b in simp_all)
qed

theorem init_terminates_witness:
  "\<not> suspended (snd (run_init setup_begin (init_begin Conn_ok sample_runner)
     (concat (replicate 10 unreachable))))"
  by (rule init_terminates) (simp_all add: run_sample numeral_eq_Suc)

text \<open>
  C38. Between its attempts a runner sleeps at most 30 seconds in total, whatever happens: the
  exponential backoff is bounded by the five attempts.
\<close>

theorem init_backoff_bounded:
  assumes "new_dyn_runner base args kwargs sec gw dep mid name addr prt info = Inr r"
    and "well_answered setup_begin (init_begin conn r) evs"
  shows "(\<Sum>q \<leftarrow> init_awaits setup_begin (init_begin conn r) evs. seconds_slept r q) \<le> 30"
proof -
  have r: "retry_attempts r = 5" "retry_backoff_factor r = 2"
    using assms(1) by (auto simp: new_dyn_runner_def new_runner_def split: if_splits)
  have "{1..<5::nat} = {1, 2, 3, 4}" by auto
  then have "backoff_budget r 1 = 30" using r by (simp add: backoff_time_def)
  then show ?thesis using dyn_setup.init_total_backoff [OF assms(2)] r by simp
qed

theorem init_backoff_bounded_witness:
  "(\<Sum>q \<leftarrow> init_awaits setup_begin (init_begin Conn_ok sample_runner)
      (concat (replicate 5 unreachable)). seconds_slept sample_runner q) \<le> 30"
  by (rule init_backoff_bounded [OF sample_runner_built]) (simp add: run_sample numeral_eq_Suc)

text \<open>
  \<^verbatim>\<open>init\<close> reports a model as unreachable only after all its attempts: it has slept after
  attempts 1, 2, 3 and 4, in that order. (The remote \<^verbatim>\<open>setup\<close> never answers with that error.)
\<close>

theorem init_gives_up_last:
  assumes "new_dyn_runner base args kwargs sec gw dep mid name addr prt info = Inr r"
    and "well_answered setup_begin (init_begin conn r) evs"
    and "run_init setup_begin (init_begin conn r) evs =
      (r', Returned False (Some GRPC_CONNECTION_FAILED))"
    and "\<And>conn' b err. Deliver conn' (Got_setup b err) \<in> set evs \<Longrightarrow>
      \<exists>response. setup_outcome response = Got_setup b err"
  shows "map attempt_of (filter is_backoff (init_awaits setup_begin (init_begin conn r) evs)) =
    [1, 2, 3, 4]"
proof -
  have r: "retry_attempts r = 5" "\<not> closed r"
    using assms(1) by (auto simp: new_dyn_runner_def new_runner_def split: if_splits)
  obtain r1 nxt where b: "init_begin conn r = (r1, nxt)" by fastforce
  have never: "setup_outcome response \<noteq> Got_setup b' (Some GRPC_CONNECTION_FAILED)" for response b'
    by (cases response) (simp_all add: setup_outcome_def)
  then have fresh: "\<forall>conn' b'. Deliver conn' (Got_setup b' (Some GRPC_CONNECTION_FAILED)) \<notin> set evs"
    using assms(4) by metis
  show ?thesis
  proof (cases nxt)
    case (Await pc)
    have "attempt_of pc = 1" and "backoff_ok (retry_attempts r) pc"
      using start_attempt_attempt [of conn r 1 r1 pc] b Await by (simp_all add: init_begin_def)
    moreover have "retry_attempts r1 = retry_attempts r"
      using init_begin_op.retry_attempts_kept [of conn r] b by simp
    ultimately have "map attempt_of (filter is_backoff (init_awaits setup_begin (r1, Await pc) evs)) =
        [1..<5]"
      using dyn_setup.gives_up_after_all_attempts [of r1 pc evs r'] assms(2,3) fresh b Await r by simp
    also have "[1..<5] = [1, 2, 3, 4::nat]" by (simp add: upt_rec)
    finally show ?thesis using b Await by simp
  next
    case (Returned b' err)
    then have "err \<noteq> Some GRPC_CONNECTION_FAILED"
      using start_attempt_Returned [of conn r 1 r1 b' err] b r by (auto simp: init_begin_def)
    then show ?thesis using assms(3) b Returned by simp
  qed (use assms(3) b in simp_all)
qed

theorem init_gives_up_last_witness:
  "map attempt_of (filter is_backoff
     (init_awaits setup_begin (init_begin Conn_ok sample_runner)
        (concat (replicate 5 unreachable)))) = [1, 2, 3, 4]"
  by (rule init_gives_up_last [OF sample_runner_built,
        where r' = "sample_runner\<lparr>grpc_channel := Some 5, grpc_health_channel := Some 5\<rparr>"])
     (simp_all add: run_sample numeral_eq_Suc)

text \<open>
  A runner is reported as initialised only on the word of the model node: some answer to
  \<^verbatim>\<open>Setup\<close> had the code \<^verbatim>\<open>SUCCESS\<close>, and no error comes with the report.
\<close>

theorem init_success_from_setup:
  assumes "run_init setup_begin (init_begin conn r) evs = (r', Returned True err)"
    and "\<And>conn' b e. Deliver conn' (Got_setup b e) \<in> set evs \<Longrightarrow>
      \<exists>response. setup_outcome response = Got_setup b e"
  shows "err = None \<and>
    (\<exists>conn' st. Deliver conn' (setup_outcome (Inr st)) \<in> set evs \<and> status_code st = lit ''SUCCESS'')"
proof -
  obtain r1 nxt where b: "init_begin conn r = (r1, nxt)" by fastforce
  have "\<exists>conn'. Deliver conn' (Got_setup True err) \<in> set evs"
  proof (cases nxt)
    case (Await pc)
    then show ?thesis using run_init_True [of setup_begin r1 pc evs r' err] assms(1) b by simp
  next
    case (Returned b' err')
    then show ?thesis
      using start_attempt_Returned [of conn r 1 r1 b' err'] assms(1) b by (simp add: init_begin_def)
  qed (use assms(1) b in simp_all)
  then obtain conn' response where d: "Deliver conn' (Got_setup True err) \<in> set evs"
    and out: "setup_outcome response = Got_setup True err"
    using assms(2) by blast
  from out obtain st where "response = Inr st" "status_code st = lit ''SUCCESS''" "err = None"
    by (auto simp: setup_outcome_def split: sum.splits if_splits)
  then show ?thesis using d out by metis
qed

theorem init_success_from_setup_witness:
  "(None :: error_type option) = None \<and>
   (\<exists>conn' st. Deliver conn' (setup_outcome (Inr st)) \<in>
      set [Deliver Conn_ok Got_unit, Deliver Conn_ok Got_unit,
        Deliver Conn_ok (setup_outcome (Inr sample_success))] \<and> status_code st = lit ''SUCCESS'')"
  by (rule init_success_from_setup
        [where conn = Conn_ok and r = sample_runner and
          r' = "sample_runner\<lparr>grpc_channel := Some 1, grpc_health_channel := Some 1, grpc_stub := Some 1\<rparr>"])
     (auto simp: run_sample sample_setup intro: sample_setup)

text \<open>
  A runner closed before an attempt starts aborts there: \<^verbatim>\<open>init\<close> opens no channel and
  returns \<^verbatim>\<open>ABORTED\<close>, at its beginning and after every backoff.
\<close>

theorem closed_aborts:
  assumes "closed r" and "1 \<le> n" and "n < retry_attempts r"
  shows "init_begin conn r = (r, Returned False (Some ABORTED)) \<and>
    init_resume setup_begin conn r (At_backoff n) Got_unit = (r, Returned False (Some ABORTED))"
  using assms by (simp add: init_begin_def start_attempt_def fetch_begin_def)

theorem closed_aborts_witness:
  "init_begin Conn_ok (close_begin sample_runner) =
     (close_begin sample_runner, Returned False (Some ABORTED)) \<and>
   init_resume setup_begin Conn_ok (close_begin sample_runner) (At_backoff 4) Got_unit =
     (close_begin sample_runner, Returned False (Some ABORTED))"
  by (rule closed_aborts) (simp_all add: close_begin_def sample_runner_def)

text \<open>
  But a runner closed inside an attempt is not noticed: while the TLS key of the node is being
  fetched there is no channel that \<^verbatim>\<open>close\<close> could close, and if the rest of the attempt succeeds
  \<^verbatim>\<open>init\<close> reports the closed runner as initialised.
\<close>

theorem late_close_unnoticed:
  assumes "secure_creds r = Some creds" and "tls_ctx creds = Some ctx"
    and "\<not> closed r" and "1 \<le> retry_attempts r" and "infos r = JObj kvs"
    and "status_code st = lit ''SUCCESS''"
    and "run_init setup_begin (init_begin conn r)
      [Close_requested, Deliver Conn_ok Got_unit, Deliver Conn_ok Got_unit, Deliver Conn_ok Got_unit,
       Deliver Conn_ok (setup_outcome (Inr st))] = (r', nxt)"
  shows "nxt = Returned True None \<and> closed r'"
proof -
  let ?r = "close_begin r\<lparr>grpc_channel := Some 1, grpc_health_channel := Some 1\<rparr>"
  have "connect_secure_channels Conn_ok 1 (close_begin r) = (?r, None)"
    using assms(5) by (simp add: connect_secure_channels_def close_begin_def)
  then have "(r', nxt) = (setup_begin ?r, Returned True None)"
    using assms(1-4,6,7)
    by (simp add: init_begin_def start_attempt_def fetch_begin_def is_secure_def setup_outcome_def)
  then show ?thesis by (simp add: setup_begin_def close_begin_def)
qed

theorem late_close_unnoticed_witness:
  "Returned True None = Returned True None \<and>
   closed (sample_secure\<lparr>closed := True, grpc_channel := Some 1, grpc_health_channel := Some 1,
     grpc_stub := Some 1\<rparr>)"
  by (rule late_close_unnoticed [where r = sample_secure and st = sample_success and conn = Conn_ok
        and kvs = "[]" and creds = sample_credentials and ctx = "verifying [] [] []"])
     (simp_all add: run_sample sample_setup close_begin_def, simp add: sample_success_def)

text \<open>
  C39. Credentials made by the constructor instead of from files have no TLS context, and that shows
  only when a model is connected: every attempt raises \<^verbatim>\<open>AttributeError\<close> before the probe, is taken
  for a problem of the connection and retried after the usual pause, and the model is reported as
  unreachable. Nothing was ever sent to it.
\<close>

theorem bare_credentials_never_connect:
  assumes "secure_creds r = Some (new_secure_credentials ca crt key)" and "\<not> closed r"
    and "1 \<le> n" and "n \<le> retry_attempts r"
  shows "run_init hook (start_attempt conn r n)
      (replicate (retry_attempts r - n) (Deliver conn Got_unit)) =
    (r, Returned False (Some GRPC_CONNECTION_FAILED))"
  using assms(3,4)
proof (induction "retry_attempts r - n" arbitrary: n)
  case 0
  then show ?case
    using assms(1,2)
    by (simp add: start_attempt_def fetch_begin_def is_secure_def new_secure_credentials_def
        on_exception_def after_failure_def)
next
  case (Suc k)
  then have "run_init hook (start_attempt conn r (Suc n))
      (replicate k (Deliver conn Got_unit)) = (r, Returned False (Some GRPC_CONNECTION_FAILED))"
    by (metis Suc.hyps(1) Suc_diff_Suc Suc_leI diff_Suc_1 le_SucI zero_less_Suc zero_less_diff)
  moreover have "start_attempt conn r n = (r, Await (At_backoff n))"
    using Suc.hyps(2) assms(1,2)
    by (simp add: start_attempt_def fetch_begin_def is_secure_def new_secure_credentials_def
        on_exception_def after_failure_def)
  ultimately show ?case by (simp flip: Suc.hyps(2))
qed

theorem bare_credentials_never_connect_witness:
  "run_init setup_begin
     (start_attempt Conn_ok
        (sample_runner\<lparr>secure_creds := Some (new_secure_credentials [] [] [])\<rparr>) 1)
     (replicate
        (retry_attempts (sample_runner\<lparr>secure_creds := Some (new_secure_credentials [] [] [])\<rparr>) - 1)
        (Deliver Conn_ok Got_unit)) =
   (sample_runner\<lparr>secure_creds := Some (new_secure_credentials [] [] [])\<rparr>,
    Returned False (Some GRPC_CONNECTION_FAILED))"
  by (rule bare_credentials_never_connect) (simp_all add: sample_runner_def)

text \<open>
  C36. The pause after timeouts is exact: consulted with \<open>t > 0\<close> timeouts on record and no cooldown
  running, a runner skips that call and the following ones up to \<^verbatim>\<open>ceil(t / 2)\<close> in all, however
  the counter moves meanwhile, and then lets one call through.
\<close>

theorem cooldown_pause_exact:
  assumes "0 < t" and "cooldown_calls_remaining r < 0" and "length ts = (t + 1) div 2"
  shows "skip_decisions r (t # ts) = replicate ((t + 1) div 2) True @ [False]"
proof -
  obtain k where k: "(t + 1) div 2 = Suc k" using assms(1) by (cases "(t + 1) div 2") auto
  have "skip_decisions
      (r\<lparr>consecutive_timeouts := t, cooldown_calls_remaining := int k\<rparr>) ts =
      replicate k True @ [False]"
    by (rule skip_decisions_cooling) (use assms k in simp_all)
  moreover have "should_skip_for_timeout_reason (r\<lparr>consecutive_timeouts := t\<rparr>) =
      (True, r\<lparr>consecutive_timeouts := t, cooldown_calls_remaining := int k\<rparr>)"
    using assms k by (simp add: should_skip_for_timeout_reason_def Let_def ceil_half_def)
  ultimately show ?thesis using k by simp
qed

theorem cooldown_pause_exact_witness:
  "skip_decisions (sample_runner\<lparr>cooldown_calls_remaining := - 1\<rparr>) (3 # [4, 5]) =
     replicate ((3 + 1) div 2) True @ [False]"
  by (rule cooldown_pause_exact) simp_all

end
