(* ===== verification/Base64.thy ===== *)
theory Base64
  imports Prelude
begin

text \<open>
  \<^verbatim>\<open>base64.b64encode\<close> and \<^verbatim>\<open>base64.b64decode\<close> as the security modules use them, without
  validation: characters outside the alphabet are skipped, and decoding stops at the first complete
  padding. The decoder is the loop of the standard library, over the state (characters of the
  current quad read, bits left over, padding characters in a row).
\<close>

section \<open>The alphabet\<close>

definition b64_char :: "nat \<Rightarrow> nat" where
  "b64_char v =
     (if v < 26 then 65 + v
      else if v < 52 then 71 + v
      else if v < 62 then v - 4
      else if v = 62 then 43 else 47)"

definition b64_value :: "nat \<Rightarrow> nat option" where
  "b64_value c =
     (if 65 \<le> c \<and> c \<le> 90 then Some (c - 65)
      else if 97 \<le> c \<and> c \<le> 122 then Some (c - 71)
      else if 48 \<le> c \<and> c \<le> 57 then Some (c + 4)
      else if c = 43 then Some 62
      else if c = 47 then Some 63
      else None)"

lemma b64_value_char [simp]: "v < 64 \<Longrightarrow> b64_value (b64_char v) = Some v"
  by (auto simp: b64_value_def b64_char_def)

lemma b64_char_ascii: "v < 64 \<Longrightarrow> b64_char v < 128 \<and> b64_char v \<noteq> 61"
  by (auto simp: b64_char_def)

section \<open>Encoding\<close>

fun b64_encode_nats :: "nat list \<Rightarrow> pystr" where
  "b64_encode_nats [] = []"
| "b64_encode_nats [a] = [b64_char (a div 4), b64_char (a mod 4 * 16), 61, 61]"
| "b64_encode_nats [a, b] =
     [b64_char (a div 4), b64_char (a mod 4 * 16 + b div 16), b64_char (b mod 16 * 4), 61]"
| "b64_encode_nats (a # b # c # r) =
     b64_char (a div 4) # b64_char (a mod 4 * 16 + b div 16) #
     b64_char (b mod 16 * 4 + c div 64) # b64_char (c mod 64) # b64_encode_nats r"

definition b64encode :: "bytes \<Rightarrow> pystr" where
  "b64encode bs = b64_encode_nats (map unat bs)"

section \<open>Decoding\<close>

fun b64_scan :: "nat \<Rightarrow> nat \<Rightarrow> nat \<Rightarrow> pystr \<Rightarrow> nat list result" where
  "b64_scan quad left pads [] =
     (if quad = 0 then Inr []
      else if quad = 1
      then Inl (ValueError (lit ''Invalid base64-encoded string''))
      else Inl (ValueError (lit ''Incorrect padding'')))"
| "b64_scan quad left pads (c # cs) =
     (if c = 61
      then (if 2 \<le> quad
            then (if 4 \<le> quad + Suc pads then Inr [] else b64_scan quad left (Suc pads) cs)
            else b64_scan quad left pads cs)
      else case b64_value c of
             None \<Rightarrow> b64_scan quad left pads cs
           | Some v \<Rightarrow>
               (if quad = 0 then b64_scan 1 v 0 cs
                else if quad = 1
                then map_sum (\<lambda>e. e) (Cons (left * 4 + v div 16)) (b64_scan 2 (v mod 16) 0 cs)
                else if quad = 2
                then map_sum (\<lambda>e. e) (Cons (left * 16 + v div 4)) (b64_scan 3 (v mod 4) 0 cs)
                else map_sum (\<lambda>e. e) (Cons (left * 64 + v)) (b64_scan 0 0 0 cs)))"

definition b64decode :: "pystr \<Rightarrow> bytes result" where
  "b64decode s =
     (if list_all (\<lambda>c. c < 128) s then map_sum (\<lambda>e. e) (map of_nat) (b64_scan 0 0 0 s)
      else Inl (ValueError (lit ''string argument should contain only ASCII characters'')))"

section \<open>Round trip\<close>

lemma pad_not_value [simp]: "v < 64 \<Longrightarrow> b64_char v \<noteq> 61"
  by (auto simp: b64_char_def)

lemma sextets:
  "a < 256 \<Longrightarrow> a div 4 < (64::nat)"
  "b < 256 \<Longrightarrow> a mod 4 * 16 + b div 16 < (64::nat)"
  "c < 256 \<Longrightarrow> b mod 16 * 4 + c div 64 < (64::nat)"
  "a mod 4 * 16 < (64::nat)" "b mod 16 * 4 < (64::nat)" "c mod 64 < (64::nat)"
  by simp_all

lemma b64_scan_encode:
  "list_all (\<lambda>b. b < 256) bs \<Longrightarrow> b64_scan 0 0 0 (b64_encode_nats bs) = Inr bs"
proof (induction bs rule: b64_encode_nats.induct)
  case (2 a)
  then show ?case using sextets [of a] by simp
next
  case (3 a b)
  then have "b div 16 < 16" by (simp add: less_mult_imp_div_less)
  then show ?case using 3 sextets(1) [of a] sextets(2) [of b a] sextets(5) [of b] by simp
next
  case (4 a b c r)
  then have "b div 16 < 16" and "c div 64 < 4" by (simp_all add: less_mult_imp_div_less)
  then show ?case
    using 4 sextets(1) [of a] sextets(2) [of b a] sextets(3) [of c b] sextets(6) [of c] by simp
qed simp

lemma b64_encode_ascii:
  "list_all (\<lambda>b. b < 256) bs \<Longrightarrow> list_all (\<lambda>c. c < 128) (b64_encode_nats bs)"
proof (induction bs rule: b64_encode_nats.induct)
  case (2 a)
  then show ?case using b64_char_ascii sextets [of a] by simp
next
  case (3 a b)
  then show ?case using b64_char_ascii sextets(1) [of a] sextets(2) [of b a] sextets(5) [of b] by simp
next
  case (4 a b c r)
  then show ?case
    using b64_char_ascii sextets(1) [of a] sextets(2) [of b a] sextets(3) [of c b] sextets(6) [of c]
    by simp
qed simp

lemma unat_bytes: "list_all (\<lambda>b. b < 256) (map unat (bs :: bytes))"
proof -
  have "unat b < 256" for b :: "8 word" using unsigned_less [of b, where 'a = nat] by simp
  then show ?thesis by (simp add: list_all_iff)
qed

lemma b64decode_encode: "b64decode (b64encode bs) = Inr bs"
  by (simp add: b64decode_def b64encode_def b64_scan_encode b64_encode_ascii unat_bytes
      comp_def)

lemma b64encode_ascii: "list_all (\<lambda>c. c < 128) (b64encode bs)"
  by (simp add: b64encode_def b64_encode_ascii unat_bytes)

text \<open>Every failure is a \<^verbatim>\<open>ValueError\<close>.\<close>

lemma b64_scan_errors: "b64_scan quad left pads s = Inl e \<Longrightarrow> is_ValueError e"
proof (induction quad left pads s rule: b64_scan.induct)
  case (2 quad left pads c cs)
  then show ?case by (auto simp: map_sum_Inl_conv split: if_splits option.splits)
qed (auto split: if_splits)

lemma b64decode_errors: "b64decode s = Inl e \<Longrightarrow> is_ValueError e"
  by (auto simp: b64decode_def map_sum_Inl_conv dest: b64_scan_errors split: if_splits)

text \<open>Characters outside the alphabet do not matter: many strings decode to the same bytes.\<close>

lemma b64_scan_skips:
  "b64_scan quad left pads s =
   b64_scan quad left pads (filter (\<lambda>c. c = 61 \<or> b64_value c \<noteq> None) s)"
proof (induction quad left pads s rule: b64_scan.induct)
  case (2 quad left pads c cs)
  then show ?case by (auto split: option.splits)
qed simp

end
