(* ===== verification/Wallet_Delegation.thy ===== *)
theory Wallet_Delegation
  imports Base64 Byte_Codecs Json_Roundtrip
begin

text \<open>
  \<^verbatim>\<open>security/wallet_gelegation.py\<close>: the verification of a signed delegation, by which the owner of
  a wallet lets a TLS key act for a model. Ed25519 and base58 are parameters, and so are the
  conversions of a numeral to a double and of a string to an integer (which needs the Unicode
  tables); an \<^verbatim>\<open>AuthError\<close>
  carries the constant part of its message.
\<close>

section \<open>Parameters and results\<close>

record primitives =
  ed25519_check :: "bytes \<Rightarrow> bytes \<Rightarrow> bytes \<Rightarrow> unit result"
  b58decode :: "pystr \<Rightarrow> bytes result"
  float_of_str :: "pystr \<Rightarrow> 64 word"
  int_of_str :: "pystr \<Rightarrow> int result"

record delegation_info =
  message_bytes :: bytes
  payload :: "(pystr \<times> json) list"
  wallet_pub_bytes :: bytes
  cert_pub_bytes :: bytes
  wallet_pub_b58 :: pystr
  delegated_model_id :: json
  expires_at :: "int option"

text \<open>\<open>ed25519_check\<close> is \<^verbatim>\<open>from_public_bytes\<close> followed by \<^verbatim>\<open>verify\<close>, which raises on a bad signature.\<close>

definition wallet_verify :: "primitives \<Rightarrow> bytes \<Rightarrow> bytes \<Rightarrow> bytes \<Rightarrow> bool" where
  "wallet_verify C wallet_pub message signature =
     (case ed25519_check C wallet_pub signature message of Inr _ \<Rightarrow> True | Inl _ \<Rightarrow> False)"

definition decode_signed_message :: "primitives \<Rightarrow> bytes \<Rightarrow> json result" where
  "decode_signed_message C message =
     (case utf8_decode message of Inl e \<Rightarrow> Inl e | Inr s \<Rightarrow> loads (float_of_str C) s)"

section \<open>Conversion to an integer\<close>

fun int_of :: "primitives \<Rightarrow> json \<Rightarrow> int result" where
  "int_of C (JInt i) = Inr i"
| "int_of C (JBool b) = Inr (of_bool b)"
| "int_of C (JFloat w) = int_of_double w"
| "int_of C (JStr s) = int_of_str C s"
| "int_of C _ = Inl TypeError"

section \<open>Verification\<close>

text \<open>\<^verbatim>\<open>cert_pub_b64.encode("ascii")\<close> and its decoding.\<close>

fun decode_cert_pub :: "json \<Rightarrow> bytes result" where
  "decode_cert_pub (JStr s) =
     (if list_all (\<lambda>c. c < 128) s then b64decode s else Inl UnicodeEncodeError)"
| "decode_cert_pub _ = Inl AttributeError"

text \<open>The part after the signature check: the claims of the payload.\<close>

definition check_payload ::
  "primitives \<Rightarrow> bytes \<Rightarrow> (pystr \<times> json) list \<Rightarrow> bytes \<Rightarrow> pystr \<Rightarrow> bytes \<Rightarrow> json \<Rightarrow> json \<Rightarrow>
   delegation_info result" where
  "check_payload C message claims wallet_pub wallet_b58 tls_pub expected_hotkey expected_model_id =
     (let cert_pub_b64 = dget claims (lit ''cert_pub'') in
      if \<not> truthy cert_pub_b64
      then Inl (AuthError (lit ''Missing cert_pub in signed message''))
      else case decode_cert_pub cert_pub_b64 of
             Inl e \<Rightarrow> Inl (AuthError (lit ''Bad cert_pub encoding in message''))
           | Inr cert_pub \<Rightarrow>
               (if tls_pub \<noteq> cert_pub
                then Inl (AuthError (lit ''TLS client key does not match wallet-authorized cert_pub''))
                else if dget claims (lit ''model_id'') \<noteq> expected_model_id
                then Inl (AuthError (lit ''The model_id in the payload does not match the expected model_id.''))
                else if dget claims (lit ''hotkey'') \<noteq> expected_hotkey
                then Inl (AuthError (lit ''Hotkey in the payload does not match the expected hotkey.''))
                else let expires_raw = dget claims (lit ''expires_at'') in
                     case (if expires_raw \<noteq> JNull then map_sum (\<lambda>e. e) Some (int_of C expires_raw)
                           else Inr None) of
                       Inl e \<Rightarrow> Inl e
                     | Inr expires \<Rightarrow> Inr
                         \<lparr>message_bytes = message, payload = claims, wallet_pub_bytes = wallet_pub,
                          cert_pub_bytes = cert_pub, wallet_pub_b58 = wallet_b58,
                          delegated_model_id = dget claims (lit ''model_id''), expires_at = expires\<rparr>))"

definition verify_wallet_delegation ::
  "primitives \<Rightarrow> pystr \<Rightarrow> pystr \<Rightarrow> pystr \<Rightarrow> json \<Rightarrow> bytes \<Rightarrow> json \<Rightarrow> json \<Rightarrow>
   delegation_info result" where
  "verify_wallet_delegation C message_b64 signature_b64 wallet_b58 expected_wallet tls_pub
     expected_hotkey expected_model_id =
     (case (b64decode message_b64, b64decode signature_b64, b58decode C wallet_b58) of
        (Inr message, Inr signature, Inr wallet_pub) \<Rightarrow>
          (if JStr wallet_b58 \<noteq> expected_wallet
           then Inl (AuthError
             (lit ''The provided wallet public key does not match the expected public key.''))
           else if \<not> wallet_verify C wallet_pub message signature
           then Inl (AuthError (lit ''Invalid wallet signature''))
           else case decode_signed_message C message of
                  Inl e \<Rightarrow> Inl (AuthError (lit ''Bad auth message JSON format''))
                | Inr decoded \<Rightarrow>
                    (case as_dict decoded of
                       Inl e \<Rightarrow> Inl e
                     | Inr claims \<Rightarrow>
                         check_payload C message claims wallet_pub wallet_b58 tls_pub
                           expected_hotkey expected_model_id))
      | _ \<Rightarrow> Inl (AuthError (lit ''Invalid encoding in auth data'')))"

section \<open>What the verification decides\<close>

text \<open>The claims name the TLS key of the connection, the model and the hotkey that were expected.\<close>

definition claims_match :: "(pystr \<times> json) list \<Rightarrow> bytes \<Rightarrow> json \<Rightarrow> json \<Rightarrow> bool" where
  "claims_match claims tls_pub hotkey mid \<longleftrightarrow>
     truthy (dget claims (lit ''cert_pub'')) \<and>
     decode_cert_pub (dget claims (lit ''cert_pub'')) = Inr tls_pub \<and>
     dget claims (lit ''model_id'') = mid \<and> dget claims (lit ''hotkey'') = hotkey"

text \<open>The message is signed by the expected wallet and decodes to a JSON value.\<close>

definition signed_by ::
  "primitives \<Rightarrow> json \<Rightarrow> pystr \<Rightarrow> pystr \<Rightarrow> pystr \<Rightarrow> bytes \<Rightarrow> bytes \<Rightarrow> json \<Rightarrow> bool" where
  "signed_by C expected m64 s64 w58 message wallet_pub decoded \<longleftrightarrow>
     expected = JStr w58 \<and> b64decode m64 = Inr message \<and> b58decode C w58 = Inr wallet_pub \<and>
     (\<exists>signature. b64decode s64 = Inr signature \<and>
        ed25519_check C wallet_pub signature message = Inr ()) \<and>
     decode_signed_message C message = Inr decoded"

definition expiry :: "primitives \<Rightarrow> (pystr \<times> json) list \<Rightarrow> int option result" where
  "expiry C claims =
     (let raw = dget claims (lit ''expires_at'') in
      if raw \<noteq> JNull then map_sum (\<lambda>e. e) Some (int_of C raw) else Inr None)"

lemma check_payload_accepts:
  "check_payload C message claims wallet_pub w58 tls_pub hotkey mid = Inr info \<longleftrightarrow>
   claims_match claims tls_pub hotkey mid \<and>
   (\<exists>expires. expiry C claims = Inr expires \<and>
      info = \<lparr>message_bytes = message, payload = claims, wallet_pub_bytes = wallet_pub,
        cert_pub_bytes = tls_pub, wallet_pub_b58 = w58, delegated_model_id = mid,
        expires_at = expires\<rparr>)"
  by (auto simp: check_payload_def claims_match_def expiry_def Let_def split: if_splits sum.splits)

lemma check_payload_escapes:
  "check_payload C message claims wallet_pub w58 tls_pub hotkey mid = Inl e \<and>
   (\<forall>t. e \<noteq> AuthError t) \<longleftrightarrow>
   claims_match claims tls_pub hotkey mid \<and> expiry C claims = Inl e \<and> (\<forall>t. e \<noteq> AuthError t)"
  by (auto simp: check_payload_def claims_match_def expiry_def Let_def split: if_splits sum.splits)

lemma as_dict_Inr: "as_dict x = Inr d \<longleftrightarrow> x = JObj d"
  by (cases x) auto

lemma as_dict_Inl: "as_dict x = Inl e \<longleftrightarrow> e = AttributeError \<and> (\<forall>d. x \<noteq> JObj d)"
  by (cases x) auto

lemma verify_reaches_claims:
  "signed_by C expected m64 s64 w58 message wallet_pub decoded \<Longrightarrow>
   verify_wallet_delegation C m64 s64 w58 expected tls_pub hotkey mid =
     (case as_dict decoded of Inl e \<Rightarrow> Inl e
      | Inr claims \<Rightarrow> check_payload C message claims wallet_pub w58 tls_pub hotkey mid)"
  by (auto simp: signed_by_def verify_wallet_delegation_def wallet_verify_def)

text \<open>Everything before the claims ends in an \<^verbatim>\<open>AuthError\<close>.\<close>

lemma verify_before_claims:
  "(\<exists>t. verify_wallet_delegation C m64 s64 w58 expected tls_pub hotkey mid = Inl (AuthError t)) \<or>
   (\<exists>message wallet_pub decoded. signed_by C expected m64 s64 w58 message wallet_pub decoded)"
  by (auto simp: verify_wallet_delegation_def wallet_verify_def signed_by_def
      split: sum.splits if_splits)

lemma verify_accepts:
  "verify_wallet_delegation C m64 s64 w58 expected tls_pub hotkey mid = Inr info \<longleftrightarrow>
   (\<exists>message wallet_pub claims.
      signed_by C expected m64 s64 w58 message wallet_pub (JObj claims) \<and>
      check_payload C message claims wallet_pub w58 tls_pub hotkey mid = Inr info)"
  (is "?L \<longleftrightarrow> ?R")
proof
  assume ?L
  then obtain message wallet_pub decoded
    where s: "signed_by C expected m64 s64 w58 message wallet_pub decoded"
    using verify_before_claims [of C m64 s64 w58 expected tls_pub hotkey mid] by auto
  with \<open>?L\<close> show ?R
    using verify_reaches_claims [OF s, of tls_pub hotkey mid]
    by (auto simp: as_dict_Inr split: sum.splits)
qed (auto simp: verify_reaches_claims)

lemma signed_by_unique:
  "signed_by C expected m64 s64 w58 message wallet_pub decoded \<Longrightarrow>
   signed_by C expected m64 s64 w58 x y z \<longleftrightarrow> x = message \<and> y = wallet_pub \<and> z = decoded"
  by (auto simp: signed_by_def)

lemma verify_acceptsI:
  "signed_by C expected m64 s64 w58 message wallet_pub (JObj claims) \<Longrightarrow>
   claims_match claims tls_pub hotkey mid \<Longrightarrow> expiry C claims = Inr expires \<Longrightarrow>
   \<exists>info. verify_wallet_delegation C m64 s64 w58 expected tls_pub hotkey mid = Inr info"
  by (simp add: verify_reaches_claims check_payload_accepts)

lemma verify_escapes:
  "verify_wallet_delegation C m64 s64 w58 expected tls_pub hotkey mid = Inl e \<and>
   (\<forall>t. e \<noteq> AuthError t) \<longleftrightarrow>
   (\<exists>message wallet_pub decoded. signed_by C expected m64 s64 w58 message wallet_pub decoded \<and>
      (case decoded of
         JObj claims \<Rightarrow> claims_match claims tls_pub hotkey mid \<and> expiry C claims = Inl e \<and>
           (\<forall>t. e \<noteq> AuthError t)
       | _ \<Rightarrow> e = AttributeError))"
  (is "?L \<longleftrightarrow> ?R")
proof -
  have "?L \<longleftrightarrow> ?R" if s: "signed_by C expected m64 s64 w58 message wallet_pub decoded"
    for message wallet_pub decoded
    using verify_reaches_claims [OF s, of tls_pub hotkey mid]
      check_payload_escapes [of C message _ wallet_pub w58 tls_pub hotkey mid e]
    by (cases decoded) (auto simp: signed_by_unique [OF s])
  moreover have "?L \<longleftrightarrow> ?R"
    if "verify_wallet_delegation C m64 s64 w58 expected tls_pub hotkey mid = Inl (AuthError t)"
      and "\<nexists>x y z. signed_by C expected m64 s64 w58 x y z" for t
    using that by auto
  ultimately show ?thesis
    using verify_before_claims [of C m64 s64 w58 expected tls_pub hotkey mid] by blast
qed

end
