(* ===== verification/Grpc_Auth.thy ===== *)
theory Grpc_Auth
  imports Wallet_Delegation "HOL-Library.Sublist"
begin

text \<open>
  \<^verbatim>\<open>security/grpc_auth_interceptor.py\<close>: the client interceptor that lets a call on a model
  node through only if the node presents, in the initial metadata of its answer, a delegation of the
  expected wallet to the TLS key of the connection. The coroutine \<^verbatim>\<open>_intercept\<close> is \<open>intercept_pc\<close>
  with \<open>intercept_begin\<close> and \<open>intercept_resume\<close>; the call object belongs to gRPC, and what matters of
  it is whether it was cancelled.
\<close>

section \<open>Metadata\<close>

text \<open>A metadata value is a string, or bytes for the keys that end in \<^verbatim>\<open>-bin\<close>.\<close>

datatype md_value = Md_str pystr | Md_bytes bytes

type_synonym metadata = "(pystr \<times> md_value) list"

text \<open>\<^verbatim>\<open>str.lower\<close> on ASCII; gRPC accepts no other character in a key.\<close>

definition lower :: "pystr \<Rightarrow> pystr" where
  "lower s = map (\<lambda>c. if 65 \<le> c \<and> c \<le> 90 then c + 32 else c) s"

definition md_to_dict :: "metadata \<Rightarrow> metadata" where
  "md_to_dict md = fold (\<lambda>(k, v) out. AList.update (lower k) v out) md []"

fun md_truthy :: "md_value option \<Rightarrow> bool" where
  "md_truthy None = False"
| "md_truthy (Some (Md_str s)) = (s \<noteq> [])"
| "md_truthy (Some (Md_bytes b)) = (b \<noteq> [])"

definition MESSAGE_KEY :: pystr where
  "MESSAGE_KEY = lit ''x-server-auth-message''"

definition SIGNATURE_KEY :: pystr where
  "SIGNATURE_KEY = lit ''x-server-auth-signature''"

definition WALLET_KEY :: pystr where
  "WALLET_KEY = lit ''x-server-wallet-pubkey''"

section \<open>The interceptor\<close>

text \<open>
  The expected wallet, hotkey and model id come from the decoded events of the orchestrator, hence
  are decoded values.
\<close>

record wallet_interceptor =
  expected_wallet_pub_b58 :: json
  expected_hotkey :: json
  expected_model_id :: json
  tls_pub :: bytes
  protected_prefix :: pystr

definition new_wallet_interceptor ::
  "json \<Rightarrow> json \<Rightarrow> json \<Rightarrow> bytes \<Rightarrow> wallet_interceptor" where
  "new_wallet_interceptor wallet hotkey mid key =
     \<lparr>expected_wallet_pub_b58 = wallet, expected_hotkey = hotkey, expected_model_id = mid,
      tls_pub = key, protected_prefix = []\<rparr>"

definition should_protect :: "wallet_interceptor \<Rightarrow> pystr \<Rightarrow> bool" where
  "should_protect I path = (protected_prefix I = [] \<or> prefix (protected_prefix I) path)"

definition verify_from_call_headers ::
  "primitives \<Rightarrow> wallet_interceptor \<Rightarrow> metadata \<Rightarrow> unit result" where
  "verify_from_call_headers C I md =
     (let d = md_to_dict md; message = map_of d MESSAGE_KEY;
          signature = map_of d SIGNATURE_KEY; wallet = map_of d WALLET_KEY in
      if \<not> md_truthy message \<or> \<not> md_truthy signature \<or> \<not> md_truthy wallet
      then Inl (AuthError (lit ''Missing auth metadata''))
      else case (message, signature, wallet) of
             (Some (Md_str m), Some (Md_str s), Some (Md_str w)) \<Rightarrow>
               map_sum (\<lambda>e. e) (\<lambda>_. ())
                 (verify_wallet_delegation C m s w (expected_wallet_pub_b58 I) (tls_pub I)
                    (expected_hotkey I) (expected_model_id I))
           | _ \<Rightarrow> Inl (AuthError (lit ''Auth metadata must be strings (non -bin headers)'')))"

section \<open>The coroutine of a call\<close>

datatype intercept_pc =
    At_continuation
  | At_metadata
  | At_code exn
  | At_details exn "status_code option"

datatype intercept_next =
    Suspended intercept_pc
  | Call_returned
  | Call_raised exn

text \<open>
  What an await delivers. A failed metadata or a failed verification is followed by
  \<^verbatim>\<open>call.cancel()\<close> and \<^verbatim>\<open>call.done()\<close>, whose answer comes with the delivery.
\<close>

datatype intercept_event =
    Sent
  | Headers metadata bool
  | Code "status_code option"
  | Details "pystr option"
  | Throws exn bool

text \<open>The clauses of the \<^verbatim>\<open>try\<close>: the first component says whether the call is cancelled.\<close>

definition verification_failed :: "exn \<Rightarrow> bool \<Rightarrow> bool \<times> intercept_next" where
  "verification_failed e finished =
     (case e of
        AuthError _ \<Rightarrow> (True, if finished then Suspended (At_code e) else Call_raised e)
      | CancelledError \<Rightarrow> (False, Call_raised e)
      | _ \<Rightarrow> (True, Call_raised e))"

text \<open>The details are \<^verbatim>\<open>None\<close> if they could not be read.\<close>

fun details_text :: "pystr option \<Rightarrow> pystr" where
  "details_text None = lit ''None''"
| "details_text (Some t) = t"

definition credentials_refused :: "exn \<Rightarrow> status_code option \<Rightarrow> pystr option \<Rightarrow> intercept_next" where
  "credentials_refused e code details =
     (if code = Some SC_UNAUTHENTICATED
      then Call_raised (AuthError
        (lit ''The credentials you are refused by the Model Node => '' @ details_text details))
      else Call_raised e)"

definition intercept_begin :: "bool \<times> intercept_next" where
  "intercept_begin = (False, Suspended At_continuation)"

fun intercept_resume ::
  "primitives \<Rightarrow> wallet_interceptor \<Rightarrow> pystr \<Rightarrow> bool \<Rightarrow> intercept_pc \<Rightarrow> intercept_event \<Rightarrow>
   bool \<times> intercept_next" where
  "intercept_resume C I path cancelled At_continuation Sent =
     (cancelled, if should_protect I path then Suspended At_metadata else Call_returned)"
| "intercept_resume C I path cancelled At_continuation (Throws e _) = (cancelled, Call_raised e)"
| "intercept_resume C I path cancelled At_metadata (Headers md finished) =
     (case verify_from_call_headers C I md of
        Inr _ \<Rightarrow> (cancelled, Call_returned)
      | Inl e \<Rightarrow> verification_failed e finished)"
| "intercept_resume C I path cancelled At_metadata (Throws e finished) =
     verification_failed e finished"
| "intercept_resume C I path cancelled (At_code e) (Code c) =
     (cancelled, Suspended (At_details e c))"
| "intercept_resume C I path cancelled (At_code e) (Throws e' _) =
     (cancelled, if is_Exception e' then credentials_refused e None None else Call_raised e')"
| "intercept_resume C I path cancelled (At_details e c) (Details t) =
     (cancelled, credentials_refused e c t)"
| "intercept_resume C I path cancelled (At_details e c) (Throws e' _) =
     (cancelled, if is_Exception e' then credentials_refused e c None else Call_raised e')"
| "intercept_resume C I path cancelled pc _ = (cancelled, Suspended pc)"

fun intercept_run ::
  "primitives \<Rightarrow> wallet_interceptor \<Rightarrow> pystr \<Rightarrow> intercept_event list \<Rightarrow> bool \<times> intercept_next \<Rightarrow>
   bool \<times> intercept_next" where
  "intercept_run C I path (ev # evs) (cancelled, Suspended pc) =
     intercept_run C I path evs (intercept_resume C I path cancelled pc ev)"
| "intercept_run C I path _ s = s"

section \<open>The dictionary of the headers\<close>

lemma md_fold: "map_of (fold (\<lambda>(k, v) out. AList.update (lower k) v out) md d) k =
   map_of (rev (map (apfst lower) md) @ d) k"
  by (induction md arbitrary: d) (auto simp: py_dict_simps map_add_def split: option.splits)

text \<open>The last value of a key wins, whatever the case of the keys.\<close>

lemma md_to_dict_map_of: "map_of (md_to_dict md) k = map_of (rev (map (apfst lower) md)) k"
  by (simp add: md_to_dict_def md_fold)

lemma lower_keys [simp]:
  "lower MESSAGE_KEY = MESSAGE_KEY" "lower SIGNATURE_KEY = SIGNATURE_KEY"
  "lower WALLET_KEY = WALLET_KEY"
  by (simp_all add: lower_def MESSAGE_KEY_def SIGNATURE_KEY_def WALLET_KEY_def lit_def)

lemma distinct_header_keys [simp]:
  "MESSAGE_KEY \<noteq> SIGNATURE_KEY" "MESSAGE_KEY \<noteq> WALLET_KEY" "SIGNATURE_KEY \<noteq> WALLET_KEY"
  "SIGNATURE_KEY \<noteq> MESSAGE_KEY" "WALLET_KEY \<noteq> MESSAGE_KEY" "WALLET_KEY \<noteq> SIGNATURE_KEY"
  by (simp_all add: MESSAGE_KEY_def SIGNATURE_KEY_def WALLET_KEY_def)

lemma headers_accepted:
  "verify_from_call_headers C I md = Inr u \<longleftrightarrow>
   (\<exists>m s w info. map_of (md_to_dict md) MESSAGE_KEY = Some (Md_str m) \<and>
      map_of (md_to_dict md) SIGNATURE_KEY = Some (Md_str s) \<and>
      map_of (md_to_dict md) WALLET_KEY = Some (Md_str w) \<and> m \<noteq> [] \<and> s \<noteq> [] \<and> w \<noteq> [] \<and>
      verify_wallet_delegation C m s w (expected_wallet_pub_b58 I) (tls_pub I)
        (expected_hotkey I) (expected_model_id I) = Inr info)"
  by (auto simp: verify_from_call_headers_def Let_def map_sum_Inr_conv
      split: option.splits md_value.splits if_splits)

text \<open>Headers that carry a signed message whose claims match.\<close>

lemma accepted_headers:
  assumes "decode_signed_message C message = Inr (JObj claims)" and "b58decode C w = Inr wallet_pub"
    and "ed25519_check C wallet_pub signature message = Inr ()"
    and "message \<noteq> []" and "signature \<noteq> []" and "w \<noteq> []" and "spki \<noteq> []"
    and "dget claims (lit ''cert_pub'') = JStr (b64encode spki)"
    and "dget claims (lit ''model_id'') = mid" and "dget claims (lit ''hotkey'') = hotkey"
    and "expiry C claims = Inr expires"
    and "lower km = MESSAGE_KEY" and "lower ks = SIGNATURE_KEY" and "lower kw = WALLET_KEY"
  shows "verify_from_call_headers C (new_wallet_interceptor (JStr w) hotkey mid spki)
           (others @ [(km, Md_str (b64encode message)), (ks, Md_str (b64encode signature)),
                      (kw, Md_str w)]) = Inr ()"
proof -
  have nonempty: "b64encode bs \<noteq> []" if "bs \<noteq> []" for bs
    using b64decode_encode [of bs] that by (auto simp: b64decode_def)
  have "signed_by C (JStr w) (b64encode message) (b64encode signature) w message wallet_pub
          (JObj claims)"
    using assms by (simp add: signed_by_def b64decode_encode)
  moreover have "claims_match claims spki hotkey mid"
    using assms nonempty [of spki]
    by (simp add: claims_match_def b64decode_encode b64encode_ascii)
  ultimately have "\<exists>info. verify_wallet_delegation C (b64encode message) (b64encode signature) w
      (JStr w) spki hotkey mid = Inr info"
    using assms(11) by (rule verify_acceptsI)
  with assms nonempty show ?thesis
    by (auto simp: headers_accepted md_to_dict_map_of new_wallet_interceptor_def)
qed

section \<open>Runs of the coroutine\<close>

lemma intercept_run_ended [simp]:
  "intercept_run C I path evs (b, Call_returned) = (b, Call_returned)"
  "intercept_run C I path evs (b, Call_raised e) = (b, Call_raised e)"
  by (cases evs; simp)+

definition vouched :: "primitives \<Rightarrow> wallet_interceptor \<Rightarrow> intercept_event \<Rightarrow> bool" where
  "vouched C I ev =
     (case ev of Headers md _ \<Rightarrow> verify_from_call_headers C I md = Inr () | _ \<Rightarrow> False)"

lemma vouched_conv:
  "vouched C I ev \<longleftrightarrow>
   (\<exists>md finished. ev = Headers md finished \<and> verify_from_call_headers C I md = Inr ())"
  by (cases ev) (auto simp: vouched_def)

text \<open>A step that hands the call out is the arrival of headers that verify.\<close>

lemma step_returns:
  "should_protect I path \<Longrightarrow> intercept_resume C I path b pc ev = (b', Call_returned) \<Longrightarrow>
   pc = At_metadata \<and> b' = b \<and> vouched C I ev"
  by (cases pc; cases ev)
    (auto simp: credentials_refused_def verification_failed_def vouched_def
      split: if_splits sum.splits exn.splits)

definition healthy :: "bool \<times> intercept_next \<Rightarrow> bool" where
  "healthy s = (snd s \<in> {Suspended At_continuation, Suspended At_metadata} \<longrightarrow> \<not> fst s)"

lemma step_healthy:
  "healthy (b, Suspended pc) \<Longrightarrow> healthy (intercept_resume C I path b pc ev)"
  by (cases pc; cases ev)
    (auto simp: healthy_def credentials_refused_def verification_failed_def
      split: if_splits sum.splits exn.splits)

lemma run_returns:
  "should_protect I path \<Longrightarrow> healthy (b, n) \<Longrightarrow> n \<noteq> Call_returned \<Longrightarrow>
   intercept_run C I path evs (b, n) = (b', Call_returned) \<Longrightarrow>
   \<not> b' \<and> (\<exists>ev\<in>set evs. vouched C I ev)"
proof (induction evs arbitrary: b n)
  case (Cons ev evs)
  then obtain pc where n: "n = Suspended pc" by (cases n) auto
  obtain b1 n1 where step: "intercept_resume C I path b pc ev = (b1, n1)" by fastforce
  show ?case
  proof (cases "n1 = Call_returned")
    case True
    with step Cons.prems n have "pc = At_metadata" "b1 = b" "vouched C I ev"
      using step_returns by blast+
    with Cons.prems n step True show ?thesis by (auto simp: healthy_def)
  next
    case False
    moreover have "healthy (b1, n1)" using step_healthy [of b pc C I path ev] Cons.prems n step by simp
    ultimately show ?thesis using Cons n step by auto
  qed
qed auto

text \<open>Once the headers have failed, the call is cancelled and is never handed out.\<close>

definition doomed :: "bool \<times> intercept_next \<Rightarrow> bool" where
  "doomed s = (fst s \<and> snd s \<notin> {Suspended At_continuation, Suspended At_metadata, Call_returned})"

lemma step_doomed:
  "doomed (b, Suspended pc) \<Longrightarrow> doomed (intercept_resume C I path b pc ev)"
  by (cases pc; cases ev) (auto simp: doomed_def credentials_refused_def)

lemma run_doomed: "doomed s \<Longrightarrow> doomed (intercept_run C I path evs s)"
proof (induction evs arbitrary: s)
  case (Cons ev evs)
  obtain b n where s: "s = (b, n)" by fastforce
  show ?case
  proof (cases n)
    case (Suspended pc)
    with Cons s show ?thesis using step_doomed [of b pc C I path ev] by simp
  qed (use Cons s in auto)
qed (cases s, simp)

lemma failed_doomed: "is_Exception e \<Longrightarrow> doomed (verification_failed e finished)"
  by (cases e) (auto simp: verification_failed_def doomed_def)

end
