(* ===== verification/Gateway_Auth.thy ===== *)
theory Gateway_Auth
  imports Grpc_Auth Model_Runner
begin

text \<open>
  \<^verbatim>\<open>security/gateway_auth_interceptor.py\<close> and the loading of its key in
  \<^verbatim>\<open>security/gateway_credentials.py\<close>: every call to a model behind a gateway carries a token, the
  model id and the time, signed with the coordinator's RSA key. The cryptography is a parameter; a key
  is a handle.
\<close>

section \<open>Keys\<close>

record rsa_primitives =
  load_pem :: "bytes \<Rightarrow> nat result"
  is_rsa :: "nat \<Rightarrow> bool"
  rsa_sign :: "nat \<Rightarrow> bytes \<Rightarrow> bytes"
  public_der :: "nat \<Rightarrow> bytes"

definition from_pem :: "rsa_primitives \<Rightarrow> bytes \<Rightarrow> gateway_credentials result" where
  "from_pem G pem =
     (case load_pem G pem of
        Inl e \<Rightarrow> Inl e
      | Inr k \<Rightarrow> if \<not> is_rsa G k then Inl TypeError else Inr \<lparr>private_key = k\<rparr>)"

text \<open>The certificate file is named by the caller but not read: the server has its own copy of the key.\<close>

definition gateway_from_files ::
  "platform \<Rightarrow> rsa_primitives \<Rightarrow> path \<Rightarrow> path \<Rightarrow> gateway_credentials result" where
  "gateway_from_files S G cert_path key_path = bind_result (read_bytes S key_path) (from_pem G)"

definition sign :: "rsa_primitives \<Rightarrow> nat \<Rightarrow> bytes \<Rightarrow> bytes result" where
  "sign G k message = (if \<not> is_rsa G k then Inl TypeError else Inr (rsa_sign G k message))"

section \<open>The interceptor\<close>

record gateway_interceptor =
  signing_key :: nat
  gateway_model_id :: json
  pubkey_b64 :: pystr

definition new_gateway_interceptor ::
  "rsa_primitives \<Rightarrow> nat \<Rightarrow> json \<Rightarrow> gateway_interceptor" where
  "new_gateway_interceptor G k mid =
     \<lparr>signing_key = k, gateway_model_id = mid, pubkey_b64 = b64encode (public_der G k)\<rparr>"

definition AUTH_MESSAGE_KEY :: pystr where
  "AUTH_MESSAGE_KEY = lit ''x-gateway-auth-message''"

definition AUTH_SIGNATURE_KEY :: pystr where
  "AUTH_SIGNATURE_KEY = lit ''x-gateway-auth-signature''"

definition AUTH_PUBKEY_KEY :: pystr where
  "AUTH_PUBKEY_KEY = lit ''x-gateway-auth-pubkey''"

text \<open>\<open>F\<close> gives the digits of a double, \<open>now\<close> is \<^verbatim>\<open>time.time()\<close>.\<close>

definition token_payload ::
  "(64 word \<Rightarrow> pystr) \<Rightarrow> gateway_interceptor \<Rightarrow> 64 word \<Rightarrow> bytes result" where
  "token_payload F I now =
     (case int_of_double now of
        Inl e \<Rightarrow> Inl e
      | Inr timestamp \<Rightarrow>
          bind_result (json_dumps F (lit '','') (lit '':'')
            (JObj [(lit ''model_id'', gateway_model_id I), (lit ''timestamp'', JInt timestamp)]))
            utf8_encode)"

definition build_auth_metadata ::
  "rsa_primitives \<Rightarrow> (64 word \<Rightarrow> pystr) \<Rightarrow> gateway_interceptor \<Rightarrow> 64 word \<Rightarrow> metadata result" where
  "build_auth_metadata G F I now =
     (case token_payload F I now of
        Inl e \<Rightarrow> Inl e
      | Inr message \<Rightarrow>
          (case sign G (signing_key I) message of
             Inl e \<Rightarrow> Inl e
           | Inr signature \<Rightarrow> Inr
               [(AUTH_MESSAGE_KEY, Md_str (b64encode message)),
                (AUTH_SIGNATURE_KEY, Md_str (b64encode signature)),
                (AUTH_PUBKEY_KEY, Md_str (pubkey_b64 I))]))"

text \<open>The details of a call; the deadline, the credentials and the flag are passed on untouched.\<close>

record call_details =
  rpc :: pystr
  deadline :: "64 word option"
  call_metadata :: "metadata option"
  call_credentials :: "nat option"
  wait_for_ready :: "bool option"

definition enrich_metadata ::
  "rsa_primitives \<Rightarrow> (64 word \<Rightarrow> pystr) \<Rightarrow> gateway_interceptor \<Rightarrow> 64 word \<Rightarrow> call_details \<Rightarrow>
   call_details result" where
  "enrich_metadata G F I now d =
     (let md = (case call_metadata d of None \<Rightarrow> [] | Some md \<Rightarrow> md) in
      case build_auth_metadata G F I now of
        Inl e \<Rightarrow> Inl e
      | Inr auth \<Rightarrow> Inr
          \<lparr>rpc = rpc d, deadline = deadline d, call_metadata = Some (md @ auth),
           call_credentials = call_credentials d, wait_for_ready = wait_for_ready d\<rparr>)"

text \<open>The call that is sent, or the exception raised before anything is sent.\<close>

definition gateway_intercept ::
  "rsa_primitives \<Rightarrow> (64 word \<Rightarrow> pystr) \<Rightarrow> gateway_interceptor \<Rightarrow> 64 word \<Rightarrow>
   (call_details \<Rightarrow> 'r \<Rightarrow> 'c result) \<Rightarrow> call_details \<Rightarrow> 'r \<Rightarrow> 'c result" where
  "gateway_intercept G F I now continuation d request =
     (case enrich_metadata G F I now d of
        Inl e \<Rightarrow> Inl e
      | Inr d' \<Rightarrow> continuation d' request)"

end
