(* ===== verification/Tls_Probe.thy ===== *)
theory Tls_Probe
  imports Credentials Json_Text
begin

text \<open>
  \<^verbatim>\<open>security/tls_peer_key.py\<close>: the connection that reads the public key of a model node before
  gRPC connects to it. The inner coroutine \<^verbatim>\<open>_connect\<close> is \<open>probe_pc\<close> with \<open>probe_resume\<close>; it runs
  under a deadline (\<^verbatim>\<open>asyncio.wait_for\<close>). The sockets and OpenSSL deliver the events; X.509 parsing
  is a parameter.
\<close>

section \<open>What the peer presents\<close>

record peer_key =
  leaf_cert_pem :: bytes
  spki_der :: bytes

text \<open>
  A parsed certificate: whether its key is an RSA key, the key (DER) and the certificate (PEM).
\<close>

record certificate =
  rsa_key :: bool
  cert_spki :: bytes
  cert_pem :: bytes

text \<open>
  The SSL object of the transport, if there is one, with the certificate of the peer, if it has one.
\<close>

type_synonym ssl_object = "bytes option option"

definition peer_certificate ::
  "(bytes \<Rightarrow> certificate result) \<Rightarrow> ssl_object \<Rightarrow> peer_key result" where
  "peer_certificate load sslobj =
     (case sslobj of
        None \<Rightarrow> Inl (TlsProbeError (lit ''TLS handshake did not produce an ssl_object''))
      | Some leaf \<Rightarrow>
          (if leaf = None \<or> leaf = Some []
           then Inl (TlsProbeError (lit ''No peer certificate returned by TLS layer''))
           else case load (the leaf) of
                  Inl e \<Rightarrow> Inl e
                | Inr cert \<Rightarrow>
                    (if \<not> rsa_key cert
                     then Inl (TlsProbeError (lit ''Server public key is not RSA''))
                     else Inr \<lparr>leaf_cert_pem = cert_pem cert, spki_der = cert_spki cert\<rparr>)))"

section \<open>The coroutine\<close>

text \<open>The writer of the connection: not there yet, open, or aborted.\<close>

datatype writer = No_writer | Open | Aborted

datatype probe_pc = At_open | At_read

datatype probe_next = Probing probe_pc | Probed "peer_key result"

text \<open>
  The deliveries: the connection, the byte that shows the server kept it, an exception, or the
  expiry of the deadline, which cancels the coroutine and raises \<^verbatim>\<open>TimeoutError\<close> from
  \<^verbatim>\<open>wait_for\<close>.
\<close>

datatype probe_event = Opened | Read bytes | Failed_with exn | Deadline

text \<open>
  The two exception clauses around connecting and reading. \<^verbatim>\<open>asyncio.TimeoutError\<close> of the inner
  \<^verbatim>\<open>wait_for\<close> is the built-in \<^verbatim>\<open>TimeoutError\<close>, hence an \<^verbatim>\<open>OSError\<close>.
\<close>

definition connect_failed :: "exn \<Rightarrow> exn" where
  "connect_failed e =
     (if e = SSLError then TlsProbeError (lit ''TLS handshake failed'')
      else if is_OSError e then TlsProbeError (lit ''TCP connect failed'')
      else e)"

text \<open>
  \<^verbatim>\<open>_fmt_ssl_error\<close>, over what it reads of an exception: its classes, its own text, and the code and
  message of OpenSSL where a verification failed. \<^verbatim>\<open>ssl.CertificateError\<close> has been another name of
  \<^verbatim>\<open>ssl.SSLCertVerificationError\<close> since Python 3.7; it is a subclass of \<^verbatim>\<open>ssl.SSLError\<close>.
\<close>

datatype ssl_failure =
    Cert_verification_failure int pystr pystr
  | Ssl_failure pystr
  | Other_failure pystr

fun is_cert_verification_error :: "ssl_failure \<Rightarrow> bool" where
  "is_cert_verification_error (Cert_verification_failure code msg t) = True"
| "is_cert_verification_error _ = False"

definition is_certificate_error :: "ssl_failure \<Rightarrow> bool" where
  "is_certificate_error = is_cert_verification_error"

fun is_ssl_error :: "ssl_failure \<Rightarrow> bool" where
  "is_ssl_error (Other_failure t) = False"
| "is_ssl_error _ = True"

fun failure_text :: "ssl_failure \<Rightarrow> pystr" where
  "failure_text (Cert_verification_failure code msg t) = t"
| "failure_text (Ssl_failure t) = t"
| "failure_text (Other_failure t) = t"

fun verify_code :: "ssl_failure \<Rightarrow> int" where
  "verify_code (Cert_verification_failure code msg t) = code"
| "verify_code _ = 0"

fun verify_message :: "ssl_failure \<Rightarrow> pystr" where
  "verify_message (Cert_verification_failure code msg t) = msg"
| "verify_message _ = []"

definition fmt_ssl_error :: "ssl_failure \<Rightarrow> pystr" where
  "fmt_ssl_error e =
     (if is_cert_verification_error e
      then lit ''certificate verification failed (code='' @ int_text (verify_code e) @ lit '' msg='' @
        verify_message e @ lit '')''
      else if is_certificate_error e then lit ''certificate/hostname error: '' @ failure_text e
      else if is_ssl_error e then lit ''SSL error: '' @ failure_text e
      else failure_text e)"

text \<open>The second branch is never taken: what it would catch has been caught by the first.\<close>

lemma certificate_branch_dead:
  "is_certificate_error e \<Longrightarrow>
   fmt_ssl_error e = lit ''certificate verification failed (code='' @ int_text (verify_code e) @
     lit '' msg='' @ verify_message e @ lit '')''"
  by (simp add: fmt_ssl_error_def is_certificate_error_def)

text \<open>After the connection: the certificate is read and the transport aborted in any case.\<close>

definition read_certificate ::
  "(bytes \<Rightarrow> certificate result) \<Rightarrow> ssl_object \<Rightarrow> writer \<times> probe_next" where
  "read_certificate load sslobj = (Aborted, Probed (peer_certificate load sslobj))"

definition probe_begin :: "writer \<times> probe_next" where
  "probe_begin = (No_writer, Probing At_open)"

fun probe_resume ::
  "(bytes \<Rightarrow> certificate result) \<Rightarrow> bool \<Rightarrow> ssl_object \<Rightarrow> writer \<Rightarrow> probe_pc \<Rightarrow> probe_event \<Rightarrow>
   writer \<times> probe_next" where
  "probe_resume load check_auth sslobj wr At_open Opened =
     (if check_auth then (Open, Probing At_read) else read_certificate load sslobj)"
| "probe_resume load check_auth sslobj wr At_read (Read b) =
     (if b = []
      then (wr, Probed (Inl (TlsProbeError
        (lit ''Server terminated the connection immediately after TLS handshake''))))
      else read_certificate load sslobj)"
| "probe_resume load check_auth sslobj wr pc (Failed_with e) =
     (wr, Probed (Inl (connect_failed e)))"
| "probe_resume load check_auth sslobj wr pc Deadline = (wr, Probed (Inl TimeoutError))"
| "probe_resume load check_auth sslobj wr pc _ = (wr, Probing pc)"

fun probe_run ::
  "(bytes \<Rightarrow> certificate result) \<Rightarrow> bool \<Rightarrow> ssl_object \<Rightarrow> probe_event list \<Rightarrow>
   writer \<times> probe_next \<Rightarrow> writer \<times> probe_next" where
  "probe_run load check_auth sslobj (ev # evs) (wr, Probing pc) =
     probe_run load check_auth sslobj evs (probe_resume load check_auth sslobj wr pc ev)"
| "probe_run load check_auth sslobj _ s = s"

text \<open>The name the peer is asked for: the host, unless the caller gives another.\<close>

definition handshake_name :: "'n option \<Rightarrow> 'n \<Rightarrow> 'n" where
  "handshake_name server_hostname host = (case server_hostname of None \<Rightarrow> host | Some name \<Rightarrow> name)"

text \<open>
  The whole function: \<open>network\<close> stands for the sockets and OpenSSL, which are given the host and port,
  the context, the name to ask for and the seconds to wait, and answer with the SSL object of the
  connection and the deliveries of a run. The check that the server kept the connection is on unless
  the caller turns it off.
\<close>

definition fetch_peer ::
  "(bytes \<Rightarrow> certificate result) \<Rightarrow>
   ('n \<Rightarrow> 'p \<Rightarrow> ssl_context \<Rightarrow> 'n \<Rightarrow> int \<Rightarrow> ssl_object \<times> probe_event list) \<Rightarrow>
   'n \<Rightarrow> 'p \<Rightarrow> ssl_context \<Rightarrow> 'n option \<Rightarrow> int option \<Rightarrow> bool option \<Rightarrow> writer \<times> probe_next" where
  "fetch_peer load network host prt ctx server_hostname timeout check_tls_client_auth =
     (let name = handshake_name server_hostname host;
          seconds = (case timeout of None \<Rightarrow> 5 | Some t \<Rightarrow> t);
          check_auth = (case check_tls_client_auth of None \<Rightarrow> True | Some b \<Rightarrow> b);
          (sslobj, evs) = network host prt ctx name seconds in
      probe_run load check_auth sslobj evs probe_begin)"

text \<open>The TLS context of \<^verbatim>\<open>is_tls_connection\<close>, which only looks: nothing is verified.\<close>

definition lookup_context :: "ssl_context result" where
  "lookup_context =
     bind_result (set_check_hostname False (new_client_context\<lparr>alpn_protocols := [''h2'']\<rparr>))
       (set_verify_mode CERT_NONE)"

lemma lookup_context_made:
  "lookup_context = Inr
     \<lparr>check_hostname = False, verify_mode = CERT_NONE, alpn_protocols = [''h2''], trusted_ca = None,
      cert_chain = None\<rparr>"
  by (simp add: lookup_context_def set_check_hostname_def set_verify_mode_def new_client_context_def)

text \<open>
  \<^verbatim>\<open>is_tls_connection\<close>: the probe \<open>fetch\<close>, run without the reading phase in that context;
  \<^verbatim>\<open>peer_tls is not None\<close> holds of every key.
\<close>

definition is_tls_connection :: "(ssl_context \<Rightarrow> peer_key result) \<Rightarrow> bool result" where
  "is_tls_connection fetch =
     bind_result lookup_context (\<lambda>ctx.
       case fetch ctx of
         Inr _ \<Rightarrow> Inr True
       | Inl (TlsProbeError _) \<Rightarrow> Inr False
       | Inl TimeoutError \<Rightarrow> Inr False
       | Inl e \<Rightarrow> Inl e)"

section \<open>Runs\<close>

lemma probe_run_ended [simp]:
  "probe_run load check_auth sslobj evs (wr, Probed r) = (wr, Probed r)"
  by (cases evs) simp_all

text \<open>Where the writer stands at each point of the coroutine.\<close>

definition probe_ok ::
  "(bytes \<Rightarrow> certificate result) \<Rightarrow> bool \<Rightarrow> ssl_object \<Rightarrow> writer \<times> probe_next \<Rightarrow> bool" where
  "probe_ok load check_auth sslobj s =
     (case s of
        (wr, Probing At_open) \<Rightarrow> wr = No_writer
      | (wr, Probing At_read) \<Rightarrow> wr = Open \<and> check_auth
      | (wr, Probed res) \<Rightarrow>
          (case wr of
             Aborted \<Rightarrow> res = peer_certificate load sslobj
           | Open \<Rightarrow> check_auth \<and> (\<exists>e. res = Inl e)
           | No_writer \<Rightarrow> (\<exists>e. res = Inl e)))"

lemma probe_resume_ok:
  "probe_ok load check_auth sslobj (wr, Probing pc) \<Longrightarrow>
   probe_ok load check_auth sslobj (probe_resume load check_auth sslobj wr pc ev)"
  by (cases pc; cases ev) (auto simp: probe_ok_def read_certificate_def)

lemma probe_run_ok:
  "probe_ok load check_auth sslobj s \<Longrightarrow>
   probe_ok load check_auth sslobj (probe_run load check_auth sslobj evs s)"
proof (induction evs arbitrary: s)
  case (Cons ev evs)
  obtain wr n where s: "s = (wr, n)" by fastforce
  show ?case
  proof (cases n)
    case (Probing pc)
    with Cons s show ?thesis using probe_resume_ok [of load check_auth sslobj wr pc ev] by simp
  qed (use Cons s in simp)
qed (cases s, simp)

lemma probe_begin_ok [simp]: "probe_ok load check_auth sslobj probe_begin"
  by (simp add: probe_ok_def probe_begin_def)

text \<open>
  Called with its defaults, as the connection of the secure mode does, it waits for the server's byte,
  and an outcome with the connection aborted is that of the certificate.
\<close>

lemma fetch_peer_ok:
  assumes "network host prt ctx (handshake_name server_hostname host) 5 = (sslobj, evs)"
  shows "probe_ok load True sslobj (fetch_peer load network host prt ctx server_hostname None None)"
  using assms by (simp add: fetch_peer_def probe_run_ok)

text \<open>A key is returned only after the handshake and a byte of the server, with the connection aborted.\<close>

lemma probe_run_key:
  "probe_run load True sslobj evs (wr, Probing pc) = (wr', Probed (Inr key)) \<Longrightarrow>
   peer_certificate load sslobj = Inr key \<and> wr' = Aborted \<and> (\<exists>b. b \<noteq> [] \<and> Read b \<in> set evs) \<and>
   (pc = At_open \<longrightarrow> Opened \<in> set evs)"
proof (induction evs arbitrary: wr pc)
  case (Cons ev evs)
  then show ?case
    by (cases "(load, True, sslobj, wr, pc, ev)" rule: probe_resume.cases)
      (auto simp: read_certificate_def split: if_splits, blast)
qed simp

lemma fetch_peer_key:
  assumes "snd (fetch_peer load network host prt ctx (Some name) None None) = Probed (Inr key)"
  obtains sslobj evs where "network host prt ctx name 5 = (sslobj, evs)"
    and "peer_certificate load sslobj = Inr key" and "Opened \<in> set evs"
    and "\<exists>b. b \<noteq> [] \<and> Read b \<in> set evs"
proof -
  obtain sslobj evs where net: "network host prt ctx name 5 = (sslobj, evs)" by fastforce
  obtain wr nxt where run: "probe_run load True sslobj evs (No_writer, Probing At_open) = (wr, nxt)"
    by fastforce
  with assms net have "nxt = Probed (Inr key)"
    by (simp add: fetch_peer_def handshake_name_def probe_begin_def)
  from probe_run_key [OF run [unfolded this]] that [OF net] show thesis by blast
qed

end
