(* ===== verification/Secure_Connection.thy ===== *)
theory Secure_Connection
  imports Gateway_Auth Tls_Probe
begin

text \<open>
  How \<^verbatim>\<open>model_runners/model_runner.py\<close> uses the security modules: the interceptors it puts on
  its channels, and what the probes of \<open>Tls_Probe\<close> deliver to the awaits of \<^verbatim>\<open>init\<close>.
\<close>

section \<open>Interceptors\<close>

text \<open>
  The interceptor of the main channel in secure mode: the wallet and the hotkey the orchestrator
  named for the model, and the key read by the probe.
\<close>

definition node_interceptor :: "'a runner_scheme \<Rightarrow> peer_key \<Rightarrow> wallet_interceptor result" where
  "node_interceptor r key =
     (case as_dict (infos r) of
        Inl e \<Rightarrow> Inl e
      | Inr d \<Rightarrow> Inr (new_wallet_interceptor (dget d (lit ''cruncher_wallet_pubkey''))
                        (dget d (lit ''cruncher_hotkey'')) (model_id r) (spki_der key)))"

text \<open>The interceptor of the main channel in gateway mode.\<close>

definition channel_signer ::
  "rsa_primitives \<Rightarrow> 'a runner_scheme \<Rightarrow> gateway_interceptor option" where
  "channel_signer G r =
     map_option (\<lambda>creds. new_gateway_interceptor G (private_key creds) (model_id r))
       (gateway_creds r)"

section \<open>Channels\<close>

text \<open>
  What the channels are opened with: the peer, the TLS settings (none for an insecure channel, no root
  certificates for those of the system), the options and the interceptors.
\<close>

datatype interceptor = Wallet_auth wallet_interceptor | Gateway_signer gateway_interceptor

record tls_settings =
  root_certificates :: "bytes option"
  client_key :: "bytes option"
  client_chain :: "bytes option"

record channel_settings =
  peer :: pystr
  tls :: "tls_settings option"
  options :: "(pystr \<times> (nat + pystr)) list"
  interceptors :: "interceptor list"

definition channel_target :: "(json \<Rightarrow> pystr) \<Rightarrow> 'a runner_scheme \<Rightarrow> pystr" where
  "channel_target render r = render (ip r) @ lit '':'' @ render (port r)"

definition insecure_settings ::
  "(json \<Rightarrow> pystr) \<Rightarrow> 'a runner_scheme \<Rightarrow> channel_settings \<times> channel_settings" where
  "insecure_settings render r =
     (let ch = \<lparr>peer = channel_target render r, tls = None, options = grpc_options render r,
                interceptors = []\<rparr>
      in (ch, ch))"

text \<open>Behind a gateway: TLS with the certificates of the system, and signed calls on the main channel.\<close>

definition gateway_settings ::
  "rsa_primitives \<Rightarrow> (json \<Rightarrow> pystr) \<Rightarrow> 'a runner_scheme \<Rightarrow>
   (channel_settings \<times> channel_settings) result" where
  "gateway_settings G render r =
     (case channel_signer G r of
        None \<Rightarrow> Inl AttributeError
      | Some I \<Rightarrow>
          (let ch = \<lparr>peer = channel_target render r,
                     tls = Some \<lparr>root_certificates = None, client_key = None, client_chain = None\<rparr>,
                     options = grpc_options render r, interceptors = [Gateway_signer I]\<rparr>
           in Inr (ch, ch\<lparr>interceptors := []\<rparr>)))"

text \<open>With the credentials of the secure mode, once the probe has read the key of the node.\<close>

definition secure_settings ::
  "(json \<Rightarrow> pystr) \<Rightarrow> 'a runner_scheme \<Rightarrow> peer_key \<Rightarrow>
   (channel_settings \<times> channel_settings) result" where
  "secure_settings render r key =
     (case secure_creds r of
        None \<Rightarrow> Inl AttributeError
      | Some creds \<Rightarrow>
          bind_result (node_interceptor r key) (\<lambda>I.
            let ch = \<lparr>peer = channel_target render r,
                      tls = Some \<lparr>root_certificates = Some (leaf_cert_pem key),
                                  client_key = Some (key_bytes creds),
                                  client_chain = Some (cert_bytes creds)\<rparr>,
                      options = grpc_options render r, interceptors = [Wallet_auth I]\<rparr>
            in Inr (ch, ch\<lparr>interceptors := []\<rparr>)))"

text \<open>The channels can be opened in secure mode exactly if the settings can be made.\<close>

lemma secure_settings_agree:
  assumes "secure_creds r \<noteq> None"
  shows "snd (connect_secure_channels Conn_ok n r) =
    (case secure_settings render r key of Inl e \<Rightarrow> Some e | Inr _ \<Rightarrow> None)"
  using assms
  by (auto simp: connect_secure_channels_def secure_settings_def node_interceptor_def Let_def
      split: sum.split)

text \<open>
  \<^verbatim>\<open>_connect_secure_channels\<close> as a whole: the TLS context of the credentials, the probe of the node under
  its expected host name, and the two channels. \<open>network\<close> is what the sockets and OpenSSL do when they
  are given the host, the port, the context, the name and the seconds to wait; \<open>None\<close> means that they
  have delivered nothing that ends the probe yet. In \<^verbatim>\<open>init\<close> the probe is the await \<open>At_fetch\<close>.
\<close>

definition connect_secure ::
  "(bytes \<Rightarrow> certificate result) \<Rightarrow>
   (pystr \<Rightarrow> json \<Rightarrow> ssl_context \<Rightarrow> pystr \<Rightarrow> int \<Rightarrow> ssl_object \<times> probe_event list) \<Rightarrow>
   (json \<Rightarrow> pystr) \<Rightarrow> 'a runner_scheme \<Rightarrow> (channel_settings \<times> channel_settings) result option" where
  "connect_secure load network render r =
     (case Option.bind (secure_creds r) tls_ctx of
        None \<Rightarrow> Some (Inl AttributeError)
      | Some ctx \<Rightarrow>
          (case snd (fetch_peer load network (render (ip r)) (port r) ctx
                  (Some (server_hostname render r)) None None) of
             Probing pc \<Rightarrow> None
           | Probed (Inl e) \<Rightarrow> Some (Inl e)
           | Probed (Inr key) \<Rightarrow> Some (secure_settings render r key)))"

section \<open>Helpers of the security modules\<close>

text \<open>
  \<^verbatim>\<open>load_pubkey_from_pem_cert\<close> reads the key of a certificate in PEM form, \<open>read_pem\<close> being the
  parser; on what the probe has kept it finds the key the probe has read.
\<close>

definition load_pubkey_from_pem_cert :: "(bytes \<Rightarrow> certificate result) \<Rightarrow> bytes \<Rightarrow> bytes result" where
  "load_pubkey_from_pem_cert read_pem pem =
     bind_result (read_pem pem) (\<lambda>cert. Inr (cert_spki cert))"

lemma pem_key_is_probed_key:
  assumes "peer_certificate load sslobj = Inr key"
    and "\<And>leaf cert. load leaf = Inr cert \<Longrightarrow> read_pem (cert_pem cert) = Inr cert"
  shows "load_pubkey_from_pem_cert read_pem (leaf_cert_pem key) = Inr (spki_der key)"
  using assms
  by (auto simp: peer_certificate_def load_pubkey_from_pem_cert_def
      split: option.splits if_splits sum.splits)

text \<open>\<^verbatim>\<open>StaticAuthMetadata\<close> hands the same headers to every call, and no error.\<close>

definition static_auth_metadata :: "metadata \<Rightarrow> metadata \<times> exn option" where
  "static_auth_metadata headers = (headers, None)"

section \<open>Deliveries\<close>

text \<open>What the awaits \<open>At_fetch\<close> and \<open>At_probe\<close> of \<^verbatim>\<open>init\<close> receive.\<close>

fun fetched :: "peer_key result \<Rightarrow> awaited" where
  "fetched (Inr _) = Got_unit"
| "fetched (Inl e) = Got_exn e"

fun probed :: "bool result \<Rightarrow> awaited" where
  "probed (Inr b) = Got_bool b"
| "probed (Inl e) = Got_exn e"

end
