(* ===== verification/Security_Properties.thy ===== *)
theory Security_Properties
  imports Secure_Connection
begin

text \<open>
  Properties of the security modules: what a call that was let through proves about the model node,
  how a rejection ends, what the probe guarantees, and what a gateway can check of a token.
\<close>

section \<open>A concrete instance of the parameters\<close>

definition demo_claims :: "(pystr \<times> json) list" where
  "demo_claims =
     [(lit ''cert_pub'', jstr ''AQID''), (lit ''model_id'', jstr ''m''),
      (lit ''hotkey'', jstr ''h''), (lit ''expires_at'', JInt 0)]"

text \<open>A signature is the reversed message.\<close>

definition demo :: primitives where
  "demo =
     \<lparr>ed25519_check = (\<lambda>pub signature message.
        if signature = rev message then Inr () else Inl OtherException),
      b58decode = (\<lambda>s. Inr (map of_nat s)), float_of_str = (\<lambda>_. 0),
      int_of_str = (\<lambda>_. Inl (ValueError []))\<rparr>"

definition demo_message :: bytes where
  "demo_message = map of_nat (json_text (\<lambda>_. []) (lit '','') (lit '':'') (JObj demo_claims))"

definition demo_headers :: "bytes \<Rightarrow> metadata" where
  "demo_headers message =
     [(lit ''X-Server-Auth-Message'', Md_str (b64encode message)),
      (SIGNATURE_KEY, Md_str (b64encode (rev message))), (WALLET_KEY, Md_str (lit ''w''))]"

definition demo_interceptor :: wallet_interceptor where
  "demo_interceptor = new_wallet_interceptor (jstr ''w'') (jstr ''h'') (jstr ''m'') [1, 2, 3]"

section \<open>Calls on a model node\<close>

text \<open>
  C10. In secure mode a call on the main channel is handed to the caller only if headers arrived that
  carry a message signed by the wallet the orchestrator named for the model, whose claims name this
  very model, the expected hotkey and the TLS key the probe read; and it was not cancelled. This holds
  for every sequence of deliveries.
\<close>

theorem secure_call_vouched:
  assumes "node_interceptor r key = Inr I"
    and "intercept_run C I path evs intercept_begin = (cancelled, Call_returned)"
  shows "\<not> cancelled \<and>
    (\<exists>d w md finished m s message wallet_pub claims.
       infos r = JObj d \<and> dget d (lit ''cruncher_wallet_pubkey'') = JStr w \<and>
       Headers md finished \<in> set evs \<and>
       map_of (md_to_dict md) MESSAGE_KEY = Some (Md_str m) \<and>
       map_of (md_to_dict md) SIGNATURE_KEY = Some (Md_str s) \<and>
       map_of (md_to_dict md) WALLET_KEY = Some (Md_str w) \<and>
       signed_by C (JStr w) m s w message wallet_pub (JObj claims) \<and>
       decode_cert_pub (dget claims (lit ''cert_pub'')) = Inr (spki_der key) \<and>
       dget claims (lit ''model_id'') = model_id r \<and>
       dget claims (lit ''hotkey'') = dget d (lit ''cruncher_hotkey''))"
proof -
  obtain d where d: "infos r = JObj d" and I: "I = new_wallet_interceptor
      (dget d (lit ''cruncher_wallet_pubkey'')) (dget d (lit ''cruncher_hotkey''))
      (model_id r) (spki_der key)"
    using assms(1) by (auto simp: node_interceptor_def as_dict_Inr split: sum.splits)
  then have "should_protect I path" by (simp add: should_protect_def new_wallet_interceptor_def)
  then have "\<not> cancelled" and "\<exists>ev\<in>set evs. vouched C I ev"
    using run_returns [of I path False "Suspended At_continuation" C evs cancelled] assms(2)
    by (auto simp: intercept_begin_def healthy_def)
  then obtain md finished where md: "Headers md finished \<in> set evs"
      "verify_from_call_headers C I md = Inr ()"
    by (auto simp: vouched_conv)
  then obtain m s w info where h: "map_of (md_to_dict md) MESSAGE_KEY = Some (Md_str m)"
      "map_of (md_to_dict md) SIGNATURE_KEY = Some (Md_str s)"
      "map_of (md_to_dict md) WALLET_KEY = Some (Md_str w)"
      "verify_wallet_delegation C m s w (expected_wallet_pub_b58 I) (tls_pub I)
         (expected_hotkey I) (expected_model_id I) = Inr info"
    by (auto simp: headers_accepted)
  then obtain message wallet_pub claims where
      v: "signed_by C (expected_wallet_pub_b58 I) m s w message wallet_pub (JObj claims)"
      "claims_match claims (tls_pub I) (expected_hotkey I) (expected_model_id I)"
    by (auto simp: verify_accepts check_payload_accepts)
  then have w: "expected_wallet_pub_b58 I = JStr w" by (simp add: signed_by_def)
  then have "dget d (lit ''cruncher_wallet_pubkey'') = JStr w"
    by (simp add: I new_wallet_interceptor_def)
  moreover have "signed_by C (JStr w) m s w message wallet_pub (JObj claims)" using v(1) w by simp
  moreover have "decode_cert_pub (dget claims (lit ''cert_pub'')) = Inr (spki_der key)"
    "dget claims (lit ''model_id'') = model_id r"
    "dget claims (lit ''hotkey'') = dget d (lit ''cruncher_hotkey'')"
    using v(2) by (simp_all add: claims_match_def I new_wallet_interceptor_def)
  ultimately show ?thesis using md(1) h(1-3) d \<open>\<not> cancelled\<close> by blast
qed

text \<open>
  C25. A delegation made as documented is accepted: the JSON text of the claims, in UTF-8, signed by the
  wallet, the claims those of this connection, the three headers in base64 under keys of any case,
  after any other headers. The claim \<^verbatim>\<open>expires_at\<close> may be any integer: nothing compares it with
  the current time, so an expired delegation is accepted as well.
\<close>

theorem delegation_accepted_whenever_expired:
  assumes "storable F (float_of_str C) (JObj claims)" and "list_all is_ws ws" and "list_all is_ws ws'"
    and "utf8_encode (json_text F (44 # ws) (58 # ws') (JObj claims)) = Inr message"
    and "b58decode C w = Inr wallet_pub" and "ed25519_check C wallet_pub signature message = Inr ()"
    and "signature \<noteq> []" and "w \<noteq> []" and "spki \<noteq> []"
    and "dget claims (lit ''cert_pub'') = JStr (b64encode spki)"
    and "dget claims (lit ''model_id'') = mid" and "dget claims (lit ''hotkey'') = hotkey"
    and "dget claims (lit ''expires_at'') = JInt expires"
    and "lower km = MESSAGE_KEY" and "lower ks = SIGNATURE_KEY" and "lower kw = WALLET_KEY"
  shows "verify_from_call_headers C (new_wallet_interceptor (JStr w) hotkey mid spki)
           (others @ [(km, Md_str (b64encode message)), (ks, Md_str (b64encode signature)),
                      (kw, Md_str w)]) = Inr ()"
proof (rule accepted_headers)
  show decoded: "decode_signed_message C message = Inr (JObj claims)"
    using utf8_decode_encode [OF assms(4)] loads_dumps [OF assms(2,3,1)]
    by (simp add: decode_signed_message_def)
  then show "message \<noteq> []"
    by (auto simp: decode_signed_message_def utf8_decode_def loads_def skip_ws_def scan_evals
        split: sum.splits if_splits)
  show "expiry C claims = Inr (Some expires)" using assms by (simp add: expiry_def)
qed (use assms in simp_all)

text \<open>
  C24. Headers that do not verify cancel the call, and from then on it is never handed out, whatever
  the gRPC library delivers; anything but an \<^verbatim>\<open>AuthError\<close> leaves the coroutine at once.
\<close>

theorem rejected_call_cancelled:
  assumes "should_protect I path" and "verify_from_call_headers C I md = Inl e"
    and "is_Exception e"
  shows "fst (intercept_run C I path (Sent # Headers md finished # evs) intercept_begin) \<and>
    snd (intercept_run C I path (Sent # Headers md finished # evs) intercept_begin) \<noteq> Call_returned \<and>
    ((\<forall>t. e \<noteq> AuthError t) \<or> \<not> finished \<longrightarrow>
     snd (intercept_run C I path (Sent # Headers md finished # evs) intercept_begin) = Call_raised e)"
proof -
  have run: "intercept_run C I path (Sent # Headers md finished # evs) intercept_begin =
      intercept_run C I path evs (verification_failed e finished)"
    using assms by (simp add: intercept_begin_def)
  have "doomed (intercept_run C I path evs (verification_failed e finished))"
    using failed_doomed [OF assms(3)] by (rule run_doomed)
  moreover have "verification_failed e finished = (True, Call_raised e)"
    if "(\<forall>t. e \<noteq> AuthError t) \<or> \<not> finished"
    using assms(3) that by (auto simp: verification_failed_def split: exn.splits)
  ultimately show ?thesis by (auto simp: run doomed_def)
qed

text \<open>
  C26. The documented promise that every problem raises an \<^verbatim>\<open>AuthError\<close> fails in exactly two cases,
  both after the signature of the expected wallet was verified: the signed JSON is not an object, and
  the claims match but \<^verbatim>\<open>expires_at\<close> does not convert to an integer.
\<close>

theorem verification_escapes_exactly:
  "verify_wallet_delegation C m64 s64 w58 expected tls_key hotkey mid = Inl e \<and>
   (\<forall>t. e \<noteq> AuthError t) \<longleftrightarrow>
   (\<exists>message wallet_pub decoded. signed_by C expected m64 s64 w58 message wallet_pub decoded \<and>
      (case decoded of
         JObj claims \<Rightarrow> claims_match claims tls_key hotkey mid \<and> expiry C claims = Inl e \<and>
           (\<forall>t. e \<noteq> AuthError t)
       | _ \<Rightarrow> e = AttributeError))"
  by (rule verify_escapes)

text \<open>
  Such a payload is not treated as an authentication failure by the runner: the call raises
  \<^verbatim>\<open>AttributeError\<close>, and \<^verbatim>\<open>init\<close>, whose set-up call it is, goes on to its next attempt, whereas
  headers that fail with an \<^verbatim>\<open>AuthError\<close> end it with \<^verbatim>\<open>AUTH_ERROR\<close>.
\<close>

theorem escaped_error_retried:
  assumes "node_interceptor r key = Inr I" and "verify_from_call_headers C I md = Inl e"
    and "is_Exception e" and "e \<noteq> TimeoutError" and "\<nexists>code t. e = AioRpcError code t"
    and "\<nexists>t. e = InvalidCoordinatorUsageError t" and "\<nexists>t. e = TlsProbeError t"
  shows "\<exists>e'. intercept_run C I path [Sent, Headers md False] intercept_begin = (True, Call_raised e') \<and>
    snd (init_resume hook conn r (At_setup n) (Got_exn e')) =
      (if \<exists>t. e = AuthError t then Returned False (Some AUTH_ERROR)
       else if closed r then Returned False (Some ABORTED)
       else if n < retry_attempts r then Await (At_backoff n)
       else Returned False (Some GRPC_CONNECTION_FAILED))"
proof -
  have "should_protect I path"
    using assms(1) by (auto simp: node_interceptor_def should_protect_def new_wallet_interceptor_def
        split: sum.splits)
  moreover have "verification_failed e False = (True, Call_raised e)"
    using assms(3) by (auto simp: verification_failed_def split: exn.splits)
  moreover have "on_exception r n e =
      (if \<exists>t. e = AuthError t then Returned False (Some AUTH_ERROR)
       else if closed r then Returned False (Some ABORTED) else after_failure r n)"
    using assms(3-7) by (auto simp: on_exception_def split: exn.splits)
  ultimately show ?thesis
    using assms(2) by (simp add: intercept_begin_def after_failure_def)
qed

section \<open>The probe\<close>

text \<open>
  C27. Whatever is delivered, a probe that has ended either read the certificate of the peer, and then
  aborted the connection and returned the RSA key of that certificate or raised; or it raised before.
  In the second case the connection, if there is one, is never closed, which happens when the probe
  ends while it waits for the first byte: the clause that aborts guards only the part after it.
\<close>

theorem probe_fate:
  assumes "probe_run load check_auth sslobj evs probe_begin = (wr, Probed res)"
  shows "(wr = Aborted \<and> res = peer_certificate load sslobj \<or>
          wr = Open \<and> check_auth \<and> (\<exists>e. res = Inl e) \<or>
          wr = No_writer \<and> (\<exists>e. res = Inl e)) \<and>
    (\<forall>key. res = Inr key \<longrightarrow>
       (\<exists>leaf cert. sslobj = Some (Some leaf) \<and> leaf \<noteq> [] \<and> load leaf = Inr cert \<and> rsa_key cert \<and>
          spki_der key = cert_spki cert \<and> leaf_cert_pem key = cert_pem cert)) \<and>
    (\<forall>ev\<in>{Read [], Deadline, Failed_with CancelledError}. \<exists>e.
       probe_run load True sslobj [Opened, ev] probe_begin = (Open, Probed (Inl e)))"
proof -
  have ok: "probe_ok load check_auth sslobj (wr, Probed res)"
    using probe_run_ok [OF probe_begin_ok, of load check_auth sslobj evs] assms by simp
  moreover have "\<exists>leaf cert. sslobj = Some (Some leaf) \<and> leaf \<noteq> [] \<and> load leaf = Inr cert \<and>
      rsa_key cert \<and> spki_der key = cert_spki cert \<and> leaf_cert_pem key = cert_pem cert"
    if "peer_certificate load sslobj = Inr key" for key
    using that by (auto simp: peer_certificate_def split: option.splits if_splits sum.splits)
  moreover have "\<forall>ev\<in>{Read [], Deadline, Failed_with CancelledError}. \<exists>e.
      probe_run load True sslobj [Opened, ev] probe_begin = (Open, Probed (Inl e))"
    by (simp add: probe_begin_def)
  ultimately show ?thesis by (cases wr) (auto simp: probe_ok_def split: sum.splits)
qed

text \<open>
  C28. In secure mode a model node that is merely unreachable is given up at the first attempt as an
  authentication failure: the probe turns every \<^verbatim>\<open>OSError\<close>, a refused connection for instance,
  into a \<^verbatim>\<open>TlsProbeError\<close>, which \<^verbatim>\<open>init\<close> does not retry. The expiry of the probe's deadline is
  retried, and so is the same refusal in insecure mode.
\<close>

theorem refused_probe_not_retried:
  assumes "is_OSError e" and "is_secure r" and "n < retry_attempts r"
  shows "\<exists>outcome. probe_run load True sslobj [Failed_with e] probe_begin = (No_writer, Probed outcome) \<and>
    snd (init_resume hook conn r (At_fetch n) (fetched outcome)) = Returned False (Some AUTH_ERROR) \<and>
    snd (init_resume hook conn r (At_fetch n)
      (fetched (case snd (probe_run load True sslobj [Deadline] probe_begin) of Probed x \<Rightarrow> x))) =
      Await (At_backoff n)"
  using assms
  by (auto simp: probe_begin_def connect_failed_def on_exception_def after_failure_def)

text \<open>
  Without credentials the runner recognises a node in secure mode exactly if the node presents a
  certificate with an RSA key: a TLS server with any other key counts as no TLS server, and the
  coordinator is not told of its mistake.
\<close>

theorem secure_node_recognised_iff_rsa:
  assumes "\<And>leaf t. load leaf \<noteq> Inl (InvalidCoordinatorUsageError t)"
  shows "(\<exists>t. snd (init_resume hook conn r (At_probe n e)
             (probed (is_tls_connection (\<lambda>ctx. peer_certificate load sslobj)))) =
           Raised (InvalidCoordinatorUsageError t)) \<longleftrightarrow>
    (\<exists>leaf cert. sslobj = Some (Some leaf) \<and> leaf \<noteq> [] \<and> load leaf = Inr cert \<and> rsa_key cert)"
  using assms
  by (auto simp: peer_certificate_def is_tls_connection_def lookup_context_made after_failure_def
      split: option.splits sum.splits exn.splits if_splits)

section \<open>Gateway tokens\<close>

text \<open>
  C23. What the interceptor adds to a call can be checked the way the receiving side is documented to:
  the headers of the call are kept and three are added, which decode to the JSON of the model id and
  the time, to a signature of exactly these bytes by the coordinator's key, and to its public key;
  everything else of the call is unchanged.
\<close>

theorem gateway_token_verifiable:
  assumes "channel_signer G r = Some I" and "from_pem G pem = Inr creds"
    and "gateway_creds r = Some creds" and "int_of_double now = Inr timestamp"
    and "storable F P (model_id r)" and "storable F P (JInt timestamp)"
  shows "\<exists>d' m s p message. enrich_metadata G F I now d = Inr d' \<and>
    d' = d\<lparr>call_metadata := Some ((case call_metadata d of None \<Rightarrow> [] | Some md \<Rightarrow> md) @
      [(AUTH_MESSAGE_KEY, Md_str m), (AUTH_SIGNATURE_KEY, Md_str s), (AUTH_PUBKEY_KEY, Md_str p)])\<rparr> \<and>
    b64decode m = Inr message \<and>
    bind_result (utf8_decode message) (loads P) =
      Inr (JObj [(lit ''model_id'', model_id r), (lit ''timestamp'', JInt timestamp)]) \<and>
    b64decode s = Inr (rsa_sign G (private_key creds) message) \<and>
    b64decode p = Inr (public_der G (private_key creds))"
proof -
  let ?v = "JObj [(lit ''model_id'', model_id r), (lit ''timestamp'', JInt timestamp)]"
  let ?text = "json_text F (lit '','') (lit '':'') ?v"
  have I: "I = new_gateway_interceptor G (private_key creds) (model_id r)"
    using assms(1,3) by (auto simp: channel_signer_def)
  have rsa: "is_rsa G (private_key creds)"
    using assms(2) by (auto simp: from_pem_def split: sum.splits if_splits)
  have v: "storable F P ?v"
    using assms(5,6) by (simp add: lit_def high_surrogate_def)
  have "ascii ?text" by (rule storable_ascii [OF _ _ v]) (simp_all add: lit_def)
  then obtain message where m: "utf8_encode ?text = Inr message" using utf8_encode_ascii by blast
  then have "token_payload F I now = Inr message"
    using assms(4) storable_printable [OF v]
    by (simp add: token_payload_def I new_gateway_interceptor_def json_dumps_def)
  then have "enrich_metadata G F I now d = Inr (d\<lparr>call_metadata :=
      Some ((case call_metadata d of None \<Rightarrow> [] | Some md \<Rightarrow> md) @
        [(AUTH_MESSAGE_KEY, Md_str (b64encode message)),
         (AUTH_SIGNATURE_KEY, Md_str (b64encode (rsa_sign G (private_key creds) message))),
         (AUTH_PUBKEY_KEY, Md_str (b64encode (public_der G (private_key creds))))])\<rparr>)"
    using rsa by (cases d) (simp add: enrich_metadata_def build_auth_metadata_def sign_def I
        new_gateway_interceptor_def)
  moreover have "bind_result (utf8_decode message) (loads P) = Inr ?v"
    using utf8_decode_encode [OF m] loads_json_text(2) [OF v] by simp
  ultimately show ?thesis using b64decode_encode by blast
qed

section \<open>Witnesses\<close>

definition demo_runner :: runner where
  "demo_runner =
     (case new_runner (Some sample_credentials) None
             (jstr ''d'') (jstr ''m'') JNull (jstr ''ip'') (JInt 1)
             (JObj [(lit ''cruncher_wallet_pubkey'', jstr ''w''), (lit ''cruncher_hotkey'', jstr ''h'')])
      of Inr r \<Rightarrow> r)"

definition demo_key :: peer_key where
  "demo_key = \<lparr>leaf_cert_pem = [9], spki_der = [1, 2, 3]\<rparr>"

lemma demo_node: "node_interceptor demo_runner demo_key = Inr demo_interceptor"
  by (simp add: node_interceptor_def demo_runner_def new_runner_def demo_key_def
      demo_interceptor_def)

lemma demo_key_text: "b64encode [1, 2, 3] = lit ''AQID''"
  by code_simp

lemma demo_storable: "storable (\<lambda>_. []) P (JObj demo_claims)"
  by (simp add: demo_claims_def lit_def high_surrogate_def digits.simps)

lemma demo_message_utf8:
  "utf8_encode (json_text (\<lambda>_. []) (lit '','') (lit '':'') (JObj demo_claims)) = Inr demo_message"
  unfolding demo_message_def
  by (intro utf8_encode_ascii storable_ascii [OF _ _ demo_storable]) (simp_all add: lit_def)

lemma demo_decoded: "decode_signed_message demo demo_message = Inr (JObj demo_claims)"
  using utf8_decode_encode [OF demo_message_utf8] loads_json_text(2) [OF demo_storable]
  by (simp add: decode_signed_message_def)

lemma demo_message_nonempty: "demo_message \<noteq> []"
  by (simp add: demo_message_def)

lemma demo_message_key: "lower (lit ''X-Server-Auth-Message'') = MESSAGE_KEY"
  by code_simp

lemma demo_verified: "verify_from_call_headers demo demo_interceptor (demo_headers demo_message) = Inr ()"
  unfolding demo_interceptor_def demo_headers_def
  using accepted_headers [OF demo_decoded, of "lit ''w''" "[119]" "rev demo_message" "[1, 2, 3]"
      "jstr ''m''" "jstr ''h''" "Some 0" "lit ''X-Server-Auth-Message''" SIGNATURE_KEY WALLET_KEY "[]"]
    demo_message_nonempty demo_message_key demo_key_text
  by (simp add: demo_def lit_def [of "''w''"] demo_claims_def expiry_def)

text \<open>The message \<^verbatim>\<open>[]\<close> is signed JSON, but no object.\<close>

lemma demo_list: "verify_from_call_headers demo demo_interceptor (demo_headers [91, 93]) = Inl AttributeError"
proof -
  have "decode_signed_message demo [91, 93] = Inr (JArr [])"
    by (simp add: decode_signed_message_def utf8_decode_def loads_def scan_evals skip_ws_def is_ws_def)
  then have s: "signed_by demo (jstr ''w'') (b64encode [91, 93]) (b64encode [93, 91]) (lit ''w'')
      [91, 93] [119] (JArr [])"
    by (simp add: signed_by_def b64decode_encode) (simp add: demo_def lit_def)
  have "b64encode [91, 93] \<noteq> []" "b64encode [93, 91] \<noteq> []" by code_simp+
  then show ?thesis
    using verify_reaches_claims [OF s] demo_message_key
    by (simp add: verify_from_call_headers_def md_to_dict_map_of demo_headers_def
        demo_interceptor_def new_wallet_interceptor_def)
qed

lemma demo_run:
  "intercept_run demo demo_interceptor path [Sent, Headers (demo_headers demo_message) False]
     intercept_begin = (False, Call_returned)"
  using demo_verified
  by (simp add: intercept_begin_def should_protect_def demo_interceptor_def
      new_wallet_interceptor_def)

theorem secure_call_vouched_witness:
  "\<exists>w m s message wallet_pub claims.
     dget [(lit ''cruncher_wallet_pubkey'', jstr ''w''), (lit ''cruncher_hotkey'', jstr ''h'')]
       (lit ''cruncher_wallet_pubkey'') = JStr w \<and>
     signed_by demo (JStr w) m s w message wallet_pub (JObj claims) \<and>
     dget claims (lit ''hotkey'') = jstr ''h'' \<and> dget claims (lit ''model_id'') = jstr ''m''"
proof -
  have "infos demo_runner =
      JObj [(lit ''cruncher_wallet_pubkey'', jstr ''w''), (lit ''cruncher_hotkey'', jstr ''h'')]"
    and "model_id demo_runner = jstr ''m''"
    by (simp_all add: demo_runner_def new_runner_def)
  with secure_call_vouched [OF demo_node demo_run] show ?thesis by auto blast
qed

theorem delegation_accepted_whenever_expired_witness:
  "verify_from_call_headers demo
     (new_wallet_interceptor (jstr ''w'') (jstr ''h'') (jstr ''m'') [1, 2, 3])
     ([] @ [(lit ''X-Server-Auth-Message'', Md_str (b64encode demo_message)),
            (SIGNATURE_KEY, Md_str (b64encode (rev demo_message))), (WALLET_KEY, Md_str (lit ''w''))]) =
   Inr ()"
proof (rule delegation_accepted_whenever_expired [OF demo_storable])
  show "utf8_encode (json_text (\<lambda>_. []) (44 # []) (58 # []) (JObj demo_claims)) = Inr demo_message"
    using demo_message_utf8 by (simp add: lit_def [of "'',''"] lit_def [of "'':''"])
  show "b58decode demo (lit ''w'') = Inr [119]" by (simp add: demo_def lit_def)
  show "ed25519_check demo [119] (rev demo_message) demo_message = Inr ()" by (simp add: demo_def)
qed (simp_all add: demo_claims_def demo_message_nonempty demo_message_key demo_key_text)

theorem rejected_call_cancelled_witness:
  "fst (intercept_run demo demo_interceptor [] (Sent # Headers (demo_headers [91, 93]) False # [])
     intercept_begin)"
  using rejected_call_cancelled [of demo_interceptor "[]" demo "demo_headers [91, 93]" AttributeError
      False "[]"] demo_list
  by (simp add: should_protect_def demo_interceptor_def new_wallet_interceptor_def)

theorem escaped_error_retried_witness:
  "\<exists>e'. intercept_run demo demo_interceptor [] [Sent, Headers (demo_headers [91, 93]) False]
      intercept_begin = (True, Call_raised e') \<and>
    snd (init_resume (\<lambda>r :: runner. r) Conn_ok demo_runner (At_setup 1) (Got_exn e')) =
      Await (At_backoff 1)"
  using escaped_error_retried [OF demo_node demo_list, of "[]" "\<lambda>r. r" Conn_ok 1]
  by (simp add: demo_runner_def new_runner_def)

definition demo_load :: "bytes \<Rightarrow> certificate result" where
  "demo_load leaf = Inr \<lparr>rsa_key = (leaf = [7]), cert_spki = [1, 2, 3], cert_pem = [9]\<rparr>"

theorem probe_fate_witness:
  "\<exists>leaf cert. Some (Some [7]) = Some (Some leaf) \<and> demo_load leaf = Inr cert \<and> rsa_key cert \<and>
     spki_der demo_key = cert_spki cert"
proof -
  have "probe_run demo_load True (Some (Some [7])) [Opened, Read [0]] probe_begin =
      (Aborted, Probed (Inr demo_key))"
    by (simp add: probe_begin_def read_certificate_def peer_certificate_def demo_load_def
        demo_key_def)
  from probe_fate [OF this] show ?thesis by blast
qed

theorem refused_probe_not_retried_witness:
  "\<exists>outcome. probe_run demo_load True None [Failed_with ConnectionRefusedError] probe_begin =
      (No_writer, Probed outcome) \<and>
    snd (init_resume (\<lambda>r :: runner. r) Conn_ok demo_runner (At_fetch 1) (fetched outcome)) =
      Returned False (Some AUTH_ERROR)"
  using refused_probe_not_retried [of ConnectionRefusedError demo_runner 1 demo_load None
      "\<lambda>r. r" Conn_ok]
  by (auto simp: demo_runner_def new_runner_def is_secure_def)

theorem secure_node_recognised_iff_rsa_witness:
  "\<nexists>t. snd (init_resume (\<lambda>r :: runner. r) Conn_ok demo_runner (At_probe 1 TimeoutError)
        (probed (is_tls_connection (\<lambda>ctx. peer_certificate demo_load (Some (Some [8])))))) =
      Raised (InvalidCoordinatorUsageError t)"
  using secure_node_recognised_iff_rsa [of demo_load "\<lambda>r. r" Conn_ok demo_runner 1 TimeoutError
      "Some (Some [8])"]
  by (simp add: demo_load_def)

definition demo_rsa :: rsa_primitives where
  "demo_rsa = \<lparr>load_pem = (\<lambda>_. Inr 0), is_rsa = (\<lambda>k. k = 0), rsa_sign = (\<lambda>k. rev),
     public_der = (\<lambda>k. [of_nat k])\<rparr>"

definition demo_behind_gateway :: runner where
  "demo_behind_gateway =
     (case new_runner None (Some \<lparr>private_key = 0\<rparr>) (jstr ''d'') (jstr ''m'') JNull (jstr ''ip'')
             (JInt 1) JNull of Inr r \<Rightarrow> r)"

text \<open>
  The time is the double 1.5.\<close>

theorem gateway_token_verifiable_witness:
  "\<exists>d' message. enrich_metadata demo_rsa (\<lambda>_. lit ''0.5'')
      (new_gateway_interceptor demo_rsa 0 (jstr ''m'')) 4609434218613702656
      \<lparr>rpc = lit ''Call'', deadline = None, call_metadata = None, call_credentials = None,
       wait_for_ready = None\<rparr> = Inr d' \<and>
    bind_result (utf8_decode message) (loads (\<lambda>_. 0)) =
      Inr (JObj [(lit ''model_id'', jstr ''m''), (lit ''timestamp'', JInt 1)])"
proof -
  have r: "channel_signer demo_rsa demo_behind_gateway =
      Some (new_gateway_interceptor demo_rsa 0 (jstr ''m''))"
    "gateway_creds demo_behind_gateway = Some \<lparr>private_key = 0\<rparr>"
    "model_id demo_behind_gateway = jstr ''m''"
    by (simp_all add: channel_signer_def demo_behind_gateway_def new_runner_def)
  have key: "from_pem demo_rsa [] = Inr \<lparr>private_key = 0\<rparr>"
    by (simp add: from_pem_def demo_rsa_def)
  have time: "int_of_double 4609434218613702656 = Inr 1"
    by (simp add: int_of_double_def Let_def)
  have "storable (\<lambda>_. lit ''0.5'') (\<lambda>_. 0) (model_id demo_behind_gateway)"
    and "storable (\<lambda>_. lit ''0.5'') (\<lambda>_. 0) (JInt 1)"
    unfolding r(3) by (simp_all add: lit_def high_surrogate_def digits.simps)
  from gateway_token_verifiable [OF r(1) key r(2) time this, of
      "\<lparr>rpc = lit ''Call'', deadline = None, call_metadata = None, call_credentials = None,
        wait_for_ready = None\<rparr>"]
  show ?thesis unfolding r(3) gateway_credentials.simps by blast
qed

section \<open>Pinned connections\<close>

lemma secure_settings_fields:
  assumes "secure_creds r = Some creds" and "secure_settings render r key = Inr (main, health)"
  obtains d where "infos r = JObj d" and "peer main = render (ip r) @ lit '':'' @ render (port r)"
    and "tls main = Some \<lparr>root_certificates = Some (leaf_cert_pem key),
           client_key = Some (key_bytes creds), client_chain = Some (cert_bytes creds)\<rparr>"
    and "map_of (options main) (lit ''grpc.ssl_target_name_override'') = Some (Inr (server_hostname render r))"
    and "interceptors main =
      [Wallet_auth (new_wallet_interceptor (dget d (lit ''cruncher_wallet_pubkey''))
         (dget d (lit ''cruncher_hotkey'')) (model_id r) (spki_der key))]"
    and "health = main\<lparr>interceptors := []\<rparr>"
proof -
  have "map_of (grpc_options render r) (lit ''grpc.ssl_target_name_override'') =
      Some (Inr (server_hostname render r))"
    using assms(1) by (simp add: grpc_options_def is_secure_def lit_def)
  with assms that show thesis
    by (cases "infos r")
      (auto simp: secure_settings_def node_interceptor_def channel_target_def Let_def bind_result_Inr)
qed

text \<open>
  C22. In secure mode nothing is connected that was not verified. The credentials loaded from a
  directory carry a TLS context that demands a certificate of the given authority and the host name,
  and presents the client's own certificate. When a runner with these credentials has its channels, it
  has probed its node, at its address, with that context and under the host name of its model, the
  connection was kept by the server, and the node's certificate has an RSA key. Both channels trust
  that certificate and no other, present the same client certificate, go to the same address and
  expect the same host name; every call on the main channel must come with a delegation for the very
  key of that certificate, for this model and its wallet and hotkey; the health channel, on which no
  delegation is checked, has no interceptor.
\<close>

theorem secure_channels_pinned:
  assumes "from_directory S dir = Inr creds" and "secure_creds r = Some creds"
    and "connect_secure load network render r = Some (Inr (main, health))"
  shows "\<exists>ca crt secret ctx sslobj evs leaf cert d.
    read_bytes S (dir @ [''ca.crt'']) = Inr ca \<and> read_bytes S (dir @ [''tls.crt'']) = Inr crt \<and>
    read_bytes S (dir @ [''tls.key'']) = Inr secret \<and>
    tls_ctx creds = Some ctx \<and> check_hostname ctx \<and> verify_mode ctx = CERT_REQUIRED \<and>
    trusted_ca ctx = Some ca \<and> cert_chain ctx = Some (crt, secret) \<and>
    network (render (ip r)) (port r) ctx (server_hostname render r) 5 = (sslobj, evs) \<and>
    Opened \<in> set evs \<and> (\<exists>b. b \<noteq> [] \<and> Read b \<in> set evs) \<and>
    sslobj = Some (Some leaf) \<and> load leaf = Inr cert \<and> rsa_key cert \<and> infos r = JObj d \<and>
    peer main = render (ip r) @ lit '':'' @ render (port r) \<and>
    tls main = Some \<lparr>root_certificates = Some (cert_pem cert), client_key = Some secret,
                      client_chain = Some crt\<rparr> \<and>
    map_of (options main) (lit ''grpc.ssl_target_name_override'') =
      Some (Inr (server_hostname render r)) \<and>
    interceptors main =
      [Wallet_auth (new_wallet_interceptor (dget d (lit ''cruncher_wallet_pubkey''))
         (dget d (lit ''cruncher_hotkey'')) (model_id r) (cert_spki cert))] \<and>
    health = main\<lparr>interceptors := []\<rparr>"
proof -
  obtain ca crt secret where files: "read_bytes S (dir @ [''ca.crt'']) = Inr ca"
    "read_bytes S (dir @ [''tls.crt'']) = Inr crt" "read_bytes S (dir @ [''tls.key'']) = Inr secret"
    and creds: "tls_ctx creds = Some (verifying ca crt secret)" "key_bytes creds = secret"
    "cert_bytes creds = crt"
    using assms(1) by (auto simp: from_directory_def from_files_verifies)
  obtain key where key: "snd (fetch_peer load network (render (ip r)) (port r) (verifying ca crt secret)
      (Some (server_hostname render r)) None None) = Probed (Inr key)"
    and settings: "secure_settings render r key = Inr (main, health)"
    using assms(2,3) creds(1)
    by (auto simp: connect_secure_def split: probe_next.splits sum.splits)
  obtain sslobj evs where net: "network (render (ip r)) (port r) (verifying ca crt secret)
      (server_hostname render r) 5 = (sslobj, evs)" "peer_certificate load sslobj = Inr key"
      "Opened \<in> set evs" "\<exists>b. b \<noteq> [] \<and> Read b \<in> set evs"
    by (rule fetch_peer_key [OF key])
  obtain leaf cert where leaf: "sslobj = Some (Some leaf)" "load leaf = Inr cert" "rsa_key cert"
    "key = \<lparr>leaf_cert_pem = cert_pem cert, spki_der = cert_spki cert\<rparr>"
    using net(2) by (auto simp: peer_certificate_def split: option.splits if_splits sum.splits)
  from assms(2) settings show ?thesis
  proof (rule secure_settings_fields)
    fix d
    assume "infos r = JObj d" "peer main = render (ip r) @ lit '':'' @ render (port r)"
      "tls main = Some \<lparr>root_certificates = Some (leaf_cert_pem key),
         client_key = Some (key_bytes creds), client_chain = Some (cert_bytes creds)\<rparr>"
      "map_of (options main) (lit ''grpc.ssl_target_name_override'') =
         Some (Inr (server_hostname render r))"
      "interceptors main =
        [Wallet_auth (new_wallet_interceptor (dget d (lit ''cruncher_wallet_pubkey''))
           (dget d (lit ''cruncher_hotkey'')) (model_id r) (spki_der key))]"
      "health = main\<lparr>interceptors := []\<rparr>"
    with files creds net(1,3,4) leaf show ?thesis by (simp add: verifying_def)
  qed
qed

definition demo_platform :: platform where
  "demo_platform =
     \<lparr>read_bytes = (\<lambda>p. if p = [''tls'', ''tls.key''] then Inr [3]
                       else if p = [''tls'', ''tls.crt''] then Inr [2] else Inr [1]),
      refuses_ca = (\<lambda>_. None), refuses_chain = (\<lambda>_ _. None)\<rparr>"

definition demo_loaded :: secure_credentials where
  "demo_loaded =
     \<lparr>ca_bytes = [1], cert_bytes = [2], key_bytes = [3], tls_ctx = Some (verifying [1] [2] [3])\<rparr>"

definition demo_secured :: runner where
  "demo_secured = demo_runner\<lparr>secure_creds := Some demo_loaded, infos := JObj []\<rparr>"

text \<open>A node that shows its certificate to a client that asks for it by the right name.\<close>

definition demo_network ::
  "pystr \<Rightarrow> json \<Rightarrow> ssl_context \<Rightarrow> pystr \<Rightarrow> int \<Rightarrow> ssl_object \<times> probe_event list" where
  "demo_network host prt ctx name seconds =
     (Some (Some [7]), if cert_chain ctx = None then [Opened, Read []] else [Opened, Read [0]])"

theorem secure_channels_pinned_witness:
  "\<exists>main health. connect_secure demo_load demo_network (\<lambda>_. []) demo_secured = Some (Inr (main, health)) \<and>
     tls main = Some \<lparr>root_certificates = Some [9], client_key = Some [3], client_chain = Some [2]\<rparr> \<and>
     health = main\<lparr>interceptors := []\<rparr>"
proof -
  have creds: "from_directory demo_platform [''tls''] = Inr demo_loaded"
    by (simp add: from_directory_def from_files_verifies demo_platform_def demo_loaded_def)
  have r: "secure_creds demo_secured = Some demo_loaded" by (simp add: demo_secured_def)
  have key: "peer_certificate demo_load (Some (Some [7])) = Inr demo_key"
    by (simp add: peer_certificate_def demo_load_def demo_key_def)
  obtain main health where s: "secure_settings (\<lambda>_. []) demo_secured demo_key = Inr (main, health)"
    by (simp add: secure_settings_def node_interceptor_def demo_secured_def Let_def)
  have c: "connect_secure demo_load demo_network (\<lambda>_. []) demo_secured = Some (Inr (main, health))"
    by (simp add: connect_secure_def r demo_loaded_def fetch_peer_def demo_network_def verifying_def
        handshake_name_def probe_begin_def read_certificate_def key s)
  from secure_channels_pinned [OF creds r c] c show ?thesis
    by (auto simp: demo_platform_def demo_load_def demo_network_def)
qed

end
