(* ===== verification/Json_Types.thy ===== *)
theory Json_Types
  imports Json_Parse
begin

text \<open>
  What \<^verbatim>\<open>json.loads\<close> can return: values whose dictionaries have distinct keys at every level,
  whose strings are code points and whose integers are within the limit of the interpreter, so that
  \<^verbatim>\<open>json.dumps\<close> writes them again.
\<close>

definition codepoints :: "pystr \<Rightarrow> bool" where
  "codepoints s \<longleftrightarrow> list_all (\<lambda>c. c < 1114112) s"

fun wf_json :: "json \<Rightarrow> bool" where
  "wf_json (JInt i) = (length (digits (nat \<bar>i\<bar>)) \<le> 4300)"
| "wf_json (JStr s) = codepoints s"
| "wf_json (JArr xs) = list_all wf_json xs"
| "wf_json (JObj kvs) =
     (distinct (map fst kvs) \<and> list_all (\<lambda>(k, v). codepoints k \<and> wf_json v) kvs)"
| "wf_json _ = True"

lemma wf_json_printable: "wf_json v \<Longrightarrow> printable v"
  by (induction v rule: wf_json.induct) (auto simp: list_all_iff)

lemma codepoints_simps [simp]:
  "codepoints []" "codepoints (c # s) \<longleftrightarrow> c < 1114112 \<and> codepoints s"
  by (simp_all add: codepoints_def)

lemma codepoints_rest:
  "codepoints s \<Longrightarrow> codepoints (drop n s)" "codepoints s \<Longrightarrow> codepoints (dropWhile Q s)"
  by (auto simp: codepoints_def list_all_iff dest: in_set_dropD set_dropWhileD)

lemma codepoints_skip_ws: "codepoints s \<Longrightarrow> codepoints (skip_ws s)"
  by (simp add: skip_ws_def codepoints_rest)

section \<open>Integers\<close>

lemma digits_length: "n < 10 ^ Suc k \<Longrightarrow> length (digits n) \<le> Suc k"
proof (induction k arbitrary: n)
  case (Suc k)
  then have "n div 10 < 10 ^ Suc k" by (intro less_mult_imp_div_less) simp
  from Suc.IH [OF this] show ?case by (subst digits.simps) simp
qed (simp add: digits.simps)

lemma digits_value_less:
  "list_all is_digit ds \<Longrightarrow> foldl (\<lambda>n d. 10 * n + (d - 48)) n ds < Suc n * 10 ^ length ds"
proof (induction ds arbitrary: n)
  case (Cons d ds)
  then have "foldl (\<lambda>n d. 10 * n + (d - 48)) (10 * n + (d - 48)) ds <
      Suc (10 * n + (d - 48)) * 10 ^ length ds"
    by simp
  also have "\<dots> \<le> (10 * Suc n) * 10 ^ length ds"
    using Cons.prems by (intro mult_right_mono) (auto simp: is_digit_def)
  finally show ?case by (simp add: algebra_simps)
qed simp

lemma scan_integer_digits:
  "scan_integer s = Some (ds, r) \<Longrightarrow> ds \<noteq> [] \<and> list_all is_digit ds"
  by (auto simp: scan_integer_def span_digits_def list_all_iff is_digit_def [of 48]
      split: list.splits if_splits dest: set_takeWhileD)

lemma number_digits:
  assumes "scan_integer s = Some (ds, r)" and "length ds \<le> 4300"
  shows "length (digits (digits_value ds)) \<le> 4300"
proof -
  from scan_integer_digits [OF assms(1)] obtain k where k: "length ds = Suc k"
    by (cases ds) auto
  then have "digits_value ds < 10 ^ Suc k"
    using digits_value_less [of ds 0] scan_integer_digits [OF assms(1)] by (simp add: digits_value_def)
  from digits_length [OF this] k assms(2) show ?thesis by simp
qed

lemma scan_number_wf: "scan_number P s = Inr (v, r) \<Longrightarrow> wf_json v"
  by (auto simp: scan_number_def Let_def decode_error_def split: if_splits option.splits prod.splits
      dest: number_digits)

section \<open>Strings\<close>

lemma hex_value_less: "hex_value c = Some n \<Longrightarrow> n < 16"
  by (auto simp: hex_value_def split: if_splits)

lemma scan_hex4_wf: "scan_hex4 s = Some (c, r) \<Longrightarrow> c < 65536 \<and> (codepoints s \<longrightarrow> codepoints r)"
proof (induction s rule: scan_hex4.induct)
  case (1 a b c' d s)
  then show ?case by (auto split: option.splits dest!: hex_value_less)
qed auto

lemma scan_low_wf:
  "scan_low s = Some (c, r) \<Longrightarrow> 56320 \<le> c \<and> c \<le> 57343 \<and> (codepoints s \<longrightarrow> codepoints r)"
  by (induction s rule: scan_low.induct)
    (auto simp: low_surrogate_def split: option.splits if_splits dest!: scan_hex4_wf)

lemma scan_escape_wf:
  "scan_escape s = Some (c, r) \<Longrightarrow> c < 1114112 \<and> (codepoints s \<longrightarrow> codepoints r)"
  by (cases s)
    (auto simp: scan_unicode_def escaped_def high_surrogate_def split: option.splits if_splits
      dest!: scan_hex4_wf scan_low_wf)

lemma scan_string_wf:
  "scan_string s = Inr (x, r) \<Longrightarrow> codepoints s \<Longrightarrow> codepoints x \<and> codepoints r"
proof (induction s arbitrary: x rule: scan_string.induct)
  case (2 c s)
  then show ?case
    by (auto simp: decode_error_def map_sum_Inr_conv split: if_splits option.splits
        dest!: scan_escape_wf)
qed (simp add: decode_error_def)

lemma scan_constant_wf:
  "scan_constant s = Some (v, r) \<Longrightarrow> wf_json v \<and> (codepoints s \<longrightarrow> codepoints r)"
  by (auto simp: scan_constant_def constants_def codepoints_rest split: if_splits)

section \<open>Values\<close>

lemma dict_of_wf:
  assumes "list_all (\<lambda>(k, v). codepoints k \<and> wf_json v) kvs"
  shows "wf_json (dict_of kvs)"
proof -
  have "list_all (\<lambda>(k, v). codepoints k \<and> wf_json v) kvs \<Longrightarrow>
      wf_json (JObj d) \<Longrightarrow> wf_json (JObj (fold (\<lambda>(k, v) d. AList.update k v d) kvs d))" for d
  proof (induction kvs arbitrary: d)
    case (Cons kv kvs)
    obtain k v where kv: "kv = (k, v)" by fastforce
    have "set (AList.update k v d) \<subseteq> insert (k, v) (set d)"
      by (induction d) auto
    with Cons.prems kv have "wf_json (JObj (AList.update k v d))"
      by (auto simp: list_all_iff AList.distinct_update)
    with Cons kv show ?case by simp
  qed simp
  from this [of "[]"] assms show ?thesis by (simp add: dict_of_def)
qed

lemma rest_wf:
  "span_digits s = (ds, r) \<Longrightarrow> codepoints s \<Longrightarrow> codepoints r"
  "scan_integer s = Some (ds, r) \<Longrightarrow> codepoints s \<Longrightarrow> codepoints r"
  "scan_fraction s = (ds, r) \<Longrightarrow> codepoints s \<Longrightarrow> codepoints r"
  "scan_exponent s = (ds, r) \<Longrightarrow> codepoints s \<Longrightarrow> codepoints r"
  by (auto simp: span_digits_def scan_integer_def scan_fraction_def scan_exponent_def codepoints_rest
      split: list.splits if_splits)

lemma scan_number_rest: "scan_number P s = Inr (v, r) \<Longrightarrow> codepoints s \<Longrightarrow> codepoints r"
  using codepoints_rest(1) [of s 1]
  by (auto simp: scan_number_def Let_def decode_error_def split: if_splits option.splits prod.splits
      dest!: rest_wf)

lemma scan_wf:
  "scan_value P s = Inr (v, r) \<Longrightarrow> codepoints s \<Longrightarrow> wf_json v \<and> codepoints r"
  "scan_elems P s = Inr (vs, r) \<Longrightarrow> codepoints s \<Longrightarrow> list_all wf_json vs \<and> codepoints r"
  "scan_members P s = Inr (kvs, r) \<Longrightarrow> codepoints s \<Longrightarrow>
     list_all (\<lambda>(k, v). codepoints k \<and> wf_json v) kvs \<and> codepoints r"
proof (induction P s and P s and P s arbitrary: v r and vs r and kvs r
    rule: scan_value_scan_elems_scan_members.induct)
  case (1 P s)
  note p = 1(3) [unfolded scan_value.simps [of P s]]
  show ?case
  proof (cases s)
    case (Cons c t)
    with 1(4) have t: "codepoints t" "codepoints (skip_ws t)" by (simp_all add: codepoints_skip_ws)
    with p Cons 1(1,2) [OF Cons] 1(4) show ?thesis
      by (auto simp: map_sum_Inr_conv dict_of_wf codepoints_rest split: if_splits option.splits
          dest: scan_string_wf scan_constant_wf scan_number_wf scan_number_rest)
  qed (use p in \<open>simp add: decode_error_def\<close>)
next
  case (2 P s)
  note p = 2(3) [unfolded scan_elems.simps [of P s]]
  then obtain v r1 where v: "scan_value P s = Inr (v, r1)" by (auto split: sum.splits)
  with 2(1,4) have "wf_json v" and r1: "codepoints (skip_ws r1)"
    by (simp_all add: codepoints_skip_ws)
  with p v 2(2) [OF v refl] show ?case
    by (auto simp: map_sum_Inr_conv decode_error_def codepoints_skip_ws split: if_splits list.splits)
next
  case (3 P s)
  note p = 3(3) [unfolded scan_members.simps [of P s]]
  then obtain t k r0 where s: "s = 34 # t" "scan_string t = Inr (k, r0)"
      "take 1 (skip_ws r0) = [58]"
      "length (skip_ws (drop 1 (skip_ws r0))) < length s"
    by (auto simp: decode_error_def split: list.splits if_splits sum.splits prod.splits)
  with p obtain v r1 where v: "scan_value P (skip_ws (drop 1 (skip_ws r0))) = Inr (v, r1)"
    by (auto split: sum.splits)
  have k: "codepoints k" "codepoints (skip_ws (drop 1 (skip_ws r0)))"
    using s(1,2) 3(4) by (auto simp: codepoints_skip_ws codepoints_rest dest: scan_string_wf)
  then have "wf_json v" and "codepoints (skip_ws r1)"
    using 3(1) [OF s(1) _ s(2) refl] s v by (auto simp: codepoints_skip_ws)
  with k p s v 3(2) [of 34 t "(k, r0)" k r0 "(v, r1)" v r1] show ?case
    by (auto simp: map_sum_Inr_conv decode_error_def codepoints_skip_ws split: if_splits list.splits)
qed

lemma loads_wf: "loads P s = Inr v \<Longrightarrow> codepoints s \<Longrightarrow> wf_json v"
  by (auto simp: loads_def codepoints_skip_ws split: if_splits sum.splits dest: scan_wf(1))

end
