(* ===== verification/Wire_Types.thy ===== *)
theory Wire_Types
  imports Call_Properties Json_Types
begin

text \<open>
  The types of the wire: what a receiver can rely on about a value that \<^verbatim>\<open>decode_data\<close> returned,
  whatever the bytes were and whoever sent them.
\<close>

section \<open>Values of a type\<close>

text \<open>An integer received in \<open>n\<close> bytes is signed and of that width.\<close>

fun typed :: "nat \<Rightarrow> variant_type \<Rightarrow> ('f, 't) pydata \<Rightarrow> bool" where
  "typed n VT_NONE (Plain JNull) = True"
| "typed n VT_DOUBLE (Plain (JFloat _)) = (n = 8)"
| "typed n VT_INT (Plain (JInt i)) = (- (256 ^ n) \<le> 2 * i \<and> 2 * i < 256 ^ n)"
| "typed n VT_STRING (Plain (JStr s)) = list_all scalar s"
| "typed n VT_PARQUET (Frame _) = True"
| "typed n VT_JSON (Plain v) = wf_json v"
| "typed n _ _ = False"

text \<open>One step of the decoder reads one scalar value.\<close>

lemma utf8_scan_step:
  assumes "utf8_scan (b # bs) = Some s"
  obtains c r s' where "utf8_scan r = Some s'" "s = c # s'" "scalar c" "length r \<le> length bs"
proof -
  have two_bytes: "scalar ((b - 192) * 64 + (b1 - 128))" if "b < 224" "cont b1" for b1
  proof -
    have "(b - 192) * 64 \<le> 31 * 64" using that by (intro mult_right_mono) auto
    with that show ?thesis by (auto simp: scalar_def cont_def)
  qed
  consider (ascii) "b < 128" | (two) "194 \<le> b" "b < 224" | (three) "224 \<le> b" "b < 240"
    | (four) "240 \<le> b" "b < 245"
    | (none) "\<not> b < 128" "\<not> (194 \<le> b \<and> b < 224)" "\<not> (224 \<le> b \<and> b < 240)"
      "\<not> (240 \<le> b \<and> b < 245)"
    by linarith
  then show ?thesis
  proof cases
    case ascii
    with assms show ?thesis by (auto simp: scalar_def intro: that [of bs])
  next
    case two
    with assms obtain b1 r s' where "bs = b1 # r" "cont b1" "utf8_scan r = Some s'"
      "s = ((b - 192) * 64 + (b1 - 128)) # s'"
      by (auto split: list.splits if_splits)
    with two two_bytes show ?thesis by (intro that [of r]) auto
  next
    case three
    with assms have "\<exists>b1 b2 r. bs = b1 # b2 # r" by (auto split: list.splits)
    then obtain b1 b2 r where bs: "bs = b1 # b2 # r" by blast
    let ?c = "(b - 224) * 4096 + (b1 - 128) * 64 + (b2 - 128)"
    from three bs assms obtain s' where "utf8_scan r = Some s'" "s = ?c # s'" "scalar ?c"
      by (simp add: Let_def split: if_split_asm) blast
    with bs show ?thesis by (intro that [of r]) auto
  next
    case four
    with assms have "\<exists>b1 b2 b3 r. bs = b1 # b2 # b3 # r" by (auto split: list.splits)
    then obtain b1 b2 b3 r where bs: "bs = b1 # b2 # b3 # r" by blast
    let ?c = "(b - 240) * 262144 + (b1 - 128) * 4096 + (b2 - 128) * 64 + (b3 - 128)"
    from four bs assms obtain s' where "utf8_scan r = Some s'" "s = ?c # s'" "scalar ?c"
      by (simp add: Let_def split: if_split_asm) blast
    with bs show ?thesis by (intro that [of r]) auto
  next
    case none
    with assms show ?thesis by simp
  qed
qed

lemma utf8_scan_scalar: "utf8_scan bs = Some s \<Longrightarrow> list_all scalar s"
proof (induction "length bs" arbitrary: bs s rule: less_induct)
  case less
  show ?case
  proof (cases bs)
    case Nil
    with less.prems show ?thesis by simp
  next
    case (Cons b bs')
    with less.prems have "utf8_scan (b # bs') = Some s" by (simp only:)
    then obtain c r s' where r: "utf8_scan r = Some s'" "length r \<le> length bs'"
      and s: "s = c # s'" "scalar c"
      by (rule utf8_scan_step)
    from r Cons have "list_all scalar s'" by (intro less.hyps [of r]) simp_all
    with s show ?thesis by simp
  qed
qed

lemma utf8_decode_scalar: "utf8_decode bs = Inr s \<Longrightarrow> list_all scalar s"
  by (auto simp: utf8_decode_def split: option.splits dest: utf8_scan_scalar)

lemma scalars_codepoints: "list_all scalar s \<Longrightarrow> codepoints s"
  by (auto simp: codepoints_def list_all_iff scalar_def)

lemma decode_typed: "decode_data L bs t = Inr v \<Longrightarrow> typed (length bs) t v"
proof (induction L bs t rule: decode_data.induct)
  case (3 L bs)
  with int_to_from_bytes [of bs] show ?case by (auto simp: int_to_bytes_def split: if_splits)
next
  case (6 L bs)
  then show ?case
    by (auto simp: bind_result_Inr split: sum.splits
        dest!: utf8_decode_scalar dest: loads_wf [OF _ scalars_codepoints])
qed (auto simp: bind_result_Inr unpack_double_def split: if_splits dest: utf8_decode_scalar)

text \<open>
  A typed value can be sent with its type; an integer must fit its eight bytes.
\<close>

lemma typed_encodable:
  assumes "typed n t v" and "t = VT_INT \<Longrightarrow> n \<le> 8" and "t \<noteq> VT_PARQUET"
    and "\<And>w. ascii (float_repr L w)"
  shows "\<exists>bs. encode_data L t v = Inr bs"
proof (cases "t = VT_JSON")
  case True
  with assms(1) obtain x where x: "v = Plain x" "wf_json x" by (cases v) auto
  let ?s = "json_text (float_repr L) (lit '', '') (lit '': '') x"
  have "ascii ?s" using assms(4) by (intro json_text_ascii) (simp_all add: lit_def)
  with True x wf_json_printable [OF x(2)] show ?thesis
    using utf8_encode_ascii [of ?s] by (auto simp: json_dumps_def)
next
  case False
  show ?thesis
  proof (cases "t = VT_INT")
    case True
    with assms(1,2) obtain i where i: "v = Plain (JInt i)" "- (256 ^ n) \<le> 2 * i" "2 * i < 256 ^ n"
      "n \<le> 8"
      by (cases "(n, t, v)" rule: typed.cases) auto
    moreover have "(256::int) ^ n \<le> 256 ^ 8" using i(4) by (intro power_increasing) simp_all
    ultimately show ?thesis using True by (simp add: int_to_bytes_def)
  next
    case no_int: False
    with False assms(1,3) show ?thesis
      by (cases "(n, t, v)" rule: typed.cases) (auto simp: utf8_encode_def)
  qed
qed

text \<open>
  C21. Whatever bytes arrive, a value that \<^verbatim>\<open>decode_data\<close> returns has the type it was announced
  with: no value, a double from exactly eight bytes, a signed integer of the width received, a string
  of Unicode scalar values, a data frame, or a JSON value whose dictionaries have distinct keys at
  every level, whose strings are code points and whose integers have at most 4300 digits; an unknown
  or Arrow type yields no value. And except for data frames, whose bytes another library makes, and
  integers of more than eight bytes, the value can be encoded again with that type.
\<close>

theorem decoded_values_well_typed:
  assumes "decode_data L bs t = Inr v" and "\<And>w. ascii (float_repr L w)"
  shows "typed (length bs) t v \<and>
    (t \<noteq> VT_PARQUET \<and> (t = VT_INT \<longrightarrow> length bs \<le> 8) \<longrightarrow> (\<exists>bs'. encode_data L t v = Inr bs'))"
  using decode_typed [OF assms(1)] typed_encodable [OF _ _ _ assms(2)] by blast

text \<open>
  The number of three bytes, the last of them negative.\<close>

theorem decoded_values_well_typed_witness:
  "typed 3 VT_INT (Plain (JInt (- 65536)) :: (unit, unit) pydata) \<and>
   (\<exists>bs'. encode_data sample_libraries VT_INT (Plain (JInt (- 65536))) = Inr bs')"
  using decoded_values_well_typed [of sample_libraries "[0, 0, 255]" VT_INT "Plain (JInt (- 65536))"]
  by (simp add: sample_libraries_def lit_def int_from_bytes_def)

end
