(* ===== verification/Task_Turns.thy ===== *)
theory Task_Turns
  imports Cluster_Properties
begin

text \<open>
  The coroutines of one event, taking turns in any order. Every coroutine is about one model; what it
  does to the two dictionaries and to the objects concerns that model only (\<open>only_about\<close>), so the
  coroutines of different models do not disturb each other, and each of them brings about what it was
  created for, in at most six turns.
\<close>

section \<open>What is in service\<close>

record service =
  s_deployment :: json
  s_name :: json
  s_ip :: json
  s_port :: json
  s_infos :: json

type_synonym view = "json \<Rightarrow> service option"

definition service_of :: "'a runner_scheme \<Rightarrow> service" where
  "service_of r =
     \<lparr>s_deployment = deployment_id r, s_name = model_name r, s_ip = ip r, s_port = port r,
      s_infos = infos r\<rparr>"

definition view_of :: "'a runner_scheme cluster \<Rightarrow> view" where
  "view_of c = (\<lambda>mid. map_option (\<lambda>a. service_of (heap c a)) (map_of (models_run c) mid))"

section \<open>Turns\<close>

text \<open>The delivery that lets a coroutine go on.\<close>

fun friendly :: "wait \<Rightarrow> awaited" where
  "friendly (On_init a (At_setup n)) = Got_setup True None"
| "friendly (On_init a (At_probe n e)) = Got_bool False"
| "friendly _ = Got_unit"

text \<open>
  One turn of a coroutine: its beginning, or the way from one await to the next. What opening the
  channels gives during the turn, and what the await delivers, are part of the turn. A schedule names
  the coroutines in the order of their turns; turns of a coroutine that has ended are idle.
\<close>

fun take_turn ::
  "'a runner_scheme environment \<Rightarrow> conn_outcome \<Rightarrow> (wait \<Rightarrow> awaited) \<Rightarrow>
   'a runner_scheme cluster \<times> task \<Rightarrow> 'a runner_scheme cluster \<times> task" where
  "take_turn K conn d (c, Ready cl) = map_prod id Task (start K conn cl c)"
| "take_turn K conn d (c, Task (Wait w fs)) =
     map_prod id Task (resume K conn (d w) (Wait w fs) c)"
| "take_turn K conn d (c, Task st) = (c, Task st)"

type_synonym turn = "nat \<times> conn_outcome \<times> (wait \<Rightarrow> awaited)"

fun run_tasks ::
  "'a runner_scheme environment \<Rightarrow> turn list \<Rightarrow> 'a runner_scheme cluster \<times> task list \<Rightarrow>
   'a runner_scheme cluster \<times> task list" where
  "run_tasks K [] x = x"
| "run_tasks K ((i, conn, d) # sched) (c, ts) =
     run_tasks K sched
       (if i < length ts
        then (case take_turn K conn d (c, ts ! i) of (c', t) \<Rightarrow> (c', ts[i := t]))
        else (c, ts))"

text \<open>
  The scheduler, with the rest of the world, is any function from the cluster and the coroutines to a
  schedule.
\<close>

type_synonym 'r scheduler = "'r cluster \<Rightarrow> call list \<Rightarrow> turn list"

definition run_calls ::
  "'a runner_scheme environment \<Rightarrow> 'a runner_scheme scheduler \<Rightarrow> call list \<Rightarrow>
   'a runner_scheme cluster \<Rightarrow> 'a runner_scheme cluster \<times> task list" where
  "run_calls K S calls c = run_tasks K (S c calls) (c, map Ready calls)"

text \<open>
  \<^verbatim>\<open>asyncio.gather\<close>: the exception of one of the coroutines, if one has raised; otherwise it returns
  once all of them have ended, and until then it goes on waiting (\<open>None\<close>).
\<close>

fun raised_by :: "task \<Rightarrow> exn option" where
  "raised_by (Task (Done (Raise e))) = Some e"
| "raised_by _ = None"

definition gathered :: "task list \<Rightarrow> unit result option" where
  "gathered ts =
     (case List.map_filter raised_by ts of
        e # es \<Rightarrow> Some (Inl e)
      | [] \<Rightarrow> (if list_all (\<lambda>t. t = Task (Done Ok)) ts then Some (Inr ()) else None))"

text \<open>Turns are steps of the cluster with its tasks, and a schedule is a run of it.\<close>

definition acceptable :: "turn \<Rightarrow> bool" where
  "acceptable t \<longleftrightarrow> (\<forall>w. accepts w (snd (snd t) w))"

lemma friendly_accepted: "accepts w (friendly w)"
  by (cases w rule: friendly.cases) auto

lemma same_system:
  "cluster_of s = c \<Longrightarrow> tasks s = ts \<Longrightarrow> s\<lparr>cluster_of := c, tasks := ts\<rparr> = s"
  "tasks s ! i = t \<Longrightarrow> s\<lparr>tasks := (tasks s)[i := t]\<rparr> = s"
  by (cases s; auto)+

lemma turn_is_step:
  assumes "i < length (tasks s)" and "\<And>w. accepts w (d w)"
    and "take_turn K conn d (cluster_of s, tasks s ! i) = (c', t)"
  shows "reachable K s (s\<lparr>cluster_of := c', tasks := (tasks s)[i := t]\<rparr>)"
proof (cases "(K, conn, d, cluster_of s, tasks s ! i)" rule: take_turn.cases)
  case (1 K' conn' d' c cl)
  with assms system_step.begin_task [of i s cl K conn] show ?thesis
    by (cases "start K conn cl (cluster_of s)") (simp add: r_into_rtranclp)
next
  case (2 K' conn' d' c w fs)
  with assms system_step.wake_task [of i s w fs "d w" K conn] show ?thesis
    by (cases "resume K conn (d w) (Wait w fs) (cluster_of s)") (simp add: r_into_rtranclp)
qed (use assms in \<open>auto simp: same_system\<close>)

lemma turns_reachable:
  "run_tasks K sched (cluster_of s, tasks s) = (c', ts) \<Longrightarrow> list_all acceptable sched \<Longrightarrow>
   reachable K s (s\<lparr>cluster_of := c', tasks := ts\<rparr>)"
proof (induction sched arbitrary: s)
  case (Cons turn sched)
  obtain i conn d where turn: "turn = (i, conn, d)" by (cases turn)
  show ?case
  proof (cases "i < length (tasks s)")
    case True
    obtain c1 t where step: "take_turn K conn d (cluster_of s, tasks s ! i) = (c1, t)" by fastforce
    let ?s1 = "s\<lparr>cluster_of := c1, tasks := (tasks s)[i := t]\<rparr>"
    have "reachable K ?s1 (?s1\<lparr>cluster_of := c', tasks := ts\<rparr>)"
      using Cons.prems True turn step by (intro Cons.IH) simp_all
    with turn_is_step [OF True _ step] Cons.prems(2) turn show ?thesis
      by (simp add: acceptable_def rtranclp_trans)
  next
    case False
    with Cons.prems turn show ?thesis by (intro Cons.IH) simp_all
  qed
qed (simp add: same_system)

section \<open>One model only\<close>

definition only_about ::
  "json \<Rightarrow> 'a runner_scheme cluster \<Rightarrow> 'a runner_scheme cluster \<Rightarrow> bool" where
  "only_about mid c c' \<longleftrightarrow> next_address c' = next_address c \<and>
     (\<forall>k. k \<noteq> mid \<longrightarrow> map_of (models_run c') k = map_of (models_run c) k \<and>
        map_of (pending_model_runs c') k = map_of (pending_model_runs c) k) \<and>
     (\<forall>a. model_id (heap c' a) = model_id (heap c a) \<and>
        (model_id (heap c a) \<noteq> mid \<longrightarrow> heap c' a = heap c a))"

lemma only_about_trans:
  "only_about mid c c' \<Longrightarrow> only_about mid c' c'' \<Longrightarrow> only_about mid c c''"
  by (auto simp: only_about_def)

lemma listed_model_id:
  "wf_cluster c \<Longrightarrow> map_of (models_run c) k = Some a \<Longrightarrow> model_id (heap c a) = k"
  by (simp add: wf_cluster_def keyed_def)

lemma view_of_others:
  assumes "wf_cluster c" and "only_about mid c c'" and "k \<noteq> mid"
  shows "view_of c' k = view_of c k"
  using assms listed_model_id [OF assms(1), of k]
  by (cases "map_of (models_run c) k") (auto simp: view_of_def only_about_def)

lemma about_modify:
  "model_id (heap c a) = mid \<Longrightarrow> (\<And>r. model_id (f r) = model_id r) \<Longrightarrow> only_about mid c (modify a f c)"
  by (auto simp: only_about_def modify_def)

lemma about_remove_end:
  "model_id (heap c a) = mid \<Longrightarrow> only_about mid c (remove_end a c)"
  by (auto simp: only_about_def remove_end_def Let_def py_dict_simps)

section \<open>The stages of a coroutine\<close>

definition can_connect :: "'a runner_scheme \<Rightarrow> bool" where
  "can_connect r \<longleftrightarrow> \<not> closed r \<and> retry_attempts r = 5 \<and>
     (\<forall>creds. secure_creds r = Some creds \<longrightarrow> tls_ctx creds \<noteq> None \<and> (\<exists>d. infos r = JObj d))"

text \<open>An object to be connected and put into service, where it is not yet.\<close>

definition to_connect :: "dyn_runner cluster \<Rightarrow> nat \<Rightarrow> json \<Rightarrow> service option \<Rightarrow> bool" where
  "to_connect c n mid out \<longleftrightarrow>
     n < next_address c \<and> model_id (heap c n) = mid \<and> out = Some (service_of (heap c n)) \<and>
     can_connect (heap c n) \<and> map_of (models_run c) mid \<noteq> Some n"

text \<open>What follows the removal of the model that is in service: nothing, or the new object.\<close>

definition afterwards ::
  "dyn_runner cluster \<Rightarrow> json \<Rightarrow> service option \<Rightarrow> frame list \<Rightarrow> nat \<Rightarrow> bool" where
  "afterwards c mid out fs k \<longleftrightarrow>
     fs = [] \<and> out = None \<and> k = 0 \<or>
     (\<exists>n. fs = [After_replace n] \<and> k = 4 \<and> to_connect c n mid out)"

definition init_stage :: "'a runner_scheme \<Rightarrow> init_pc \<Rightarrow> nat \<Rightarrow> bool" where
  "init_stage r pc k \<longleftrightarrow>
     pc = At_fetch 1 \<and> k = 4 \<and> (\<exists>d. infos r = JObj d) \<or>
     pc = At_ready 1 \<and> k = 3 \<or> pc = At_health 1 \<and> k = 2 \<or> pc = At_setup 1 \<and> k = 1"

text \<open>
  The coroutine of a model, with the turns it needs at most, and what will then be in service under
  the id.
\<close>

fun stage :: "dyn_runner cluster \<Rightarrow> json \<Rightarrow> service option \<Rightarrow> task \<Rightarrow> nat \<Rightarrow> bool" where
  "stage c mid out (Ready (Add n)) k \<longleftrightarrow>
     k = 6 \<and> map_of (pending_model_runs c) mid = None \<and> to_connect c n mid out"
| "stage c mid out (Ready (Remove a)) k \<longleftrightarrow>
     k = 2 \<and> map_of (pending_model_runs c) mid = None \<and> map_of (models_run c) mid = Some a \<and>
     out = None"
| "stage c mid out (Task (Wait (On_close a) fs)) k \<longleftrightarrow>
     map_of (pending_model_runs c) mid = None \<and> map_of (models_run c) mid = Some a \<and>
     (\<exists>fs' k'. fs = After_close a # fs' \<and> k = Suc k' \<and> afterwards c mid out fs' k')"
| "stage c mid out (Task (Wait (On_init n pc) fs)) k \<longleftrightarrow>
     fs = [After_init n] \<and> map_of (models_run c) mid = None \<and>
     map_of (pending_model_runs c) mid = Some n \<and> n < next_address c \<and>
     model_id (heap c n) = mid \<and> out = Some (service_of (heap c n)) \<and> init_stage (heap c n) pc k"
| "stage c mid out (Task (Done Ok)) k \<longleftrightarrow>
     k = 0 \<and> map_of (pending_model_runs c) mid = None \<and> view_of c mid = out"
| "stage c mid out _ k \<longleftrightarrow> False"

lemma to_connect_others:
  "to_connect c n k out \<Longrightarrow> only_about mid c c' \<Longrightarrow> k \<noteq> mid \<Longrightarrow> to_connect c' n k out"
  by (auto simp: to_connect_def only_about_def)

lemma afterwards_others:
  "afterwards c k out fs m \<Longrightarrow> only_about mid c c' \<Longrightarrow> k \<noteq> mid \<Longrightarrow> afterwards c' k out fs m"
  by (auto simp: afterwards_def to_connect_others)

lemma stage_others:
  assumes "wf_cluster c" and "only_about mid c c'" and "k \<noteq> mid" and "stage c k out t n"
  shows "stage c' k out t n"
  using assms view_of_others [OF assms(1-3)] to_connect_others [OF _ assms(2,3)]
    afterwards_others [OF _ assms(2,3)]
  by (cases "(c, k, out, t, n)" rule: stage.cases) (auto simp: only_about_def)

section \<open>One turn\<close>

type_synonym stage_predicate = "dyn_runner cluster \<Rightarrow> json \<Rightarrow> service option \<Rightarrow> task \<Rightarrow> nat \<Rightarrow> bool"

definition turn_ok ::
  "stage_predicate \<Rightarrow> dyn_runner cluster \<Rightarrow> json \<Rightarrow> service option \<Rightarrow> nat \<Rightarrow> dyn_runner cluster \<times> task \<Rightarrow> bool" where
  "turn_ok P c mid out k x \<longleftrightarrow>
     wf_cluster (fst x) \<and> only_about mid c (fst x) \<and> (\<exists>k'\<le>k. P (fst x) mid out (snd x) k')"

lemma turn_okI:
  "wf_cluster c' \<Longrightarrow> only_about mid c c' \<Longrightarrow> P c' mid out t k' \<Longrightarrow> k' \<le> k \<Longrightarrow>
   turn_ok P c mid out k (c', t)"
  by (auto simp: turn_ok_def)

text \<open>The object enters \<^verbatim>\<open>init\<close>, nothing being in service or pending under its id.\<close>

lemma init_turn:
  assumes wf: "wf_cluster c" and conn: "to_connect c n mid out"
    and run: "map_of (models_run c) mid = None"
  shows "turn_ok stage c mid out 4
    (map_prod id Task (drive (dyn_environment R F) Conn_ok (add_init Conn_ok n [] c)))"
proof -
  let ?r = "heap c n"
  let ?p = "c\<lparr>pending_model_runs := AList.update mid n (pending_model_runs c)\<rparr>"
  have n: "model_id ?r = mid" "n < next_address c" and r: "\<not> closed ?r" "retry_attempts ?r = 5"
    using conn by (simp_all add: to_connect_def can_connect_def)
  have wf_p: "wf_cluster (modify n (\<lambda>_. r) ?p)" if "model_id r = mid" for r
    using wf n that
    by (auto simp: wf_cluster_def keyed_def modify_def py_dict_simps AList.distinct_update)
  have about: "only_about mid c (modify n (\<lambda>_. r) ?p)" if "model_id r = mid" for r
    using n that by (auto simp: only_about_def modify_def py_dict_simps)
  show ?thesis
  proof (cases "secure_creds ?r")
    case None
    let ?r' = "?r\<lparr>grpc_channel := Some 1, grpc_health_channel := Some 1\<rparr>"
    have "add_init Conn_ok n [] c =
        (modify n (\<lambda>_. ?r') ?p, Wait (On_init n (At_ready 1)) [After_init n])"
      using None n r by (simp add: add_init_def init_begin_def start_attempt_def is_secure_def
          Let_def connect_gateway_channels_def connect_insecure_channels_def)
    moreover have "stage (modify n (\<lambda>_. ?r') ?p) mid out (Task (Wait (On_init n (At_ready 1)) [After_init n])) 3"
      using n run conn by (simp add: modify_def py_dict_simps init_stage_def to_connect_def service_of_def)
    ultimately show ?thesis
      using wf_p [of ?r'] about [of ?r'] n by (auto intro: turn_okI)
  next
    case (Some creds)
    then obtain ctx d where ctx: "tls_ctx creds = Some ctx" "infos ?r = JObj d"
      using conn by (auto simp: to_connect_def can_connect_def)
    have "add_init Conn_ok n [] c =
        (modify n (\<lambda>_. ?r) ?p, Wait (On_init n (At_fetch 1)) [After_init n])"
      using Some ctx n r by (simp add: add_init_def init_begin_def start_attempt_def is_secure_def
          Let_def fetch_begin_def)
    moreover have "stage (modify n (\<lambda>_. ?r) ?p) mid out (Task (Wait (On_init n (At_fetch 1)) [After_init n])) 4"
      using n run conn ctx by (simp add: modify_def py_dict_simps init_stage_def to_connect_def)
    ultimately show ?thesis
      using wf_p [of ?r] about [of ?r] n by (auto intro: turn_okI)
  qed
qed

lemma turn_ok_before:
  "only_about mid c c0 \<Longrightarrow> turn_ok P c0 mid out k x \<Longrightarrow> k \<le> m \<Longrightarrow> turn_ok P c mid out m x"
  by (auto simp: turn_ok_def dest: only_about_trans intro: order_trans)

text \<open>The model in service is closed and taken out of service; then the rest goes on.\<close>

lemma closed_turn:
  assumes wf: "wf_cluster c" and run: "map_of (models_run c) mid = Some a"
    and pend: "map_of (pending_model_runs c) mid = None" and rest: "afterwards c mid out fs k"
  shows "turn_ok stage c mid out k
    (map_prod id Task (drive (dyn_environment R F) Conn_ok (c, Run Ok (After_close a # fs))))"
proof -
  let ?c = "remove_end a c"
  note mid = listed_model_id [OF wf run]
  have wf': "wf_cluster ?c"
    using wf by (simp add: remove_end_def Let_def wf_cluster_def keyed_drop drop_if_is_ok)
  have none: "map_of (models_run ?c) mid = None" "map_of (pending_model_runs ?c) mid = None"
    using run pend mid by (simp_all add: remove_end_def Let_def py_dict_simps)
  from rest show ?thesis
  proof (unfold afterwards_def, elim disjE conjE exE)
    assume "fs = []" "out = None" "k = 0"
    with wf' none about_remove_end [OF mid] show ?thesis
      by (auto simp: view_of_def intro!: turn_okI)
  next
    fix n
    assume fs: "fs = [After_replace n]" "k = 4" and "to_connect c n mid out"
    then have "to_connect ?c n mid out"
      using none by (simp add: to_connect_def remove_end_def Let_def)
    from turn_ok_before [OF about_remove_end [OF mid] init_turn [OF wf' this none(1)] order_refl] fs
    show ?thesis by simp
  qed
qed

lemma remove_turn:
  assumes wf: "wf_cluster c" and run: "map_of (models_run c) mid = Some a"
    and pend: "map_of (pending_model_runs c) mid = None" and rest: "afterwards c mid out fs k"
  shows "turn_ok stage c mid out (Suc k)
    (map_prod id Task (drive (dyn_environment R F) Conn_ok (remove_begin a fs c)))"
proof -
  let ?c = "modify a close_begin c"
  note mid = listed_model_id [OF wf run]
  have wf': "wf_cluster ?c" by (rule wf_evolves [OF close_op.modify_evolves]) (simp_all add: wf)
  have about: "only_about mid c ?c"
    using mid by (intro about_modify) (simp_all add: close_begin_def)
  have keep: "map_of (models_run ?c) mid = Some a" "map_of (pending_model_runs ?c) mid = None"
    "afterwards ?c mid out fs k"
    using run pend rest by (auto simp: afterwards_def to_connect_def modify_def)
  show ?thesis
  proof (cases "close_awaits (heap ?c a)")
    case True
    then have "remove_begin a fs c = (?c, Wait (On_close a) (After_close a # fs))"
      by (simp add: remove_begin_def)
    with wf' about keep show ?thesis by (auto intro!: turn_okI [where k' = "Suc k"])
  next
    case False
    then have "remove_begin a fs c = (?c, Run Ok (After_close a # fs))"
      by (simp add: remove_begin_def)
    with turn_ok_before [OF about closed_turn [OF wf' keep], of "Suc k"] show ?thesis by simp
  qed
qed

text \<open>The coroutine \<^verbatim>\<open>init\<close> goes on to its end.\<close>

lemma connect_turn:
  assumes wf: "wf_cluster c" and st: "stage c mid out (Task (Wait (On_init n pc) fs)) (Suc k)"
  shows "turn_ok stage c mid out k
    (take_turn (dyn_environment R F) Conn_ok friendly (c, Task (Wait (On_init n pc) fs)))"
proof -
  let ?r = "heap c n"
  have n: "model_id ?r = mid" "n < next_address c" "out = Some (service_of ?r)" "fs = [After_init n]"
    and none: "map_of (models_run c) mid = None" "map_of (pending_model_runs c) mid = Some n"
    and pc: "init_stage ?r pc (Suc k)"
    using st by simp_all
  have wf_r: "wf_cluster (modify n (\<lambda>_. r) c)" and about: "only_about mid c (modify n (\<lambda>_. r) c)"
    if "model_id r = mid" for r
    using wf n that by (auto simp: wf_cluster_def keyed_def only_about_def modify_def)
  from pc consider (fetch) d where "pc = At_fetch 1" "k = 3" "infos ?r = JObj d"
    | (ready) "pc = At_ready 1" "k = 2" | (health) "pc = At_health 1" "k = 1" | (last) "pc = At_setup 1" "k = 0"
    by (auto simp: init_stage_def)
  then show ?thesis
  proof cases
    case fetch
    let ?r' = "?r\<lparr>grpc_channel := Some 1, grpc_health_channel := Some 1\<rparr>"
    have "take_turn (dyn_environment R F) Conn_ok friendly (c, Task (Wait (On_init n pc) fs)) =
        (modify n (\<lambda>_. ?r') c, Task (Wait (On_init n (At_ready 1)) [After_init n]))"
      using fetch n by (simp add: resume_def deliver_def dyn_environment_def connect_secure_channels_def)
    moreover have "stage (modify n (\<lambda>_. ?r') c) mid out
        (Task (Wait (On_init n (At_ready 1)) [After_init n])) 3"
      using n none by (simp add: modify_def init_stage_def service_of_def)
    ultimately show ?thesis using wf_r [of ?r'] about [of ?r'] n fetch by (auto intro: turn_okI)
  next
    case ready
    have "take_turn (dyn_environment R F) Conn_ok friendly (c, Task (Wait (On_init n pc) fs)) =
        (modify n (\<lambda>_. ?r) c, Task (Wait (On_init n (At_health 1)) [After_init n]))"
      using ready n by (simp add: resume_def deliver_def dyn_environment_def)
    moreover have "stage (modify n (\<lambda>_. ?r) c) mid out
        (Task (Wait (On_init n (At_health 1)) [After_init n])) 2"
      using n none by (simp add: modify_def init_stage_def)
    ultimately show ?thesis using wf_r [of ?r] about [of ?r] n ready by (auto intro: turn_okI)
  next
    case health
    have "take_turn (dyn_environment R F) Conn_ok friendly (c, Task (Wait (On_init n pc) fs)) =
        (modify n (\<lambda>_. setup_begin ?r) c, Task (Wait (On_init n (At_setup 1)) [After_init n]))"
      using health n by (simp add: resume_def deliver_def dyn_environment_def)
    moreover have "stage (modify n (\<lambda>_. setup_begin ?r) c) mid out
        (Task (Wait (On_init n (At_setup 1)) [After_init n])) 1"
      using n none by (simp add: modify_def init_stage_def setup_begin_def service_of_def)
    ultimately show ?thesis
      using wf_r [of "setup_begin ?r"] about [of "setup_begin ?r"] n health
      by (auto simp: setup_begin_def intro: turn_okI)
  next
    case last
    let ?c = "add_enlist n (add_unpend n (modify n (\<lambda>_. ?r) c))"
    have "take_turn (dyn_environment R F) Conn_ok friendly (c, Task (Wait (On_init n pc) fs)) = (?c, Task (Done Ok))"
      using last n by (simp add: resume_def deliver_def dyn_environment_def)
    moreover have "stage ?c mid out (Task (Done Ok)) 0"
      using n none by (simp add: add_enlist_def add_unpend_def modify_def py_dict_simps view_of_def)
    moreover have "wf_cluster ?c"
      using wf n by (auto simp: wf_cluster_def keyed_def add_enlist_def add_unpend_def modify_def
          py_dict_simps AList.distinct_update drop_if_is_ok split: if_splits)
    moreover have "only_about mid c ?c"
      using n by (auto simp: only_about_def add_enlist_def add_unpend_def modify_def py_dict_simps)
    ultimately show ?thesis by (auto intro: turn_okI)
  qed
qed

text \<open>Every turn brings the coroutine closer to its end and concerns its model only.\<close>

lemma advance_turn:
  assumes wf: "wf_cluster c" and st: "stage c mid out t k"
  shows "turn_ok stage c mid out (k - 1) (take_turn (dyn_environment R F) Conn_ok friendly (c, t))"
proof -
  note start_defs = start_def begin_call_def
  show ?thesis
  proof (cases "(c, mid, out, t, k)" rule: stage.cases)
    case (1 c' mid' out' n k')
    show ?thesis
    proof (cases "find_model c mid")
      case None
      then have "map_of (models_run c) mid = None" by (simp add: find_model_def split: option.splits)
      with 1 st init_turn [OF wf, of n mid out R F] turn_ok_before [of mid c c stage out 4 _ 5] None
      show ?thesis
        by (auto simp: start_defs add_begin_def to_connect_def only_about_def)
    next
      case (Some b)
      with 1 st have "map_of (models_run c) mid = Some b"
        by (simp add: find_model_def split: option.splits)
      with 1 st Some remove_turn [OF wf this, of out "[After_replace n]" 4 R F] show ?thesis
        by (simp add: start_defs add_begin_def afterwards_def to_connect_def)
    qed
  next
    case (2 c' mid' out' a k')
    with st remove_turn [OF wf, of mid a out "[]" 0 R F] show ?thesis
      by (simp add: start_defs afterwards_def)
  next
    case (3 c' mid' out' a fs k')
    with st closed_turn [OF wf, of mid a out _ _ R F] show ?thesis
      by (auto simp: resume_def deliver_def)
  next
    case (4 c' mid' out' n pc fs k')
    with st have "k = Suc (k - 1)" by (auto simp: init_stage_def)
    with 4 st connect_turn [OF wf, of mid out n pc fs "k - 1" R F] show ?thesis by simp
  next
    case (5 c' mid' out' k')
    with st wf show ?thesis by (auto simp: only_about_def intro: turn_okI)
  qed (use st in auto)
qed

end
