(* ===== verification/Faulty_Turns.thy ===== *)
theory Faulty_Turns
  imports Task_Turns
begin

text \<open>
  The coroutines of an event when the models misbehave: channels that cannot be opened, TLS keys that
  cannot be fetched, set-ups that fail or time out, models that refuse, the socket lost during a report.
  As long as what happens is \<open>bearable\<close> (no cancellation, no usage error, closing works, and the look for
  TLS finds none), a coroutine ends in at most thirty-four turns without an exception, and the model it
  is about is in service as told or not at all (\<open>astray\<close> is the counterpart of \<open>stage\<close>).
\<close>

section \<open>What may happen\<close>

text \<open>The exceptions \<^verbatim>\<open>init\<close> lets through.\<close>

fun escapes :: "exn \<Rightarrow> bool" where
  "escapes CancelledError = True"
| "escapes (InvalidCoordinatorUsageError _) = True"
| "escapes _ = False"

fun conn_error :: "conn_outcome \<Rightarrow> exn option" where
  "conn_error Conn_ok = None"
| "conn_error (Conn_fail_creds e) = Some e"
| "conn_error (Conn_fail_main e) = Some e"
| "conn_error (Conn_fail_health e) = Some e"

definition conn_bearable :: "conn_outcome \<Rightarrow> bool" where
  "conn_bearable conn \<longleftrightarrow> (\<forall>e. conn_error conn = Some e \<longrightarrow> \<not> escapes e)"

text \<open>
  Deliveries: closing works, a report is sent or the socket found closed, a sleep ends, a probe of a
  node without credentials finds no TLS. Everything else may fail in any way.
\<close>

fun init_bearable :: "init_pc \<Rightarrow> awaited \<Rightarrow> bool" where
  "init_bearable (At_probe n e) aw \<longleftrightarrow> aw = Got_bool False"
| "init_bearable (At_backoff n) aw \<longleftrightarrow> aw = Got_unit"
| "init_bearable pc (Got_exn e) \<longleftrightarrow> \<not> escapes e"
| "init_bearable pc aw \<longleftrightarrow> answers pc aw"

fun bearable :: "wait \<Rightarrow> awaited \<Rightarrow> bool" where
  "bearable (On_close a) aw \<longleftrightarrow> aw = Got_unit"
| "bearable (On_send m) aw \<longleftrightarrow>
     aw \<in> {Got_unit, Got_exn ConnectionClosed, Got_exn InvalidState, Got_exn TimeoutError}"
| "bearable (On_init a pc) aw \<longleftrightarrow> init_bearable pc aw"

lemma init_bearable_answers: "init_bearable pc aw \<Longrightarrow> answers pc aw"
  by (cases "(pc, aw)" rule: init_bearable.cases) auto

lemma bearable_accepted: "bearable w aw \<Longrightarrow> accepts w aw"
  by (cases w) (auto simp: init_bearable_answers)

lemma friendly_bearable: "bearable w (friendly w)"
  by (cases w rule: friendly.cases) auto

section \<open>init goes on or returns\<close>

fun runs_on :: "init_next \<Rightarrow> bool" where
  "runs_on (Await pc) = True"
| "runs_on (Returned b err) = True"
| "runs_on _ = False"

lemma runs_on_after_failure [simp]: "runs_on (after_failure r n)"
  by (simp add: after_failure_def)

lemma runs_on_exception: "\<not> escapes e \<Longrightarrow> runs_on (on_exception r n e)"
  by (cases e) (simp_all add: on_exception_def)

lemma connect_error:
  "connect_secure_channels conn n r = (r', Some e) \<Longrightarrow> conn_bearable conn \<Longrightarrow> \<not> escapes e"
  "open_channels conn n r = (r', Some e) \<Longrightarrow> conn_bearable conn \<Longrightarrow> \<not> escapes e"
  by (cases conn; cases "infos r"; auto simp: connect_secure_channels_def conn_bearable_def)
    (cases conn; auto simp: conn_bearable_def)

lemma runs_on_start:
  assumes "start_attempt conn r n = (r', nxt)" and "conn_bearable conn" and "n \<le> retry_attempts r"
  shows "runs_on nxt"
  using assms
  by (auto simp: start_attempt_def fetch_begin_def connect_gateway_channels_def
      connect_insecure_channels_def intro: runs_on_exception dest: connect_error(2)
      split: if_splits prod.splits option.splits)

lemma runs_on_resume:
  assumes "init_resume hook conn r pc aw = (r', nxt)" and "conn_bearable conn"
    and "init_bearable pc aw" and "backoff_ok (retry_attempts r) pc"
  shows "runs_on nxt"
  using assms
proof (cases "(hook, conn, r, pc, aw)" rule: init_resume.cases)
  case (1 hook' conn' r' n)
  with assms show ?thesis
    by (auto intro: runs_on_exception dest: connect_error(1) split: prod.splits option.splits)
next
  case (11 hook' conn' r' n)
  with assms runs_on_start [of conn r "Suc n"] show ?thesis by (simp add: backoff_ok_def)
qed (auto simp: runs_on_exception)

text \<open>What is in service does not depend on the channels.\<close>

lemma service_of_connect:
  "service_of (fst (open_channels conn n r)) = service_of r"
  "service_of (fst (connect_secure_channels conn n r)) = service_of r"
  by (cases conn; cases "infos r"; simp add: connect_secure_channels_def service_of_def)+

lemma service_of_start: "service_of (fst (start_attempt conn r n)) = service_of r"
  using service_of_connect(1) [of conn n r]
  by (auto simp: start_attempt_def fetch_begin_def connect_gateway_channels_def
      connect_insecure_channels_def split: prod.split option.split)

lemma service_of_resume: "service_of (fst (init_resume setup_begin conn r pc aw)) = service_of r"
proof (cases "(setup_begin, conn, r, pc, aw)" rule: init_resume.cases)
  case (1 hook conn' r' n)
  then show ?thesis
    using service_of_connect(2) [of conn n r] by (auto split: prod.split option.split)
qed (simp_all add: service_of_start, simp add: setup_begin_def service_of_def)

section \<open>The stages\<close>

text \<open>An object to be tried, with the five attempts of the factory.\<close>

definition to_try :: "dyn_runner cluster \<Rightarrow> nat \<Rightarrow> json \<Rightarrow> service option \<Rightarrow> bool" where
  "to_try c n mid out \<longleftrightarrow>
     n < next_address c \<and> model_id (heap c n) = mid \<and> out = Some (service_of (heap c n)) \<and>
     retry_attempts (heap c n) = 5 \<and> map_of (models_run c) mid \<noteq> Some n"

lemma to_connect_try: "to_connect c n mid out \<Longrightarrow> to_try c n mid out"
  by (simp add: to_connect_def to_try_def can_connect_def)

text \<open>A model that is neither in service nor pending, with an object that has been given up.\<close>

definition given_up :: "dyn_runner cluster \<Rightarrow> nat \<Rightarrow> json \<Rightarrow> bool" where
  "given_up c n mid \<longleftrightarrow>
     n < next_address c \<and> model_id (heap c n) = mid \<and>
     map_of (models_run c) mid = None \<and> map_of (pending_model_runs c) mid = None"

definition trying :: "dyn_runner cluster \<Rightarrow> nat \<Rightarrow> json \<Rightarrow> service option \<Rightarrow> bool" where
  "trying c n mid out \<longleftrightarrow>
     n < next_address c \<and> model_id (heap c n) = mid \<and> out = Some (service_of (heap c n)) \<and>
     retry_attempts (heap c n) = 5 \<and>
     map_of (models_run c) mid = None \<and> map_of (pending_model_runs c) mid = Some n"

definition afterwards_try ::
  "dyn_runner cluster \<Rightarrow> json \<Rightarrow> service option \<Rightarrow> frame list \<Rightarrow> nat \<Rightarrow> bool" where
  "afterwards_try c mid out fs k \<longleftrightarrow>
     fs = [] \<and> out = None \<and> k = 0 \<or>
     (\<exists>n. fs = [After_replace n] \<and> k = 32 \<and> to_try c n mid out)"

fun astray :: "dyn_runner cluster \<Rightarrow> json \<Rightarrow> service option \<Rightarrow> task \<Rightarrow> nat \<Rightarrow> bool" where
  "astray c mid out (Ready (Add n)) k \<longleftrightarrow>
     k = 34 \<and> map_of (pending_model_runs c) mid = None \<and> to_try c n mid out"
| "astray c mid out (Ready (Remove a)) k \<longleftrightarrow>
     k = 2 \<and> map_of (pending_model_runs c) mid = None \<and> map_of (models_run c) mid = Some a \<and>
     out = None"
| "astray c mid out (Task (Wait (On_close a) fs)) k \<longleftrightarrow>
     (\<exists>fs' k'. fs = After_close a # fs' \<and> k = Suc k' \<and>
        (map_of (pending_model_runs c) mid = None \<and> map_of (models_run c) mid = Some a \<and>
           afterwards_try c mid out fs' k' \<or>
         given_up c a mid \<and> fs' = [] \<and> k' = 0))"
| "astray c mid out (Task (Wait (On_init n pc) fs)) k \<longleftrightarrow>
     fs = [After_init n] \<and> k = remaining 5 pc + 2 \<and> trying c n mid out \<and> backoff_ok 5 pc"
| "astray c mid out (Task (Wait (On_send m) fs)) k \<longleftrightarrow>
     (\<exists>n. fs = [After_send n] \<and> k = 2 \<and> given_up c n mid)"
| "astray c mid out (Task (Done Ok)) k \<longleftrightarrow>
     k = 0 \<and> map_of (pending_model_runs c) mid = None \<and> view_of c mid \<in> {None, out}"
| "astray c mid out _ k \<longleftrightarrow> False"

lemma to_try_others: "to_try c n k out \<Longrightarrow> only_about mid c c' \<Longrightarrow> k \<noteq> mid \<Longrightarrow> to_try c' n k out"
  by (auto simp: to_try_def only_about_def)

lemma afterwards_try_others:
  "afterwards_try c k out fs m \<Longrightarrow> only_about mid c c' \<Longrightarrow> k \<noteq> mid \<Longrightarrow> afterwards_try c' k out fs m"
  by (auto simp: afterwards_try_def to_try_others)

lemma given_up_others: "given_up c n k \<Longrightarrow> only_about mid c c' \<Longrightarrow> k \<noteq> mid \<Longrightarrow> given_up c' n k"
  by (auto simp: given_up_def only_about_def)

lemma trying_others: "trying c n k out \<Longrightarrow> only_about mid c c' \<Longrightarrow> k \<noteq> mid \<Longrightarrow> trying c' n k out"
  by (auto simp: trying_def only_about_def)

lemma astray_others:
  assumes "wf_cluster c" and "only_about mid c c'" and "k \<noteq> mid" and "astray c k out t n"
  shows "astray c' k out t n"
  using assms view_of_others [OF assms(1-3)] to_try_others [OF _ assms(2,3)]
    afterwards_try_others [OF _ assms(2,3)] given_up_others [OF _ assms(2,3)]
    trying_others [OF _ assms(2,3)]
  by (cases "(c, k, out, t, n)" rule: astray.cases) (auto simp: only_about_def)

section \<open>Giving up\<close>

lemma closed_given_up:
  assumes wf: "wf_cluster c" and g: "given_up c n mid"
  shows "turn_ok astray c mid out 0
    (map_prod id Task (drive (dyn_environment R F) conn (c, Run Ok [After_close n])))"
proof -
  have n: "model_id (heap c n) = mid" using g by (simp add: given_up_def)
  have "wf_cluster (remove_end n c)"
    using wf by (simp add: remove_end_def Let_def wf_cluster_def keyed_drop drop_if_is_ok)
  with about_remove_end [OF n] g show ?thesis
    by (auto simp: given_up_def view_of_def remove_end_def Let_def py_dict_simps intro!: turn_okI)
qed

lemma remove_given_up:
  assumes wf: "wf_cluster c" and g: "given_up c n mid"
  shows "turn_ok astray c mid out 1
    (map_prod id Task (drive (dyn_environment R F) conn (remove_begin n [] c)))"
proof -
  let ?c = "modify n close_begin c"
  have mid: "model_id (heap c n) = mid" using g by (simp add: given_up_def)
  have wf': "wf_cluster ?c" by (rule wf_evolves [OF close_op.modify_evolves]) (simp_all add: wf)
  have about: "only_about mid c ?c"
    using mid by (intro about_modify) (simp_all add: close_begin_def)
  have g': "given_up ?c n mid" using g by (simp add: given_up_def modify_def close_begin_def)
  show ?thesis
  proof (cases "close_awaits (heap ?c n)")
    case True
    with wf' about g' show ?thesis by (auto simp: remove_begin_def intro!: turn_okI)
  next
    case False
    then have "remove_begin n [] c = (?c, Run Ok [After_close n])" by (simp add: remove_begin_def)
    with turn_ok_before [OF about closed_given_up [OF wf' g', of out R F conn], of 1] show ?thesis
      by simp
  qed
qed

lemma socket_irrelevant [simp]:
  "wf_cluster (c\<lparr>ws_client := w\<rparr>) = wf_cluster c"
  "given_up (c\<lparr>ws_client := w\<rparr>) n mid = given_up c n mid"
  by (simp_all add: wf_cluster_def keyed_def given_up_def)

lemma about_socket: "only_about mid c (c\<lparr>ws_client := w\<rparr>)"
  by (simp add: only_about_def)

lemma about_refl: "only_about mid c c"
  by (simp add: only_about_def)

lemma ended_given_up: "given_up c n mid \<Longrightarrow> astray c mid out (Task (Done Ok)) 0"
  by (simp add: given_up_def view_of_def)

lemma sent_given_up:
  assumes "wf_cluster c" and "given_up c n mid"
  shows "turn_ok astray c mid out 1
    (map_prod id Task (drive (dyn_environment R F) conn (c, Run Ok [After_send n])))"
  using remove_given_up [OF assms] by simp

lemma report_given_up:
  assumes wf: "wf_cluster c" and g: "given_up c n mid"
  shows "turn_ok astray c mid out 2 (map_prod id Task
    (drive (dyn_environment R F) conn (report_begin (dyn_environment R F) n code reason [] c)))"
proof (cases "report_failure c")
  case False
  with wf ended_given_up [OF g] about_refl show ?thesis
    by (auto simp: report_begin_def intro!: turn_okI)
next
  case True
  let ?m = "dumps (dyn_environment R F) (failure_message (heap c n) code reason)"
  obtain w awaits where "send_message_begin (ws_client c) ?m = (w, awaits)" by fastforce
  with True have "report_begin (dyn_environment R F) n code reason [] c =
      (c\<lparr>ws_client := w\<rparr>, if awaits then Wait (On_send ?m) [After_send n] else Run Ok [After_send n])"
    by (simp add: report_begin_def)
  moreover have "turn_ok astray (c\<lparr>ws_client := w\<rparr>) mid out 1 (map_prod id Task
      (drive (dyn_environment R F) conn (c\<lparr>ws_client := w\<rparr>, Run Ok [After_send n])))"
    by (rule sent_given_up) (simp_all add: wf g)
  note turn_ok_before [OF about_socket this, of 2]
  ultimately show ?thesis
    using wf g about_socket [of mid c w] by (cases awaits) (auto intro!: turn_okI)
qed

lemma failed_given_up:
  assumes wf: "wf_cluster c" and g: "given_up c n mid"
  shows "turn_ok astray c mid out 2 (map_prod id Task
    (drive (dyn_environment R F) conn (add_failed (dyn_environment R F) n err [] c)))"
proof (cases "err = Some ABORTED")
  case True
  with wf ended_given_up [OF g] about_refl show ?thesis
    by (auto simp: add_failed_def intro!: turn_okI)
next
  case False
  with report_given_up [OF assms] show ?thesis by (simp add: add_failed_def)
qed

section \<open>Trying\<close>

lemma tried_turn:
  assumes wf: "wf_cluster c" and t: "trying c n mid out"
  shows "turn_ok astray c mid out 2 (map_prod id Task
    (drive (dyn_environment R F) conn (c, Run (Init_pair b err) [After_init n])))"
proof -
  let ?c = "add_unpend n c"
  have n: "model_id (heap c n) = mid" "n < next_address c" using t by (simp_all add: trying_def)
  have wf': "wf_cluster ?c" and about: "only_about mid c ?c" and g: "given_up ?c n mid"
    using wf t n by (auto simp: wf_cluster_def keyed_def add_unpend_def py_dict_simps only_about_def
        given_up_def trying_def drop_if_is_ok split: if_splits)
  show ?thesis
  proof (cases b)
    case False
    with turn_ok_before [OF about failed_given_up [OF wf' g], of 2] show ?thesis by simp
  next
    case True
    let ?e = "add_enlist n ?c"
    have heap: "heap ?c = heap c" by (simp add: add_unpend_def)
    have "wf_cluster ?e"
      using wf' n by (auto simp: wf_cluster_def keyed_def add_enlist_def heap add_unpend_def py_dict_simps
          AList.distinct_update split: if_splits)
    moreover have "only_about mid ?c ?e"
      using n by (auto simp: only_about_def add_enlist_def heap py_dict_simps)
    moreover have "astray ?e mid out (Task (Done Ok)) 0"
      using g t n by (simp add: given_up_def trying_def add_enlist_def heap view_of_def py_dict_simps)
    ultimately show ?thesis using True only_about_trans [OF about] by (auto intro!: turn_okI)
  qed
qed

lemma next_turn:
  assumes "wf_cluster c" and "trying c n mid out" and "runs_on nxt"
    and "\<And>pc. nxt = Await pc \<Longrightarrow> backoff_ok 5 pc \<and> remaining 5 pc + 2 \<le> k" and "2 \<le> k"
  shows "turn_ok astray c mid out k (map_prod id Task
    (drive (dyn_environment R F) conn (c, init_status n [] nxt)))"
proof (cases nxt)
  case (Await pc)
  with assms about_refl show ?thesis by (auto intro!: turn_okI)
next
  case (Returned b err)
  with turn_ok_before [OF about_refl tried_turn [OF assms(1,2)] assms(5)] show ?thesis by simp
qed (use assms(3) in simp_all)

lemma trying_modify:
  assumes "trying c n mid out" and "wf_cluster c" and "service_of r = service_of (heap c n)"
    and "model_id r = model_id (heap c n)" and "retry_attempts r = retry_attempts (heap c n)"
  shows "trying (modify n (\<lambda>_. r) c) n mid out" and "wf_cluster (modify n (\<lambda>_. r) c)"
    and "only_about mid c (modify n (\<lambda>_. r) c)"
proof -
  show "trying (modify n (\<lambda>_. r) c) n mid out" and "only_about mid c (modify n (\<lambda>_. r) c)"
    using assms(1,3-5) by (auto simp: trying_def modify_def only_about_def)
  show "wf_cluster (modify n (\<lambda>_. r) c)"
    using assms(2,4) by (auto simp: wf_cluster_def keyed_def modify_def)
qed

text \<open>The coroutine \<^verbatim>\<open>init\<close> takes one of the deliveries it still needs.\<close>

lemma resume_turn:
  assumes wf: "wf_cluster c" and st: "astray c mid out (Task (Wait (On_init n pc) fs)) k"
    and conn: "conn_bearable conn" and aw: "init_bearable pc aw"
  shows "turn_ok astray c mid out (k - 1) (map_prod id Task
    (resume (dyn_environment R F) conn aw (Wait (On_init n pc) fs) c))"
proof -
  let ?r = "heap c n"
  obtain r nxt where r: "init_resume setup_begin conn ?r pc aw = (r, nxt)" by fastforce
  have fs: "fs = [After_init n]" and k: "k = remaining 5 pc + 2" and t: "trying c n mid out"
    and ok: "backoff_ok 5 pc" and five: "retry_attempts ?r = 5"
    using st by (auto simp: trying_def)
  have kept: "model_id r = model_id ?r" "retry_attempts r = retry_attempts ?r"
    "service_of r = service_of ?r"
    using dyn_setup.init_resume_keeps [of conn ?r pc aw] service_of_resume [of conn ?r pc aw] r
    by (simp_all add: kept_defs)
  note after = trying_modify [OF t wf kept(3,1,2)]
  have on: "runs_on nxt" using runs_on_resume [OF r conn aw] ok five by simp
  have pos: "0 < remaining 5 pc" by (cases pc) simp_all
  have less: "backoff_ok 5 pc' \<and> remaining 5 pc' + 2 \<le> k - 1" if "nxt = Await pc'" for pc'
    using that r init_resume_attempt(2) [of setup_begin conn ?r pc aw r pc']
      init_resume_remaining [of setup_begin conn ?r pc aw r pc'] init_bearable_answers [OF aw] ok five k
    by simp
  have "resume (dyn_environment R F) conn aw (Wait (On_init n pc) fs) c =
      drive (dyn_environment R F) conn (modify n (\<lambda>_. r) c, init_status n [] nxt)"
    by (simp add: resume_def deliver_def dyn_environment_def r fs)
  with turn_ok_before [OF after(3) next_turn [OF after(2,1) on less] order_refl] pos k show ?thesis
    by simp
qed

lemma try_turn:
  assumes wf: "wf_cluster c" and t: "to_try c n mid out"
    and none: "map_of (models_run c) mid = None" and conn: "conn_bearable conn"
  shows "turn_ok astray c mid out 32
    (map_prod id Task (drive (dyn_environment R F) conn' (add_init conn n [] c)))"
proof -
  let ?r = "heap c n" and ?p = "c\<lparr>pending_model_runs := AList.update mid n (pending_model_runs c)\<rparr>"
  have n: "model_id ?r = mid" "n < next_address c" "retry_attempts ?r = 5"
    using t by (simp_all add: to_try_def)
  have p: "wf_cluster ?p" "trying ?p n mid out" "only_about mid c ?p"
    using wf t none by (auto simp: wf_cluster_def keyed_def py_dict_simps AList.distinct_update
        to_try_def trying_def only_about_def split: if_splits)
  obtain r nxt where r: "start_attempt conn ?r (Suc 0) = (r, nxt)" by fastforce
  have kept: "model_id r = model_id ?r" "retry_attempts r = retry_attempts ?r"
    "service_of r = service_of ?r"
    using start_attempt_keeps [of conn ?r "Suc 0"] service_of_start [of conn ?r "Suc 0"] r
    by (simp_all add: kept_defs)
  have after: "trying (modify n (\<lambda>_. r) ?p) n mid out" "wf_cluster (modify n (\<lambda>_. r) ?p)"
    "only_about mid ?p (modify n (\<lambda>_. r) ?p)"
    by (rule trying_modify [OF p(2,1)]; simp add: kept)+
  have on: "runs_on nxt" using runs_on_start [OF r conn] n by simp
  have le: "backoff_ok 5 pc \<and> remaining 5 pc + 2 \<le> 32" if "nxt = Await pc" for pc
    using r that start_attempt_attempt [of conn ?r "Suc 0" r pc] start_attempt_remaining [of conn ?r "Suc 0" r pc] n
    by simp
  have "add_init conn n [] c = (modify n (\<lambda>_. r) ?p, init_status n [] nxt)"
    by (simp add: add_init_def init_begin_def n r Let_def)
  with turn_ok_before [OF only_about_trans [OF p(3) after(3)] next_turn [OF after(2,1) on le] order_refl]
  show ?thesis by simp
qed

section \<open>Replacing and removing\<close>

lemma closed_listed_turn:
  assumes wf: "wf_cluster c" and run: "map_of (models_run c) mid = Some a"
    and pend: "map_of (pending_model_runs c) mid = None" and rest: "afterwards_try c mid out fs k"
    and conn: "conn_bearable conn"
  shows "turn_ok astray c mid out k
    (map_prod id Task (drive (dyn_environment R F) conn (c, Run Ok (After_close a # fs))))"
proof -
  let ?c = "remove_end a c"
  note mid = listed_model_id [OF wf run]
  have wf': "wf_cluster ?c"
    using wf by (simp add: remove_end_def Let_def wf_cluster_def keyed_drop drop_if_is_ok)
  have none: "map_of (models_run ?c) mid = None" "map_of (pending_model_runs ?c) mid = None"
    using run pend mid by (simp_all add: remove_end_def Let_def py_dict_simps)
  from rest show ?thesis
  proof (unfold afterwards_try_def, elim disjE conjE exE)
    assume "fs = []" "out = None" "k = 0"
    with wf' none about_remove_end [OF mid] show ?thesis
      by (auto simp: view_of_def intro!: turn_okI)
  next
    fix n
    assume fs: "fs = [After_replace n]" "k = 32" and "to_try c n mid out"
    then have "to_try ?c n mid out"
      using none by (simp add: to_try_def remove_end_def Let_def)
    from turn_ok_before [OF about_remove_end [OF mid] try_turn [OF wf' this none(1) conn] order_refl] fs
    show ?thesis by simp
  qed
qed

lemma remove_listed_turn:
  assumes wf: "wf_cluster c" and run: "map_of (models_run c) mid = Some a"
    and pend: "map_of (pending_model_runs c) mid = None" and rest: "afterwards_try c mid out fs k"
    and conn: "conn_bearable conn"
  shows "turn_ok astray c mid out (Suc k)
    (map_prod id Task (drive (dyn_environment R F) conn (remove_begin a fs c)))"
proof -
  let ?c = "modify a close_begin c"
  note mid = listed_model_id [OF wf run]
  have wf': "wf_cluster ?c" by (rule wf_evolves [OF close_op.modify_evolves]) (simp_all add: wf)
  have about: "only_about mid c ?c"
    using mid by (intro about_modify) (simp_all add: close_begin_def)
  have run': "map_of (models_run ?c) mid = Some a" "map_of (pending_model_runs ?c) mid = None"
    using run pend by (simp_all add: modify_def)
  have "to_try ?c n mid out" if "to_try c n mid out" for n
    using that run by (auto simp: to_try_def modify_def)
  with rest have rest': "afterwards_try ?c mid out fs k" by (auto simp: afterwards_try_def)
  show ?thesis
  proof (cases "close_awaits (heap ?c a)")
    case True
    with run' rest' wf' about show ?thesis
      by (auto simp: remove_begin_def intro!: turn_okI [where k' = "Suc k"])
  next
    case False
    then have "remove_begin a fs c = (?c, Run Ok (After_close a # fs))"
      by (simp add: remove_begin_def)
    with turn_ok_before [OF about closed_listed_turn [OF wf' run' rest' conn], of "Suc k"] show ?thesis
      by simp
  qed
qed

text \<open>Every turn brings the coroutine closer to its end and concerns its model only.\<close>

definition turn_bearable :: "conn_outcome \<Rightarrow> (wait \<Rightarrow> awaited) \<Rightarrow> bool" where
  "turn_bearable conn d \<longleftrightarrow> conn_bearable conn \<and> (\<forall>w. bearable w (d w))"

lemma ready_add_turn:
  assumes wf: "wf_cluster c" and st: "astray c mid out (Ready (Add n)) k" and conn: "conn_bearable conn"
  shows "turn_ok astray c mid out (k - 1)
    (map_prod id Task (start (dyn_environment R F) conn (Add n) c))"
proof (cases "find_model c mid")
  case None
  then have "map_of (models_run c) mid = None" by (simp add: find_model_def split: option.splits)
  with st try_turn [OF wf _ _ conn, of n mid out R F conn] None
    turn_ok_before [OF about_refl, of astray c mid out 32 _ 33]
  show ?thesis by (simp add: start_def begin_call_def add_begin_def to_try_def)
next
  case (Some a)
  with st have a: "map_of (models_run c) mid = Some a"
    by (simp add: find_model_def split: option.splits)
  have "afterwards_try c mid out [After_replace n] 32" using st by (simp add: afterwards_try_def)
  with st Some remove_listed_turn [OF wf a _ this conn, of R F] show ?thesis
    by (simp add: start_def begin_call_def add_begin_def to_try_def)
qed

lemma close_turn:
  assumes wf: "wf_cluster c" and st: "astray c mid out (Task (Wait (On_close a) fs)) k"
    and conn: "conn_bearable conn"
  shows "turn_ok astray c mid out (k - 1)
    (map_prod id Task (resume (dyn_environment R F) conn Got_unit (Wait (On_close a) fs) c))"
proof -
  obtain fs' k' where fs: "fs = After_close a # fs'" "k = Suc k'"
    and "map_of (pending_model_runs c) mid = None \<and> map_of (models_run c) mid = Some a \<and>
           afterwards_try c mid out fs' k' \<or> given_up c a mid \<and> fs' = [] \<and> k' = 0"
    using st by auto
  then show ?thesis
    using closed_listed_turn [OF wf, of mid a out fs' k' conn R F] conn
      closed_given_up [OF wf, of a mid out R F conn]
    by (auto simp: resume_def deliver_def)
qed

lemma send_turn:
  assumes wf: "wf_cluster c" and st: "astray c mid out (Task (Wait (On_send m) fs)) k"
    and "bearable (On_send m) aw"
  shows "turn_ok astray c mid out (k - 1)
    (map_prod id Task (resume (dyn_environment R F) conn aw (Wait (On_send m) fs) c))"
proof -
  obtain n where n: "fs = [After_send n]" "k = 2" "given_up c n mid" using st by auto
  obtain w where "deliver (dyn_environment R F) conn aw (On_send m) fs c =
      (c\<lparr>ws_client := w\<rparr>, Run Ok [After_send n])"
  proof (cases "aw = Got_unit")
    case True
    with n that [of "ws_client c"] show ?thesis by (simp add: deliver_def)
  next
    case False
    with assms(3) n that show ?thesis by (auto simp: deliver_def send_message_end_def)
  qed
  moreover have "turn_ok astray (c\<lparr>ws_client := w\<rparr>) mid out 1 (map_prod id Task
      (drive (dyn_environment R F) conn (c\<lparr>ws_client := w\<rparr>, Run Ok [After_send n])))"
    by (rule sent_given_up) (simp_all add: wf n)
  note turn_ok_before [OF about_socket this order_refl]
  ultimately show ?thesis using n by (simp add: resume_def)
qed

lemma advance_astray:
  assumes wf: "wf_cluster c" and st: "astray c mid out t k" and turn: "turn_bearable conn d"
  shows "turn_ok astray c mid out (k - 1) (take_turn (dyn_environment R F) conn d (c, t))"
proof -
  have conn: "conn_bearable conn" and d: "bearable w (d w)" for w
    using turn by (simp_all add: turn_bearable_def)
  show ?thesis
  proof (cases "(c, mid, out, t, k)" rule: astray.cases)
    case (1 c' mid' out' n k')
    with st ready_add_turn [OF wf _ conn, of mid out n k R F] show ?thesis by simp
  next
    case (2 c' mid' out' a k')
    with st remove_listed_turn [OF wf _ _ _ conn, of mid a out "[]" 0 R F] show ?thesis
      by (simp add: start_def begin_call_def afterwards_try_def)
  next
    case (3 c' mid' out' a fs k')
    with st close_turn [OF wf _ conn, of mid out a fs k R F] d [of "On_close a"] show ?thesis by simp
  next
    case (4 c' mid' out' n pc fs k')
    with st resume_turn [OF wf _ conn, of mid out n pc fs k "d (On_init n pc)" R F] d [of "On_init n pc"]
    show ?thesis by simp
  next
    case (5 c' mid' out' m fs k')
    with st send_turn [OF wf _ d, of mid out m fs k R F conn] show ?thesis by simp
  next
    case (6 c' mid' out' k')
    with st wf show ?thesis by (auto intro!: turn_okI about_refl)
  qed (use st in auto)
qed

text \<open>When no turn is left, the coroutine has ended without an exception.\<close>

lemma astray_zero:
  "astray c mid out t 0 \<Longrightarrow>
   t = Task (Done Ok) \<and> view_of c mid \<in> {None, out} \<and> map_of (pending_model_runs c) mid = None"
  by (cases "(c, mid, out, t, 0 :: nat)" rule: astray.cases) auto

end
