(* ===== verification/Event_Turns.thy ===== *)
theory Event_Turns
  imports Faulty_Turns
begin

text \<open>
  All coroutines of an event together. A coroutine whose turns are all smooth brings about what it was
  created for (\<open>stage\<close>); one whose turns are bearable may lose its model (\<open>astray\<close>). No other
  model is touched, and no coroutine raises.
\<close>

section \<open>Schedules\<close>

definition smooth :: "turn \<Rightarrow> bool" where
  "smooth t \<longleftrightarrow> (case t of (i, conn, d) \<Rightarrow> conn = Conn_ok \<and> d = friendly)"

definition bearable_turn :: "turn \<Rightarrow> bool" where
  "bearable_turn t \<longleftrightarrow> (case t of (i, conn, d) \<Rightarrow> turn_bearable conn d)"

definition turns_of :: "turn list \<Rightarrow> nat \<Rightarrow> nat" where
  "turns_of sched i = count_list (map fst sched) i"

definition smooth_for :: "turn list \<Rightarrow> nat \<Rightarrow> bool" where
  "smooth_for sched i \<longleftrightarrow> list_all (\<lambda>t. fst t = i \<longrightarrow> smooth t) sched"

text \<open>
  What is asked of the scheduler and of the world: every turn is bearable, and every coroutine gets the
  turns it may need: six if nothing goes wrong (its beginning, the closing of the replaced model, the
  TLS key, two channels, the set-up), and otherwise thirty-four (five attempts of six awaits, the
  beginning and the closing, the report and its removal).
\<close>

definition patient :: "'r scheduler \<Rightarrow> bool" where
  "patient S \<longleftrightarrow> (\<forall>c calls. list_all bearable_turn (S c calls) \<and>
     (\<forall>i<length calls. (if smooth_for (S c calls) i then 6 else 34) \<le> turns_of (S c calls) i))"

definition faultless :: "'r scheduler \<Rightarrow> bool" where
  "faultless S \<longleftrightarrow> (\<forall>c calls. list_all smooth (S c calls))"

abbreviation fair :: "'r scheduler \<Rightarrow> bool" where
  "fair S \<equiv> patient S \<and> faultless S"

lemma smooth_bearable: "smooth t \<Longrightarrow> bearable_turn t"
  by (auto simp: smooth_def bearable_turn_def turn_bearable_def conn_bearable_def friendly_bearable)

lemma bearable_acceptable: "bearable_turn t \<Longrightarrow> acceptable t"
  by (auto simp: bearable_turn_def turn_bearable_def acceptable_def bearable_accepted)

lemma patient_reachable:
  assumes "patient S" and "tasks s = map Ready calls"
    and "run_calls K S calls (cluster_of s) = (c', ts)"
  shows "reachable K s (s\<lparr>cluster_of := c', tasks := ts\<rparr>)"
proof (rule turns_reachable)
  show "run_tasks K (S (cluster_of s) calls) (cluster_of s, tasks s) = (c', ts)"
    using assms(2,3) by (simp add: run_calls_def)
  show "list_all acceptable (S (cluster_of s) calls)"
    using assms(1) by (auto simp: patient_def list_all_iff bearable_acceptable)
qed

text \<open>For example every coroutine in turn, nothing going wrong; or every set-up timing out.\<close>

definition in_turn :: "'r scheduler" where
  "in_turn c calls = concat (replicate 6 (map (\<lambda>i. (i, Conn_ok, friendly)) [0..<length calls]))"

fun stalling :: "wait \<Rightarrow> awaited" where
  "stalling (On_init a (At_setup n)) = Got_exn TimeoutError"
| "stalling w = friendly w"

definition unlucky :: "'r scheduler" where
  "unlucky c calls = concat (replicate 34 (map (\<lambda>i. (i, Conn_ok, stalling)) [0..<length calls]))"

lemma turns_of_rounds:
  "i < n \<Longrightarrow> turns_of (concat (replicate m (map (\<lambda>i. (i, conn, d)) [0..<n]))) i = m"
proof -
  have "count_list [0..<n] i = 1" if "i < n" for n i :: nat
    using that by (induction n) (auto simp: count_list_0_iff less_Suc_eq)
  then show "i < n \<Longrightarrow> ?thesis" by (induction m) (simp_all add: turns_of_def comp_def)
qed

lemma fair_in_turn: "fair in_turn"
proof -
  have "list_all smooth (in_turn c calls)" for c :: "'a cluster" and calls
    by (auto simp: in_turn_def list_all_iff smooth_def)
  then show ?thesis
    by (auto simp: patient_def faultless_def smooth_for_def list_all_iff smooth_bearable
        turns_of_rounds in_turn_def)
qed

lemma patient_unlucky: "patient unlucky"
proof -
  have "bearable w (stalling w)" for w
    by (cases w rule: stalling.cases) (auto simp: friendly_bearable)
  then have "list_all bearable_turn (unlucky c calls)" for c :: "'a cluster" and calls
    by (auto simp: unlucky_def list_all_iff bearable_turn_def turn_bearable_def conn_bearable_def)
  then show ?thesis by (simp add: patient_def turns_of_rounds unlucky_def)
qed

section \<open>All coroutines of an event\<close>

text \<open>A coroutine, the model it is about, and what will be in service under the id of the model.\<close>

type_synonym job = "call \<times> json \<times> service option"

definition models_of :: "job list \<Rightarrow> json list" where
  "models_of js = map (\<lambda>(cl, mid, out). mid) js"

text \<open>\<open>G\<close> names the coroutines whose turns are smooth.\<close>

definition course :: "bool \<Rightarrow> stage_predicate" where
  "course g = (if g then stage else astray)"

definition under_way ::
  "view \<Rightarrow> job list \<Rightarrow> (nat \<Rightarrow> bool) \<Rightarrow> (nat \<Rightarrow> nat) \<Rightarrow> dyn_runner cluster \<times> task list \<Rightarrow> bool" where
  "under_way V js G ks x \<longleftrightarrow>
     wf_cluster (fst x) \<and> length (snd x) = length js \<and>
     (\<forall>i<length js. case js ! i of (cl, mid, out) \<Rightarrow>
        \<exists>k\<le>ks i. course (G i) (fst x) mid out (snd x ! i) k) \<and>
     (\<forall>m. m \<notin> set (models_of js) \<longrightarrow>
        view_of (fst x) m = V m \<and> map_of (pending_model_runs (fst x)) m = None)"

lemma models_of_simps [simp]:
  "models_of [] = []" "models_of ((cl, mid, out) # js) = mid # models_of js"
  by (simp_all add: models_of_def)

lemma models_of_nth: "i < length js \<Longrightarrow> js ! i = (cl, mid, out) \<Longrightarrow> models_of js ! i = mid"
  by (simp add: models_of_def)

lemma course_others:
  "wf_cluster c \<Longrightarrow> only_about mid c c' \<Longrightarrow> k \<noteq> mid \<Longrightarrow> course g c k out t n \<Longrightarrow> course g c' k out t n"
  using stage_others astray_others by (fastforce simp: course_def)

lemma advance_course:
  assumes "wf_cluster c" and "course g c mid out t k"
    and "if g then conn = Conn_ok \<and> d = friendly else turn_bearable conn d"
  shows "turn_ok (course g) c mid out (k - 1) (take_turn (dyn_environment R F) conn d (c, t))"
  using assms advance_turn advance_astray by (cases g) (simp_all add: course_def)

lemma turn_under_way:
  assumes u: "under_way V js G ks (c, ts)" and dist: "distinct (models_of js)" and i: "i < length js"
    and fits: "if G i then conn = Conn_ok \<and> d = friendly else turn_bearable conn d"
    and turn: "take_turn (dyn_environment R F) conn d (c, ts ! i) = (c', t)"
  shows "under_way V js G (ks(i := ks i - 1)) (c', ts[i := t])"
proof -
  obtain cl mid out where j: "js ! i = (cl, mid, out)" by (cases "js ! i")
  from u have wf: "wf_cluster c" and len: "length ts = length js" by (simp_all add: under_way_def)
  obtain k where k: "course (G i) c mid out (ts ! i) k" "k \<le> ks i"
    using u i j by (force simp: under_way_def)
  from advance_course [OF wf k(1) fits, of R F] turn
  have t: "turn_ok (course (G i)) c mid out (k - 1) (c', t)" by simp
  then have about: "only_about mid c c'" by (simp add: turn_ok_def)
  have mine: "\<exists>k\<le>ks i - 1. course (G i) c' mid out t k"
    using t k(2) by (auto simp: turn_ok_def intro: order_trans diff_le_mono)
  have others: "\<exists>k\<le>ks i'. course (G i') c' mid' out' (ts ! i') k"
    if i': "i' < length js" "i' \<noteq> i" "js ! i' = (cl', mid', out')" for i' cl' mid' out'
  proof -
    have "mid' \<noteq> mid"
      using i' i j dist models_of_nth [OF i'(1,3)] models_of_nth [OF i j]
      by (metis length_map models_of_def nth_eq_iff_index_eq)
    moreover obtain k' where "k' \<le> ks i'" "course (G i') c mid' out' (ts ! i') k'"
      using u i'(1,3) by (force simp: under_way_def)
    ultimately show ?thesis using course_others [OF wf about] by blast
  qed
  have "view_of c' m = V m \<and> map_of (pending_model_runs c') m = None"
    if "m \<notin> set (models_of js)" for m
  proof -
    have "m \<noteq> mid" using that models_of_nth [OF i j] i by (auto simp: models_of_def)
    with u that about view_of_others [OF wf about] show ?thesis
      by (simp add: under_way_def only_about_def)
  qed
  with t mine others j i len show ?thesis
    by (auto simp: under_way_def turn_ok_def nth_list_update split: prod.split)
qed

definition fits :: "nat \<Rightarrow> (nat \<Rightarrow> bool) \<Rightarrow> turn \<Rightarrow> bool" where
  "fits n G t \<longleftrightarrow> (case t of (i, conn, d) \<Rightarrow> i < n \<longrightarrow>
     (if G i then conn = Conn_ok \<and> d = friendly else turn_bearable conn d))"

lemma run_under_way:
  assumes "distinct (models_of js)"
  shows "under_way V js G ks (c, ts) \<Longrightarrow> list_all (fits (length js) G) sched \<Longrightarrow>
    under_way V js G (\<lambda>i. ks i - turns_of sched i) (run_tasks (dyn_environment R F) sched (c, ts))"
proof (induction sched arbitrary: ks c ts)
  case (Cons turn sched)
  obtain i conn d where turn: "turn = (i, conn, d)" by (cases turn)
  have len: "length ts = length js" using Cons.prems(1) by (simp add: under_way_def)
  show ?case
  proof (cases "i < length ts")
    case True
    obtain c' t where t: "take_turn (dyn_environment R F) conn d (c, ts ! i) = (c', t)" by fastforce
    have "under_way V js G (ks(i := ks i - 1)) (c', ts[i := t])"
      by (rule turn_under_way [OF Cons.prems(1) assms _ _ t])
        (use Cons.prems(2) True len turn in \<open>simp_all add: fits_def\<close>)
    from Cons.IH [OF this] Cons.prems(2) have "under_way V js G
        (\<lambda>j. (ks(i := ks i - 1)) j - turns_of sched j)
        (run_tasks (dyn_environment R F) sched (c', ts[i := t]))" by simp
    moreover have "(\<lambda>j. (ks(i := ks i - 1)) j - turns_of sched j) =
        (\<lambda>j. ks j - turns_of (turn # sched) j)" by (auto simp: fun_eq_iff turns_of_def turn)
    ultimately show ?thesis using True t turn by simp
  next
    case False
    have "under_way V js G (\<lambda>j. ks j - turns_of sched j)
        (run_tasks (dyn_environment R F) sched (c, ts))"
      by (rule Cons.IH [OF Cons.prems(1)]) (use Cons.prems(2) in simp)
    with False len turn show ?thesis by (auto simp: under_way_def turns_of_def)
  qed
qed (simp add: turns_of_def)

text \<open>When no turn is left, every coroutine has ended well.\<close>

lemma stage_zero:
  "stage c mid out t 0 \<Longrightarrow>
   t = Task (Done Ok) \<and> view_of c mid = out \<and> map_of (pending_model_runs c) mid = None"
  by (cases "(c, mid, out, t, 0 :: nat)" rule: stage.cases) (auto simp: init_stage_def)

lemma course_zero:
  "course g c mid out t 0 \<Longrightarrow>
   t = Task (Done Ok) \<and> (if g then view_of c mid = out else view_of c mid \<in> {None, out}) \<and>
   map_of (pending_model_runs c) mid = None"
  using stage_zero [of c mid out t] astray_zero [of c mid out t] by (auto simp: course_def)

definition quiet :: "'a runner_scheme cluster \<Rightarrow> bool" where
  "quiet c \<longleftrightarrow> wf_cluster c \<and> pending_model_runs c = []"

lemma quiet_pending [simp]: "quiet c \<Longrightarrow> map_of (pending_model_runs c) mid = None"
  by (simp add: quiet_def)

definition todo :: "dyn_runner cluster \<Rightarrow> call \<Rightarrow> json \<Rightarrow> service option \<Rightarrow> bool" where
  "todo c cl mid out \<longleftrightarrow> (\<exists>k\<le>6. stage c mid out (Ready cl) k)"

lemma todo_simps [simp]:
  "todo c (Add n) mid out \<longleftrightarrow> map_of (pending_model_runs c) mid = None \<and> to_connect c n mid out"
  "todo c (Remove a) mid out \<longleftrightarrow>
     map_of (pending_model_runs c) mid = None \<and> map_of (models_run c) mid = Some a \<and> out = None"
  by (auto simp: todo_def)

lemma todo_other_calls [simp]: "\<not> todo c (Report a code reason) mid out" "\<not> todo c (Reconnect a) mid out"
  by (simp_all add: todo_def)

definition pending_jobs :: "dyn_runner cluster \<Rightarrow> job list \<Rightarrow> bool" where
  "pending_jobs c js \<longleftrightarrow>
     (\<forall>(cl, mid, out)\<in>set js. todo c cl mid out) \<and> distinct (models_of js)"

definition outcome :: "view \<Rightarrow> job list \<Rightarrow> view" where
  "outcome V js = foldl (\<lambda>V (cl, mid, out). V(mid := out)) V js"

lemma outcome_simps [simp]:
  "outcome V [] = V" "outcome V ((cl, mid, out) # js) = outcome (V(mid := out)) js"
  by (simp_all add: outcome_def)

lemma outcome_upd:
  "mid \<notin> set (models_of js) \<Longrightarrow> outcome (V(mid := out)) js = (outcome V js)(mid := out)"
proof (induction js arbitrary: V)
  case (Cons j js)
  obtain cl k out' where j: "j = (cl, k, out')" by (cases j)
  have k: "mid \<noteq> k" and rest: "mid \<notin> set (models_of js)"
    using Cons.prems j by (auto simp: models_of_def)
  have "outcome (V(mid := out)) (j # js) = outcome (V(k := out', mid := out)) js"
    unfolding j outcome_simps fun_upd_twist [OF k] ..
  also have "\<dots> = (outcome (V(k := out')) js)(mid := out)" by (rule Cons.IH [OF rest])
  finally show ?case unfolding j outcome_simps .
qed (simp add: outcome_def)

lemma outcome_other: "m \<notin> set (models_of js) \<Longrightarrow> outcome V js m = V m"
  by (induction js arbitrary: V) (auto simp: models_of_def)

lemma outcome_nth:
  "distinct (models_of js) \<Longrightarrow> i < length js \<Longrightarrow> js ! i = (cl, mid, out) \<Longrightarrow> outcome V js mid = out"
proof (induction js arbitrary: V i)
  case (Cons j js)
  obtain cl' mid' out' where j: "j = (cl', mid', out')" by (cases j)
  show ?case
  proof (cases i)
    case 0
    with Cons.prems j outcome_other [of mid js] show ?thesis by (simp add: models_of_def)
  next
    case (Suc i')
    with Cons j show ?thesis by (simp add: models_of_def)
  qed
qed simp

lemma todo_course: "todo c cl mid out \<Longrightarrow> \<exists>k\<le>if g then 6 else 34. course g c mid out (Ready cl) k"
  by (cases cl) (auto simp: todo_def course_def to_connect_try)

lemma gathered_ok: "gathered ts = Some (Inr ()) \<longleftrightarrow> list_all (\<lambda>t. t = Task (Done Ok)) ts"
proof -
  have "list_all (\<lambda>t. t = Task (Done Ok)) ts \<Longrightarrow> List.map_filter raised_by ts = []"
    by (induction ts) (auto simp: List.map_filter_def)
  then show ?thesis by (auto simp: gathered_def split: list.split)
qed

text \<open>
  What an event leaves behind: nothing pending, no exception, and of the models that were to be
  connected those are not in service whose turns were not all smooth and which were given up.
\<close>

definition to_be_connected :: "job list \<Rightarrow> json set" where
  "to_be_connected js = {mid. \<exists>n out. (Add n, mid, out) \<in> set js}"

definition rough :: "turn list \<Rightarrow> job list \<Rightarrow> json set" where
  "rough sched js = {mid. \<exists>i<length js. models_of js ! i = mid \<and> \<not> smooth_for sched i}"

lemma run_calls_under_way:
  assumes q: "quiet c" and js: "pending_jobs c js" and S: "patient S"
    and run: "run_calls (dyn_environment R F) S (map fst js) c = (c', ts)"
  shows "under_way (view_of c) js (smooth_for (S c (map fst js)))
    (\<lambda>i. (if smooth_for (S c (map fst js)) i then 6 else 34) - turns_of (S c (map fst js)) i) (c', ts)"
proof -
  let ?sched = "S c (map fst js)" and ?V = "view_of c"
  let ?G = "smooth_for ?sched"
  have dist: "distinct (models_of js)" using js by (simp add: pending_jobs_def)
  have todo: "todo c cl mid out" if "i < length js" "js ! i = (cl, mid, out)" for i cl mid out
    using js nth_mem [OF that(1)] that(2) by (auto simp: pending_jobs_def)
  have "under_way ?V js ?G (\<lambda>i. if ?G i then 6 else 34) (c, map Ready (map fst js))"
    using q todo_course [OF todo, where g = True] todo_course [OF todo, where g = False]
    by (auto simp: under_way_def quiet_def split: prod.split)
  moreover have "list_all (fits (length js) ?G) ?sched"
    using S by (auto simp: patient_def list_all_iff fits_def bearable_turn_def smooth_for_def smooth_def
        split: prod.splits)
  ultimately show ?thesis
    using run_under_way [OF dist, of ?V ?G _ c "map Ready (map fst js)" ?sched R F] run
    by (simp add: run_calls_def)
qed

lemma run_calls_ended:
  assumes "quiet c" and "pending_jobs c js" and S: "patient S"
    and "run_calls (dyn_environment R F) S (map fst js) c = (c', ts)"
    and i: "i < length js" "js ! i = (cl, mid, out)"
  shows "ts ! i = Task (Done Ok)" and "map_of (pending_model_runs c') mid = None"
    and "if smooth_for (S c (map fst js)) i then view_of c' mid = out else view_of c' mid \<in> {None, out}"
proof -
  let ?sched = "S c (map fst js)"
  have "(if smooth_for ?sched i then 6 else 34) \<le> turns_of ?sched i"
    using S i(1) unfolding patient_def by (metis length_map)
  then have "course (smooth_for ?sched i) c' mid out (ts ! i) 0"
    using run_calls_under_way [OF assms(1-4)] i by (fastforce simp: under_way_def)
  from course_zero [OF this]
  show "ts ! i = Task (Done Ok)" and "map_of (pending_model_runs c') mid = None"
    and "if smooth_for ?sched i then view_of c' mid = out else view_of c' mid \<in> {None, out}"
    by blast+
qed

lemma job_of_model:
  assumes "pending_jobs c js" and "m \<in> set (models_of js)"
  obtains i cl out where "i < length js" "js ! i = (cl, m, out)" "outcome V js m = out" "todo c cl m out"
proof -
  obtain i cl out where i: "i < length js" "js ! i = (cl, m, out)"
    using assms(2) by (auto simp: models_of_def in_set_conv_nth split: prod.splits)
  with assms(1) nth_mem [OF i(1)] outcome_nth [of js i cl m out V] show ?thesis
    by (intro that [OF i]) (auto simp: pending_jobs_def)
qed

lemma run_calls_outcome:
  assumes q: "quiet c" and js: "pending_jobs c js" and S: "patient S"
    and run: "run_calls (dyn_environment R F) S (map fst js) c = (c', ts)"
  obtains lost where "quiet c'" and "gathered ts = Some (Inr ())"
    and "view_of c' = outcome (view_of c) js |` (- lost)"
    and "lost \<subseteq> to_be_connected js" and "lost \<subseteq> rough (S c (map fst js)) js"
proof -
  let ?sched = "S c (map fst js)" and ?V = "view_of c"
  note ended = run_calls_ended [OF assms]
  note u = run_calls_under_way [OF assms]
  let ?lost = "{m \<in> set (models_of js). view_of c' m = None \<and> outcome ?V js m \<noteq> None}"
  show ?thesis
  proof (rule that [of ?lost])
    have "map_of (pending_model_runs c') m = None" for m
      using u ended(2) by (cases "m \<in> set (models_of js)") (auto simp: under_way_def elim: job_of_model [OF js])
    then have "pending_model_runs c' = []" by (metis map_of_eq_empty_iff ext)
    with u show "quiet c'" by (simp add: under_way_def quiet_def)
    have len: "length ts = length js" using u by (simp add: under_way_def)
    have "ts ! i = Task (Done Ok)" if "i < length js" for i
      using ended(1) [OF that] by (cases "js ! i") blast
    with len show "gathered ts = Some (Inr ())" by (simp add: gathered_ok list_all_length)
    show "view_of c' = outcome ?V js |` (- ?lost)"
    proof
      fix m
      show "view_of c' m = (outcome ?V js |` (- ?lost)) m"
      proof (cases "m \<in> set (models_of js)")
        case True
        then obtain i cl out where "i < length js" "js ! i = (cl, m, out)" "outcome ?V js m = out"
          by (rule job_of_model [OF js])
        with ended(3) True show ?thesis by (fastforce simp: restrict_map_def split: if_splits)
      next
        case False
        with u outcome_other [of m js ?V] show ?thesis by (simp add: under_way_def restrict_map_def)
      qed
    qed
    show "?lost \<subseteq> to_be_connected js" and "?lost \<subseteq> rough ?sched js"
    proof (safe del: notI)
      fix m out
      assume m: "m \<in> set (models_of js)" "view_of c' m = None" "outcome ?V js m = Some out"
      obtain i cl out' where i: "i < length js" "js ! i = (cl, m, out')" "outcome ?V js m = out'"
        "todo c cl m out'" by (rule job_of_model [OF js m(1)])
      then have "\<exists>n. cl = Add n" using m(3) by (cases cl) auto
      with i(1,2) show "m \<in> to_be_connected js" by (auto simp: to_be_connected_def in_set_conv_nth)
      from ended(3) [OF i(1,2)] i(3) m have "\<not> smooth_for ?sched i" by auto
      with i(1,2) show "m \<in> rough ?sched js" by (auto simp: rough_def models_of_nth)
    qed
  qed
qed

end
