(* ===== verification/Orchestrator_View.thy ===== *)
theory Orchestrator_View
  imports Event_Turns
begin

text \<open>
  What the cluster is for: it keeps in service the models the orchestrator says are running. The
  abstract specification is a map from model ids to what was last said of them, changed by one event
  at a time, where a model that the event starts anew may be lost (\<open>follows\<close>). The refinement says
  that the cluster does this to the models it serves, in whatever order the coroutines of an event
  take their turns and whatever fails in them; and that it loses none if nothing fails.
\<close>

section \<open>The specification\<close>

definition service_of_entry :: "entry \<Rightarrow> service" where
  "service_of_entry e =
     \<lparr>s_deployment = e_deployment_id e, s_name = e_model_name e, s_ip = e_ip e, s_port = e_port e,
      s_infos = e_infos e\<rparr>"

text \<open>A stop is for one deployment; a running model is what the update says.\<close>

definition told :: "view \<Rightarrow> entry \<Rightarrow> view" where
  "told V e =
     (if e_state e = jstr ''RUNNING'' then V(e_model_id e \<mapsto> service_of_entry e)
      else if e_state e \<in> {jstr ''STOPPED'', jstr ''RECOVERING''} \<and>
              map_option s_deployment (V (e_model_id e)) = Some (e_deployment_id e)
      then V(e_model_id e := None)
      else V)"

text \<open>
  An event carries a list of entries; an \<^verbatim>\<open>init\<close> event is the whole truth, and what it does not
  mention is over.
\<close>

fun told_event :: "view \<Rightarrow> bool \<times> entry list \<Rightarrow> view" where
  "told_event V (first, es) =
     (if first then foldl told V es |` (e_model_id ` set es) else foldl told V es)"

text \<open>
  A model must be started if it is not in service, or under another deployment, or at another address.
  Only such a model can be lost by an event.
\<close>

definition needs_start :: "view \<Rightarrow> entry \<Rightarrow> bool" where
  "needs_start V e \<longleftrightarrow> e_state e = jstr ''RUNNING'' \<and>
     (case V (e_model_id e) of
        None \<Rightarrow> True
      | Some s \<Rightarrow> \<not> (s_deployment s = e_deployment_id e \<and> s_ip s = e_ip e \<and> s_port s = e_port e))"

definition started :: "view \<Rightarrow> entry list \<Rightarrow> json set" where
  "started V es = e_model_id ` {e \<in> set es. needs_start V e}"

definition may_lose :: "bool \<Rightarrow> view \<Rightarrow> entry list \<Rightarrow> json set" where
  "may_lose sure V es = (if sure then {} else started V es)"

inductive follows :: "bool \<Rightarrow> view \<Rightarrow> (bool \<times> entry list) list \<Rightarrow> view \<Rightarrow> bool" for sure where
  nothing: "follows sure V [] V"
| event:
    "lost \<subseteq> may_lose sure V (snd said) \<Longrightarrow>
     follows sure (told_event V said |` (- lost)) saids V' \<Longrightarrow>
     follows sure V (said # saids) V'"

inductive_simps follows_Nil [simp]: "follows sure V [] V'"
inductive_cases follows_Cons: "follows sure V (said # saids) V'"

text \<open>Without faults there is no choice; with faults nothing is in service that was not told to run.\<close>

lemma follows_exactly: "follows True V saids V' \<Longrightarrow> V' = foldl told_event V saids"
  by (induction rule: follows.induct) (auto simp: may_lose_def)

lemma told_mono: "V \<subseteq>\<^sub>m T \<Longrightarrow> told V e \<subseteq>\<^sub>m told T e"
  by (auto simp: told_def map_le_def dom_def)

lemma foldl_told_mono: "V \<subseteq>\<^sub>m T \<Longrightarrow> foldl told V es \<subseteq>\<^sub>m foldl told T es"
  by (induction es arbitrary: V T) (auto intro: told_mono)

lemma restrict_mono: "V \<subseteq>\<^sub>m T \<Longrightarrow> V |` A \<subseteq>\<^sub>m T |` A"
  by (auto simp: map_le_def restrict_map_def)

lemma told_event_mono: "V \<subseteq>\<^sub>m T \<Longrightarrow> told_event V said \<subseteq>\<^sub>m told_event T said"
  by (cases said) (simp add: foldl_told_mono restrict_mono)

lemma restrict_UNIV [simp]: "V |` UNIV = V"
  by (simp add: restrict_map_def)

lemma restrict_le: "V |` A \<subseteq>\<^sub>m V"
  by (auto simp: map_le_def restrict_map_def)

lemma follows_told: "follows sure V saids V' \<Longrightarrow> V \<subseteq>\<^sub>m T \<Longrightarrow> V' \<subseteq>\<^sub>m foldl told_event T saids"
proof (induction arbitrary: T rule: follows.induct)
  case (event lost V said saids V')
  then have "told_event V said |` (- lost) \<subseteq>\<^sub>m told_event T said"
    by (blast intro: map_le_trans restrict_le told_event_mono)
  with event.IH show ?case by simp
qed simp

section \<open>The implementation\<close>

text \<open>
  An event handled: the entries are planned, their coroutines run, and for an \<^verbatim>\<open>init\<close> event the
  models it does not name are removed. An exception of a coroutine ends the handler; \<open>None\<close> means
  that after the turns of the schedule it is still waiting for a coroutine.
\<close>

definition run_event ::
  "'a runner_scheme environment \<Rightarrow> 'a runner_scheme scheduler \<Rightarrow> bool \<Rightarrow>
   'a runner_scheme cluster \<Rightarrow> json \<Rightarrow>
   'a runner_scheme cluster \<times> unit result option" where
  "run_event K S first c data =
     (case update_plan K c data of
        (c', Inl e) \<Rightarrow> (c', Some (Inl e))
      | (c', Inr calls) \<Rightarrow>
          (case run_calls K S calls c' of
             (c1, ts) \<Rightarrow>
               (case gathered ts of
                  None \<Rightarrow> (c1, None)
                | Some (Inl e) \<Rightarrow> (c1, Some (Inl e))
                | Some (Inr _) \<Rightarrow>
                    (if \<not> first then (c1, Some (Inr ()))
                     else case removal_plan c1 data of
                            Inl e \<Rightarrow> (c1, Some (Inl e))
                          | Inr removals \<Rightarrow>
                              (case run_calls K S removals c1 of
                                 (c2, ts') \<Rightarrow> (c2, gathered ts'))))))"

definition cluster_event ::
  "'a runner_scheme environment \<Rightarrow> 'a runner_scheme scheduler \<Rightarrow>
   'a runner_scheme cluster \<Rightarrow> json \<times> json \<Rightarrow>
   'a runner_scheme cluster \<times> unit result option" where
  "cluster_event K S c event =
     (case dispatch_event (fst event) of
        None \<Rightarrow> (c, Some (Inr ()))
      | Some first \<Rightarrow> run_event K S first c (snd event))"

section \<open>Quiet clusters\<close>

text \<open>
  What is asked of a configuration: one kind of credentials, and in secure mode a TLS context and
  infos to read.
\<close>

definition connectable :: "dyn_concurrent_runner \<Rightarrow> json \<Rightarrow> bool" where
  "connectable R info \<longleftrightarrow>
     (cr_secure_credentials R = None \<or> cr_gateway_credentials R = None) \<and>
     (\<forall>creds. cr_secure_credentials R = Some creds \<longrightarrow>
        tls_ctx creds \<noteq> None \<and> (\<exists>d. info = JObj d))"

lemma create_connectable:
  assumes "connectable R info"
  shows "\<exists>r. create_model_runner R dep mid name addr prt info = Inr r \<and>
    service_of r = \<lparr>s_deployment = dep, s_name = name, s_ip = addr, s_port = prt, s_infos = info\<rparr> \<and>
    model_id r = mid \<and> \<not> closed r \<and> retry_attempts r = 5 \<and>
    secure_creds r = cr_secure_credentials R \<and> gateway_creds r = cr_gateway_credentials R"
  using assms
  by (auto simp: connectable_def create_model_runner_def new_dyn_runner_def new_runner_def
      service_of_def)

lemma quiet_find [simp]: "quiet c \<Longrightarrow> find_model c mid = map_of (models_run c) mid"
  by (simp add: quiet_def find_model_def split: option.split)

lemma quiet_listed:
  "quiet c \<Longrightarrow> map_of (models_run c) k = Some a \<Longrightarrow> a < next_address c \<and> model_id (heap c a) = k"
  by (simp add: quiet_def wf_cluster_def keyed_def)

lemma quiet_allocate: "quiet c \<Longrightarrow> quiet (fst (allocate r c))"
  using wf_evolves [OF evolves_allocate] by (auto simp: quiet_def allocate_simps)

lemma view_allocate: "quiet c \<Longrightarrow> view_of (fst (allocate r c)) = view_of c"
proof
  fix k
  assume "quiet c"
  then show "view_of (fst (allocate r c)) k = view_of c k"
    using quiet_listed [of c k]
    by (cases "map_of (models_run c) k") (auto simp: view_of_def allocate_simps)
qed

section \<open>Planning\<close>

definition served :: "dyn_concurrent_runner \<Rightarrow> json \<Rightarrow> entry \<Rightarrow> bool" where
  "served R u e \<longleftrightarrow> read_entry u = Inr e \<and> hashable (e_model_id e) \<and>
     (e_state e = jstr ''RUNNING'' \<longrightarrow> connectable R (e_infos e))"

text \<open>
  What one entry leaves behind: it has been dealt with, or one coroutine remains that will do it.
\<close>

definition accounted :: "dyn_runner cluster \<Rightarrow> entry \<Rightarrow> dyn_runner cluster \<times> call option result \<Rightarrow> bool" where
  "accounted c e x \<longleftrightarrow>
     (case x of
        (c', Inr None) \<Rightarrow> quiet c' \<and> view_of c' = told (view_of c) e
      | (c', Inr (Some cl)) \<Rightarrow> quiet c' \<and> view_of c' = view_of c \<and>
          (\<exists>out. todo c' cl (e_model_id e) out \<and> told (view_of c) e = (view_of c)(e_model_id e := out)) \<and>
          (\<forall>n. cl = Add n \<longrightarrow> needs_start (view_of c) e)
      | (c', Inl err) \<Rightarrow> False) \<and>
     (\<forall>cl k out. todo c cl k out \<longrightarrow> todo (fst x) cl k out)"

lemma new_object_planned:
  assumes q: "quiet c" and conn: "connectable R (e_infos e)" and "e_state e = jstr ''RUNNING''"
    and "needs_start (view_of c) e"
  shows "accounted c e (plan_new (dyn_environment R F) c e)"
proof -
  let ?n = "next_address c" and ?mid = "e_model_id e"
  obtain r where create: "create_model_runner R (e_deployment_id e) ?mid (e_model_name e) (e_ip e)
        (e_port e) (e_infos e) = Inr r"
    and r: "service_of r = service_of_entry e" "model_id r = ?mid" "\<not> closed r" "retry_attempts r = 5"
      "secure_creds r = cr_secure_credentials R"
    using create_connectable [OF conn] by (fastforce simp: service_of_entry_def)
  have fresh: "?n \<notin> ran (map_of (models_run c))"
    using quiet_listed [OF q] by (auto simp: ran_def)
  have "can_connect r"
    using r conn by (auto simp: can_connect_def connectable_def service_of_def service_of_entry_def)
  then have "todo (fst (allocate r c)) (Add ?n) ?mid (Some (service_of_entry e))"
    using q r fresh by (auto simp: allocate_simps to_connect_def ranI)
  moreover have "todo (fst (allocate r c)) cl k out" if "todo c cl k out" for cl k out
    using that by (cases cl) (auto simp: allocate_simps to_connect_def)
  moreover have "plan_new (dyn_environment R F) c e = (fst (allocate r c), Inr (Some (Add ?n)))"
    using create by (simp add: plan_new_def dyn_environment_def allocate_def)
  ultimately show ?thesis
    using view_allocate [OF q, of r] quiet_allocate [OF q, of r] assms(3,4)
    by (auto simp: accounted_def told_def)
qed

lemma refresh_planned:
  assumes q: "quiet c" and a: "map_of (models_run c) mid = Some a"
  shows "quiet (modify a (set_infos info name) c)"
    and "view_of (modify a (set_infos info name) c) =
      (view_of c)(mid \<mapsto> service_of (set_infos info name (heap c a)))"
    and "todo c cl k out \<Longrightarrow> todo (modify a (set_infos info name) c) cl k out"
proof -
  show "quiet (modify a (set_infos info name) c)"
    using q by (auto simp: quiet_def wf_cluster_def keyed_def modify_def set_infos_def)
  show "view_of (modify a (set_infos info name) c) =
      (view_of c)(mid \<mapsto> service_of (set_infos info name (heap c a)))"
  proof
    fix k
    show "view_of (modify a (set_infos info name) c) k =
        ((view_of c)(mid \<mapsto> service_of (set_infos info name (heap c a)))) k"
    proof (cases "map_of (models_run c) k")
      case None
      with a show ?thesis by (auto simp: view_of_def modify_def)
    next
      case (Some b)
      have "b = a \<longleftrightarrow> k = mid"
        using quiet_listed [OF q Some] quiet_listed [OF q a] a Some by (metis option.inject)
      with Some show ?thesis by (simp add: view_of_def modify_def)
    qed
  qed
  show "todo (modify a (set_infos info name) c) cl k out" if t: "todo c cl k out"
  proof (cases cl)
    case (Add n)
    with t quiet_listed [OF q a] a have "n \<noteq> a" by (auto simp: to_connect_def)
    with t Add show ?thesis by (simp add: to_connect_def modify_def)
  qed (use t in \<open>simp_all add: modify_def\<close>)
qed

lemma entry_planned:
  assumes q: "quiet c" and s: "served R u e"
  shows "accounted c e (plan_entry (dyn_environment R F) c u)"
proof (cases "known_model c e")
  case None
  then have other: "map_option s_deployment (view_of c (e_model_id e)) \<noteq> Some (e_deployment_id e)"
    using q by (auto simp: known_model_def view_of_def service_of_def split: option.splits if_splits)
  then have "needs_start (view_of c) e" if "e_state e = jstr ''RUNNING''"
    using that by (auto simp: needs_start_def split: option.split)
  then show ?thesis
    using None s q other new_object_planned [OF q, of R e F]
    by (cases "e_state e = jstr ''RUNNING''")
      (auto simp: served_def told_def plan_entry_def accounted_def [of _ _ "(_, Inr None)"])
next
  case (Some a)
  then have a: "map_of (models_run c) (e_model_id e) = Some a"
    and d: "e_deployment_id e = deployment_id (heap c a)"
    using q by (auto simp: known_model_def split: option.splits if_splits)
  consider (again) "e_state e = jstr ''RUNNING''" "ip (heap c a) = e_ip e \<and> port (heap c a) = e_port e"
    | (moved) "e_state e = jstr ''RUNNING''" "\<not> (ip (heap c a) = e_ip e \<and> port (heap c a) = e_port e)"
    | (stop) "e_state e \<in> {jstr ''STOPPED'', jstr ''RECOVERING''}"
    | (other) "e_state e \<notin> {jstr ''RUNNING'', jstr ''STOPPED'', jstr ''RECOVERING''}"
    by blast
  then show ?thesis
  proof cases
    case again
    then have "plan_entry (dyn_environment R F) c u =
        (modify a (set_infos (e_infos e) (e_model_name e)) c, Inr None)"
      using s Some a by (simp add: plan_entry_def served_def)
    then show ?thesis
      using refresh_planned [OF q a, where info = "e_infos e" and name = "e_model_name e"] again d
      by (simp add: accounted_def told_def service_of_entry_def service_of_def set_infos_def)
  next
    case moved
    then have "plan_entry (dyn_environment R F) c u = plan_new (dyn_environment R F) c e"
      using s Some by (auto simp: plan_entry_def served_def)
    moreover have "needs_start (view_of c) e"
      using moved a by (auto simp: needs_start_def view_of_def service_of_def)
    ultimately show ?thesis
      using new_object_planned [OF q _ moved(1)] s moved(1) by (simp add: served_def)
  next
    case stop
    then have "plan_entry (dyn_environment R F) c u = (c, Inr (Some (Remove a)))"
      using s Some by (auto simp: plan_entry_def served_def)
    then show ?thesis
      using q stop a d by (auto simp: accounted_def told_def view_of_def service_of_def)
  next
    case other
    then have "plan_entry (dyn_environment R F) c u = (c, Inr None)"
      using s by (simp add: plan_entry_def served_def)
    with other q show ?thesis by (simp add: accounted_def told_def)
  qed
qed

lemma needs_start_told:
  "e_model_id e' \<noteq> e_model_id e \<Longrightarrow> needs_start (told V e) e' = needs_start V e'"
  by (simp add: needs_start_def told_def)

lemma started_told:
  assumes "e_model_id e \<notin> e_model_id ` set es"
  shows "started (told V e) es = started V es"
proof -
  have "needs_start (told V e) x = needs_start V x" if "x \<in> set es" for x
    using that assms by (intro needs_start_told) (metis imageI)
  then show ?thesis by (auto simp: started_def)
qed

lemma started_Cons:
  "started V (e # es) = (if needs_start V e then {e_model_id e} else {}) \<union> started V es"
  by (auto simp: started_def)

lemma to_be_connected_simps [simp]:
  "to_be_connected [] = {}"
  "to_be_connected ((cl, mid, out) # js) =
     (if \<exists>n. cl = Add n then {mid} else {}) \<union> to_be_connected js"
  by (auto simp: to_be_connected_def)

text \<open>Entries about other models commute with what becomes of this one.\<close>

lemma told_upd: "e_model_id e \<noteq> mid \<Longrightarrow> told (V(mid := out)) e = (told V e)(mid := out)"
  by (auto simp: told_def fun_upd_twist)

lemma foldl_told_upd:
  "mid \<notin> set (map e_model_id es) \<Longrightarrow> foldl told (V(mid := out)) es = (foldl told V es)(mid := out)"
proof (induction es arbitrary: V)
  case (Cons e es)
  then have e: "e_model_id e \<noteq> mid" and rest: "mid \<notin> set (map e_model_id es)" by auto
  show ?case unfolding foldl_Cons told_upd [OF e] by (rule Cons.IH [OF rest])
qed simp

definition all_planned ::
  "dyn_runner cluster \<Rightarrow> entry list \<Rightarrow> dyn_runner cluster \<times> call list result \<Rightarrow> job list \<Rightarrow> bool" where
  "all_planned c es x js \<longleftrightarrow>
     snd x = Inr (map fst js) \<and> quiet (fst x) \<and> pending_jobs (fst x) js \<and>
     set (models_of js) \<subseteq> set (map e_model_id es) \<and>
     outcome (view_of (fst x)) js = foldl told (view_of c) es \<and>
     to_be_connected js \<subseteq> started (view_of c) es \<and>
     (\<forall>cl k out. todo c cl k out \<longrightarrow> todo (fst x) cl k out)"

lemma entries_planned:
  "list_all2 (served R) us es \<Longrightarrow> distinct (map e_model_id es) \<Longrightarrow> quiet c \<Longrightarrow>
   \<exists>js. all_planned c es (plan_entries (dyn_environment R F) c us) js"
proof (induction arbitrary: c rule: list_all2_induct)
  case Nil
  then show ?case by (intro exI [of _ "[]"]) (simp add: all_planned_def pending_jobs_def)
next
  case (Cons u us e es)
  let ?K = "dyn_environment R F" and ?mid = "e_model_id e"
  obtain c1 t where plan: "plan_entry ?K c u = (c1, Inr t)" and one: "accounted c e (c1, Inr t)"
    using entry_planned [OF Cons.prems(2) Cons.hyps(1), of F]
    by (cases "plan_entry ?K c u"; cases "snd (plan_entry ?K c u)") (auto simp: accounted_def)
  then have q1: "quiet c1" and kept: "todo c cl k out \<Longrightarrow> todo c1 cl k out" for cl k out
    by (auto simp: accounted_def split: option.splits)
  obtain js where js: "all_planned c1 es (plan_entries ?K c1 us) js"
    using Cons.IH [of c1] Cons.prems(1) q1 by auto
  obtain c2 where rest: "plan_entries ?K c1 us = (c2, Inr (map fst js))"
    using js by (cases "plan_entries ?K c1 us") (simp add: all_planned_def)
  show ?case
  proof (cases t)
    case None
    with plan rest have "plan_entries ?K c (u # us) = (c2, Inr (map fst js))" by simp
    moreover have "view_of c1 = told (view_of c) e" using one None by (simp add: accounted_def)
    then have "started (view_of c1) es = started (view_of c) es"
      using started_told [of e es] Cons.prems(1) by simp
    ultimately show ?thesis
      using js rest one kept None
      by (intro exI [of _ js]) (auto simp: all_planned_def accounted_def started_Cons)
  next
    case (Some cl)
    then obtain out where out: "todo c1 cl ?mid out" "told (view_of c) e = (view_of c)(?mid := out)"
      and v: "view_of c1 = view_of c" and add: "\<And>n. cl = Add n \<Longrightarrow> needs_start (view_of c) e"
      using one by (auto simp: accounted_def)
    have fresh: "?mid \<notin> set (map e_model_id es)" using Cons.prems(1) by auto
    then have new: "?mid \<notin> set (models_of js)" using js by (auto simp: all_planned_def)
    have "outcome (view_of c2) js = foldl told (view_of c) es"
      using js by (simp add: all_planned_def rest v)
    then have "outcome (view_of c2) ((cl, ?mid, out) # js) = foldl told (view_of c) (e # es)"
      unfolding outcome_simps foldl_Cons out(2) outcome_upd [OF new] foldl_told_upd [OF fresh]
      by (rule arg_cong)
    moreover have "plan_entries ?K c (u # us) = (c2, Inr (map fst ((cl, ?mid, out) # js)))"
      using plan rest Some by simp
    moreover have "pending_jobs c2 ((cl, ?mid, out) # js)"
      using js rest out(1) new
      by (auto simp: all_planned_def pending_jobs_def)
    ultimately show ?thesis
      using js rest kept add v
      by (intro exI [of _ "(cl, ?mid, out) # js"]) (auto simp: all_planned_def started_Cons)
  qed
qed

section \<open>Events\<close>

lemma rough_faultless: "faultless S \<Longrightarrow> rough (S c calls) js = {}"
  by (auto simp: faultless_def rough_def smooth_for_def list_all_iff)

lemma updates_tracked:
  assumes "quiet c" and "list_all2 (served R) us es" and "distinct (map e_model_id es)" and "patient S"
  obtains c1 calls c2 ts lost where
    "update_plan (dyn_environment R F) c (JArr us) = (c1, Inr calls)"
    and "run_calls (dyn_environment R F) S calls c1 = (c2, ts)" and "gathered ts = Some (Inr ())"
    and "quiet c2" and "view_of c2 = foldl told (view_of c) es |` (- lost)"
    and "lost \<subseteq> may_lose (faultless S) (view_of c) es"
proof -
  let ?K = "dyn_environment R F"
  obtain js where js: "all_planned c es (plan_entries ?K c us) js"
    using entries_planned [OF assms(2,3,1)] by blast
  obtain c1 where plan: "plan_entries ?K c us = (c1, Inr (map fst js))"
    using js by (cases "plan_entries ?K c us") (simp add: all_planned_def)
  with js have c1: "quiet c1" "pending_jobs c1 js"
    and v: "outcome (view_of c1) js = foldl told (view_of c) es"
    and "to_be_connected js \<subseteq> started (view_of c) es"
    by (simp_all add: all_planned_def)
  obtain c2 ts where run: "run_calls ?K S (map fst js) c1 = (c2, ts)" by fastforce
  obtain lost where "quiet c2" "gathered ts = Some (Inr ())"
    "view_of c2 = outcome (view_of c1) js |` (- lost)" "lost \<subseteq> to_be_connected js"
    "lost \<subseteq> rough (S c1 (map fst js)) js"
    by (rule run_calls_outcome [OF c1 assms(4) run])
  with plan run v \<open>to_be_connected js \<subseteq> started (view_of c) es\<close> rough_faultless [of S c1 "map fst js" js]
  show ?thesis
    by (intro that [of c1 "map fst js" c2 ts lost]) (auto simp: update_plan_def may_lose_def)
qed

text \<open>The removals of an \<^verbatim>\<open>init\<close> event.\<close>

lemma outcome_remove:
  "outcome V (map (\<lambda>(k, a). (Remove a, k, None)) d) = V |` (- fst ` set d)"
proof (induction d arbitrary: V)
  case (Cons kv d)
  obtain k a where "kv = (k, a)" by fastforce
  with Cons show ?case by (auto simp: restrict_map_def fun_eq_iff)
qed (simp add: outcome_def restrict_map_def)

lemma prune_tracked:
  assumes q: "quiet c" and ids: "data_model_ids us = Inr ids" and S: "patient S"
  obtains removals c' ts where "removal_plan c (JArr us) = Inr removals"
    and "run_calls (dyn_environment R F) S removals c = (c', ts)" and "gathered ts = Some (Inr ())"
    and "quiet c'" and "view_of c' = view_of c |` set ids"
proof -
  let ?d = "filter (\<lambda>kv. fst kv \<notin> set ids) (models_run c)"
  let ?js = "map (\<lambda>(k, a). (Remove a, k, None :: service option)) ?d"
  have dist: "distinct (map fst (models_run c))" using q by (simp add: quiet_def wf_cluster_def)
  have calls: "map fst ?js = map (Remove \<circ> snd) ?d" by (auto simp: case_prod_beta)
  have js: "pending_jobs c ?js"
    using dist distinct_map_filter [OF dist] q
    by (auto simp: pending_jobs_def models_of_def comp_def case_prod_beta quiet_def)
  obtain c' ts where run: "run_calls (dyn_environment R F) S (map fst ?js) c = (c', ts)" by fastforce
  obtain lost where c': "quiet c'" "gathered ts = Some (Inr ())"
    "view_of c' = outcome (view_of c) ?js |` (- lost)" "lost \<subseteq> to_be_connected ?js"
    by (rule run_calls_outcome [OF q js S run])
  have "to_be_connected ?js = {}" by (auto simp: to_be_connected_def)
  with c' have v: "view_of c' = view_of c |` (- fst ` set ?d)" by (simp add: outcome_remove restrict_map_def)
  have "view_of c k = None" if "k \<notin> fst ` set (models_run c)" for k
    using that by (simp add: view_of_def map_of_eq_None_iff)
  then have "(view_of c |` (- fst ` set ?d)) k = (view_of c |` set ids) k" for k
    by (cases "k \<in> fst ` set (models_run c)") (force simp: restrict_map_def)+
  then have "view_of c |` (- fst ` set ?d) = view_of c |` set ids" by blast
  with run c' v show ?thesis
    by (intro that [of "map (Remove \<circ> snd) ?d" c' ts]) (simp_all only: removal_plan_def iterate.simps sum.case map_sum.simps ids calls)
qed

text \<open>
  An event the cluster can act on: its entries are served, each is about another model, and an
  \<^verbatim>\<open>init\<close> event names its models.
\<close>

definition understood :: "dyn_concurrent_runner \<Rightarrow> json \<times> json \<Rightarrow> bool \<times> entry list \<Rightarrow> bool" where
  "understood R event said \<longleftrightarrow>
     dispatch_event (fst event) = Some (fst said) \<and> distinct (map e_model_id (snd said)) \<and>
     (\<exists>us. snd event = JArr us \<and> list_all2 (served R) us (snd said) \<and>
        (fst said \<longrightarrow> data_model_ids us = Inr (map e_model_id (snd said))))"

text \<open>
  The coroutines of an event have all ended without an exception, those of its updates and, for an
  \<^verbatim>\<open>init\<close> event, those of the removals; \<open>c'\<close> is the cluster they leave.
\<close>

definition coroutines_end ::
  "'a runner_scheme environment \<Rightarrow> 'a runner_scheme scheduler \<Rightarrow> 'a runner_scheme cluster \<Rightarrow>
   json \<times> json \<Rightarrow> 'a runner_scheme cluster \<Rightarrow> bool" where
  "coroutines_end K S c event c' \<longleftrightarrow>
     (\<exists>c1 calls c2 ts. update_plan K c (snd event) = (c1, Inr calls) \<and>
        run_calls K S calls c1 = (c2, ts) \<and> list_all (\<lambda>t. t = Task (Done Ok)) ts \<and>
        (if dispatch_event (fst event) = Some True
         then \<exists>removals ts'. removal_plan c2 (snd event) = Inr removals \<and>
                run_calls K S removals c2 = (c', ts') \<and> list_all (\<lambda>t. t = Task (Done Ok)) ts'
         else c' = c2))"

lemma event_tracked:
  assumes q: "quiet c" and u: "understood R event said" and S: "patient S"
  obtains c' lost where "cluster_event (dyn_environment R F) S c event = (c', Some (Inr ()))" and "quiet c'"
    and "view_of c' = told_event (view_of c) said |` (- lost)"
    and "lost \<subseteq> may_lose (faultless S) (view_of c) (snd said)"
    and "coroutines_end (dyn_environment R F) S c event c'"
proof -
  let ?K = "dyn_environment R F"
  obtain first es where said: "said = (first, es)" by fastforce
  obtain us where us: "snd event = JArr us" "list_all2 (served R) us es" "distinct (map e_model_id es)"
    and ids: "first \<Longrightarrow> data_model_ids us = Inr (map e_model_id es)"
    and first: "dispatch_event (fst event) = Some first"
    using u by (auto simp: understood_def said)
  obtain c1 calls c2 ts lost where plan: "update_plan ?K c (JArr us) = (c1, Inr calls)"
    and run: "run_calls ?K S calls c1 = (c2, ts)" "gathered ts = Some (Inr ())" and q2: "quiet c2"
    and v2: "view_of c2 = foldl told (view_of c) es |` (- lost)"
    and lost: "lost \<subseteq> may_lose (faultless S) (view_of c) es"
    by (rule updates_tracked [OF q us(2,3) S, where F = F])
  show ?thesis
  proof (cases first)
    case False
    with plan run q2 v2 lost show ?thesis
      by (intro that [of c2 lost])
        (simp_all add: cluster_event_def run_event_def coroutines_end_def first us(1) said
          gathered_ok [symmetric])
  next
    case True
    obtain removals c3 ts' where r: "removal_plan c2 (JArr us) = Inr removals"
      "run_calls ?K S removals c2 = (c3, ts')" "gathered ts' = Some (Inr ())" and q3: "quiet c3"
      and v3: "view_of c3 = view_of c2 |` set (map e_model_id es)"
      by (rule prune_tracked [OF q2 ids [OF True] S, where R = R and F = F])
    from v3 v2 have "view_of c3 = told_event (view_of c) said |` (- lost)"
      using True by (simp add: said Int_commute)
    with True plan run r q3 lost show ?thesis
      by (intro that [of c3 lost])
        (simp_all add: cluster_event_def run_event_def coroutines_end_def first us(1) said
          gathered_ok [symmetric])
  qed
qed

section \<open>The refinement\<close>

lemma events_tracked:
  "list_all2 (understood R) events saids \<Longrightarrow> quiet c \<Longrightarrow> patient S \<Longrightarrow>
   quiet (foldl (\<lambda>c. fst \<circ> cluster_event (dyn_environment R F) S c) c events) \<and>
   follows (faultless S) (view_of c) saids
     (view_of (foldl (\<lambda>c. fst \<circ> cluster_event (dyn_environment R F) S c) c events))"
proof (induction arbitrary: c rule: list_all2_induct)
  case Nil
  then show ?case by (simp add: follows.nothing)
next
  case (Cons event events said saids)
  obtain c' lost where c': "cluster_event (dyn_environment R F) S c event = (c', Some (Inr ()))" "quiet c'"
    and v: "view_of c' = told_event (view_of c) said |` (- lost)"
    and lost: "lost \<subseteq> may_lose (faultless S) (view_of c) (snd said)"
    by (rule event_tracked [OF Cons.prems(1) Cons.hyps(1) Cons.prems(2), where F = F])
  from Cons.IH [OF c'(2) Cons.prems(2)] c'(1) show ?case
    by (auto intro: follows.event [OF lost] simp: v)
qed


text \<open>
  The cluster follows what the orchestrator says. Take any sequence of \<^verbatim>\<open>init\<close> and \<^verbatim>\<open>update\<close>
  events whose entries are readable, name connectable models and are about different models within one
  event, and let the coroutines of each event (closing a replaced object, opening the channels of the
  new one, its set-up call) take turns in any order, while connections, TLS keys and set-ups
  fail, time out or are refused in any \<open>bearable\<close> way. Each event then ends without an exception, and
  does to the models in service what it says, except that some of the models it starts anew may be
  missing; these only, and none if nothing fails.
\<close>

theorem cluster_follows_what_it_is_told:
  assumes "quiet c" and "list_all2 (understood R) events saids" and "patient S"
  shows "follows (faultless S) (view_of c) saids
    (view_of (foldl (\<lambda>c. fst \<circ> cluster_event (dyn_environment R F) S c) c events))"
  using events_tracked [OF assms(2,1,3)] by blast

text \<open>
  The cluster serves what the orchestrator says. Take any sequence of \<^verbatim>\<open>init\<close> and \<^verbatim>\<open>update\<close>
  events whose entries are readable, name connectable models and are about different models within one
  event, and let the coroutines of each event (closing a replaced object, opening the channels of the
  new one, its set-up call) take turns in any fair order, with answers that let them go on. From a cluster with
  nothing pending, the models in service are then exactly the abstract map the events denote: every
  model last said to be running, under the deployment, name, address and infos of that entry; none
  that its own deployment was said to have stopped or be recovering; none that a later \<^verbatim>\<open>init\<close> event
  does not name. Stops of other deployments and unknown states change nothing.
\<close>

theorem cluster_serves_what_it_is_told:
  assumes "quiet c" and "list_all2 (understood R) events saids" and "fair S"
  shows "view_of (foldl (\<lambda>c. fst \<circ> cluster_event (dyn_environment R F) S c) c events) =
    foldl told_event (view_of c) saids"
  using events_tracked [OF assms(2,1), of S F] assms(3) follows_exactly by auto

text \<open>
  A sample session: two models are there, one is started, a model of another deployment stops, and
  after a new start of the orchestrator only the second is left.
\<close>

definition running :: "string \<Rightarrow> entry" where
  "running mid = sample_entry\<lparr>e_model_id := jstr mid, e_state := jstr ''RUNNING''\<rparr>"

definition session :: "(json \<times> json) list" where
  "session =
     [(jstr ''update'', JArr [update_of ''m1'' ''RUNNING'', update_of ''m2'' ''RUNNING'']),
      (jstr ''update'', JArr [update_of ''m3'' ''STOPPED'']),
      (jstr ''init'', JArr [update_of ''m2'' ''RUNNING''])]"

definition session_said :: "(bool \<times> entry list) list" where
  "session_said =
     [(False, [running ''m1'', running ''m2'']), (False, [sample_entry\<lparr>e_model_id := jstr ''m3''\<rparr>]),
      (True, [running ''m2''])]"

lemma session_understood: "list_all2 (understood sample_concurrent) session session_said"
  by (simp add: session_def session_said_def understood_def served_def connectable_def running_def
      one_defs dispatch_event_def lit_def)

lemma quiet_empty: "quiet empty_cluster" and view_of_empty: "view_of empty_cluster = Map.empty"
  by (simp_all add: quiet_def wf_cluster_def view_of_def one_defs fun_eq_iff)

theorem cluster_serves_what_it_is_told_witness:
  "view_of (foldl (\<lambda>c. fst \<circ> cluster_event sample_environment in_turn c) empty_cluster session) =
     [jstr ''m2'' \<mapsto> service_of_entry (running ''m2'')]"
proof -
  have "foldl told_event (view_of empty_cluster) session_said =
      [jstr ''m2'' \<mapsto> service_of_entry (running ''m2'')]"
    by (simp add: view_of_empty session_said_def told_def running_def sample_entry_def lit_def restrict_map_def
        fun_eq_iff)
  with cluster_serves_what_it_is_told [OF quiet_empty session_understood fair_in_turn, of "\<lambda>_. []"]
  show ?thesis by (rule trans)
qed


end
