(* ===== verification/Websocket_Properties.thy ===== *)
theory Websocket_Properties
  imports Websocket_Client "HOL-Library.Multiset"
begin

text \<open>
  The properties of the connection to the orchestrator: when connecting succeeds, that no outgoing
  message is lost, and that the listening loop goes on until it is told to stop.
\<close>

section \<open>Lemmas\<close>

lemma connect_from_listening:
  "connect_from env w j = (w', res) \<Longrightarrow> listening w' = listening w"
proof (induction env w j arbitrary: w' res rule: connect_from.induct)
  case (1 env w j)
  then show ?case
    by (auto simp: connect_from.simps [of env w j] connect_finish_def
        split: attempt.splits if_splits)
qed

lemma listen_except_listening [simp]: "listening (fst (listen_except val w e)) = listening w"
  by (simp add: listen_except_def)

lemma listen_step_listening:
  "listening (fst (listen_step val P handler s ev)) =
     (if ev = Disconnect then Some False else listening (fst s))"
proof -
  obtain w pc where s: "s = (w, pc)" by fastforce
  show ?thesis
  proof (cases ev)
    case (Connect_outcome env)
    then show ?thesis
      using connect_from_listening [of env w 0]
      by (cases pc; cases "connect env w"; cases "snd (connect env w)") (auto simp: s connect_def)
  next
    case (Drain_outcome outs)
    then show ?thesis
      by (cases pc; cases "send_pending_messages outs (message_queue w)";
          cases "snd (snd (send_pending_messages outs (message_queue w)))")
         (auto simp: s Let_def)
  next
    case (Message m)
    then show ?thesis by (cases pc; cases "handle_event P handler w m") (auto simp: s)
  next
    case (Sleep_over out)
    then show ?thesis by (cases pc; cases out) (auto simp: s)
  qed (cases pc; auto simp: s disconnect_def Let_def split: option.splits)+
qed

lemma listen_run_listening:
  "listening (fst s) = Some False \<Longrightarrow> listening (fst (listen_run val P handler s evs)) = Some False"
  by (induction evs arbitrary: s) (simp_all add: listen_run_def listen_step_listening)

section \<open>Properties\<close>

text \<open>
  \<^verbatim>\<open>connect\<close> without cancellation: it is connected if one of its \<^verbatim>\<open>max_retries\<close>
  attempts succeeds. If none does, it raises \<^verbatim>\<open>ConnectionError\<close> exactly when the client never
  had a connection: a stale one makes it return as if connected.
\<close>

theorem connect_outcomes:
  assumes "\<And>i. i < max_retries w \<Longrightarrow> env i = Connected \<or> refused (env i)"
  shows "connect env w =
    (if \<exists>i < max_retries w. env i = Connected then (w\<lparr>websocket := Some OPEN\<rparr>, Inr ())
     else if websocket w = None
     then (w, Inl (ConnectionError (lit ''Failed to connect to WebSocket server'')))
     else (w, Inr ()))"
proof (cases "\<exists>i < max_retries w. env i = Connected")
  case True
  define k where "k = (LEAST i. i < max_retries w \<and> env i = Connected)"
  have k: "k < max_retries w \<and> env k = Connected"
    unfolding k_def using True by (rule LeastI_ex)
  have "refused (env i)" if "i < k" for i
    using not_less_Least [of i "\<lambda>i. i < max_retries w \<and> env i = Connected"] that assms [of i] k
    by (auto simp: k_def)
  then show ?thesis using connect_succeeds [of k w env] k True by auto
next
  case False
  then show ?thesis
    using connect_exhausted [of w env] assms by (auto simp: connect_finish_def)
qed

definition sample_client :: websocket_client where
  "sample_client = new_websocket_client (lit ''orchestrator'') 8000 (lit ''bird-game'') True"

definition third_time :: "nat \<Rightarrow> attempt" where
  "third_time i = (if i < 2 then Refused ConnectionRefusedError else Connected)"

theorem connect_outcomes_witness:
  "connect third_time sample_client =
     (if \<exists>i < max_retries sample_client. third_time i = Connected
      then (sample_client\<lparr>websocket := Some OPEN\<rparr>, Inr ())
      else if websocket sample_client = None
      then (sample_client, Inl (ConnectionError (lit ''Failed to connect to WebSocket server'')))
      else (sample_client, Inr ()))"
  by (rule connect_outcomes) (simp add: third_time_def refused_def)

text \<open>
  C40. The clean-up at the end of a loop iteration is meant to clear the reference to a lost
  connection, but tests for the state with the value 0, which is \<^verbatim>\<open>CONNECTING\<close>. So after a
  connection is lost and every reconnection attempt is refused, the loop does not see an error: it
  goes on to flush the queue into the closed connection.
\<close>

theorem stale_connection_flushed:
  assumes "documented_state_values val" and "listening w = Some True" and "websocket w = Some OPEN"
    and "\<And>i. i < max_retries w \<Longrightarrow> refused (env i)"
  shows "listen_run val P handler (w, Reading)
      [Connection_state CLOSED, Receive_error ConnectionClosed, Sleep_over None, Check,
       Connect_outcome env] = (w\<lparr>websocket := Some CLOSED\<rparr>, Draining)"
proof -
  let ?w = "w\<lparr>websocket := Some CLOSED\<rparr>"
  have "connect env ?w = (?w, Inr ())"
    using connect_exhausted [of ?w env] assms(4) by (simp add: connect_finish_def)
  then show ?thesis
    using assms(1-3)
    by (simp add: listen_run_def listen_except_def listen_finally_def is_connected_def
        documented_state_values_def)
qed

definition state_values :: "ws_state \<Rightarrow> nat" where
  "state_values st = (case st of CONNECTING \<Rightarrow> 0 | OPEN \<Rightarrow> 1 | CLOSING \<Rightarrow> 2 | CLOSED \<Rightarrow> 3)"

theorem stale_connection_flushed_witness:
  "listen_run state_values (\<lambda>_. 0) (\<lambda>_ _. None)
      (sample_client\<lparr>listening := Some True, websocket := Some OPEN\<rparr>, Reading)
      [Connection_state CLOSED, Receive_error ConnectionClosed, Sleep_over None, Check,
       Connect_outcome (\<lambda>_. Refused ConnectionRefusedError)] =
   (sample_client\<lparr>listening := Some True, websocket := Some OPEN\<rparr>\<lparr>websocket := Some CLOSED\<rparr>,
    Draining)"
  by (rule stale_connection_flushed)
     (simp_all add: documented_state_values_def state_values_def refused_def)

text \<open>
  Handing over a message never loses it: it is queued behind the others when there is no
  connection; otherwise the socket is asked to send it, and if \<^verbatim>\<open>send_message\<close> then returns, the
  message was transmitted or is in the queue.
\<close>

theorem send_message_keeps:
  assumes "send_message_begin w m = (w1, awaits)"
  shows "if awaits
    then w1 = w \<and> (\<forall>outcome w2. send_message_end w1 m outcome = (w2, None) \<longrightarrow>
           outcome = None \<or> message_queue w2 = message_queue w @ [m])
    else message_queue w1 = message_queue w @ [m]"
proof (cases awaits)
  case True
  then have "w1 = w" using sink.hand_over_async assms by simp
  moreover have "outcome = None \<or> message_queue w2 = message_queue w @ [m]"
    if "send_message_end w m outcome = (w2, None)" for outcome w2
    using that by (cases outcome) (auto dest: sink.conclude_kept)
  ultimately show ?thesis using True by simp
qed (use sink.hand_over_sync assms in simp)

theorem send_message_keeps_witness:
  "if True
    then sample_client\<lparr>websocket := Some OPEN\<rparr> = sample_client\<lparr>websocket := Some OPEN\<rparr> \<and>
      (\<forall>outcome w2. send_message_end (sample_client\<lparr>websocket := Some OPEN\<rparr>) (lit ''x'') outcome =
           (w2, None) \<longrightarrow>
         outcome = None \<or>
         message_queue w2 = message_queue (sample_client\<lparr>websocket := Some OPEN\<rparr>) @ [lit ''x''])
    else message_queue (sample_client\<lparr>websocket := Some OPEN\<rparr>) =
      message_queue (sample_client\<lparr>websocket := Some OPEN\<rparr>) @ [lit ''x'']"
  by (rule send_message_keeps) (simp add: send_message_begin_def is_connected_def)

text \<open>
  C33. Flushing the queue conserves messages and transmits in order: whatever each send does short of
  a cancellation, and whatever other coroutines queue meanwhile, the messages transmitted and those
  left in the queue are those that were there and those that arrived, and the transmitted ones are
  the oldest, in the order they were queued.
\<close>

theorem flush_conserves:
  assumes "send_pending_messages outs queue = (sent, queue', res)"
    and "res \<noteq> Flush_raised CancelledError"
  shows "mset (sent @ queue') = mset (queue @ arrivals outs queue) \<and>
    sent = take (length sent) (queue @ arrivals outs queue)"
proof (cases "\<exists>e. res = Flush_raised e")
  case True
  then obtain e where e: "res = Flush_raised e" "is_Exception e" using assms(2) by (metis not_is_Exception)
  then obtain m rest where "queue @ arrivals outs queue = sent @ m # rest" "queue' = rest @ [m]"
    using flush_exception [of outs queue sent queue' e] assms(1) by auto
  then show ?thesis by simp
next
  case False
  then have "sent @ queue' = queue @ arrivals outs queue"
    using flush_no_exception [OF assms(1)] by blast
  then show ?thesis by (metis append_eq_conv_conj)
qed

theorem flush_conserves_witness:
  "mset ([lit ''a''] @ [lit ''c'', lit ''b'']) =
     mset ([lit ''a'', lit ''b''] @
       arrivals [(None, [lit ''c'']), (Some ConnectionClosed, [])] [lit ''a'', lit ''b'']) \<and>
   [lit ''a''] = take (length [lit ''a'']) ([lit ''a'', lit ''b''] @
       arrivals [(None, [lit ''c'']), (Some ConnectionClosed, [])] [lit ''a'', lit ''b''])"
  by (rule flush_conserves [where res = "Flush_raised ConnectionClosed"]) simp_all

text \<open>
  C32. The listening loop survives: as long as nothing is cancelled and nobody calls
  \<^verbatim>\<open>disconnect\<close>, it is still running after any events: connections lost and refused, failed
  flushes, malformed messages, and an event handler that raises any \<^verbatim>\<open>Exception\<close>.
\<close>

theorem listen_survives:
  assumes "list_all undisturbed evs"
    and "\<And>t d. handler t d \<noteq> Some CancelledError"
  shows "alive (listen_run val P handler (listen_begin w) evs)"
  by (rule listen_run_alive [OF _ assms]) (simp add: alive_def listen_begin_def)

theorem listen_survives_witness:
  "alive (listen_run state_values (\<lambda>_. 0) (\<lambda>_ _. Some KeyError)
     (listen_begin sample_client)
     [Check, Connect_outcome third_time, Drain_outcome [], Message (lit ''{''), Connection_state CLOSED,
      Receive_error ConnectionClosed, Sleep_over None, Check])"
  by (rule listen_survives) (simp_all add: attempt_uncancelled_def third_time_def)

text \<open>
  After \<^verbatim>\<open>disconnect\<close> the loop stops at its next test of the flag, wherever it was and whatever
  happens until then.
\<close>

theorem disconnect_stops:
  assumes "listen_run val P handler (w, pc) (Disconnect # evs) = (w', Top)"
  shows "listen_step val P handler (w', Top) Check = (w', Stopped)"
proof -
  have "listening (fst (listen_step val P handler (w, pc) Disconnect)) = Some False"
    by (subst listen_step_listening) simp
  then have "listening (fst (listen_run val P handler
      (listen_step val P handler (w, pc) Disconnect) evs)) = Some False"
    by (rule listen_run_listening)
  then have "listening w' = Some False" using assms by (simp add: listen_run_def)
  then show ?thesis by simp
qed

theorem disconnect_stops_witness:
  "listen_step state_values (\<lambda>_. 0) (\<lambda>_ _. None)
     (sample_client\<lparr>listening := Some False, websocket := Some CLOSED\<rparr>, Top) Check =
   (sample_client\<lparr>listening := Some False, websocket := Some CLOSED\<rparr>, Stopped)"
  by (rule disconnect_stops [where evs = "[Closed_normally]" and pc = Reading and
        w = "sample_client\<lparr>listening := Some True, websocket := Some OPEN\<rparr>"])
     (simp add: listen_run_def disconnect_def listen_finally_def state_values_def)

text \<open>
  \<^verbatim>\<open>init\<close> of the client drops every \<^verbatim>\<open>Exception\<close> of the first event, the report that the
  coordinator misuses the library included: only a cancellation leaves it.
\<close>

theorem ws_init_swallows:
  "ws_init P handler w received = (if websocket w \<noteq> None \<and>
      (received = Inl CancelledError \<or>
       (\<exists>m. received = Inr m \<and> handle_event P handler w m = Some CancelledError))
    then Some CancelledError else None)"
  by (auto simp: ws_init_def Let_def split: option.splits sum.splits if_splits)

end
