(* ===== verification/Client_Session.thy ===== *)
theory Client_Session
  imports Orchestrator_View Websocket_Properties
begin

text \<open>
  The parts put together: \<^verbatim>\<open>init\<close> and \<^verbatim>\<open>sync\<close> of the cluster, which the concurrent runner delegates
  to. The texts the websocket client reads are decoded and handled by the cluster, each event to its
  end before the next text is read (the handler is awaited); the connection may be lost and made
  again at any time.
\<close>

section \<open>One text\<close>

text \<open>
  \<^verbatim>\<open>WebsocketClient.handle_event\<close> with \<^verbatim>\<open>ModelCluster.handle_event\<close> as its handler, the
  coroutines of the event scheduled by \<open>S\<close>.
\<close>

definition receive_message ::
  "(pystr \<Rightarrow> 64 word) \<Rightarrow> 'a runner_scheme environment \<Rightarrow> 'a runner_scheme scheduler \<Rightarrow>
   'a runner_scheme cluster \<Rightarrow> pystr \<Rightarrow>
   'a runner_scheme cluster \<times> unit result option" where
  "receive_message P K S c message =
     (case (case decode_event P message of
              Inl e \<Rightarrow> (c, Some (Inl e))
            | Inr event \<Rightarrow> cluster_event K S c event) of
        (c', returned) \<Rightarrow>
          (c', if returned = Some (Inl JSONDecodeError) then Some (Inr ()) else returned))"

fun raised :: "unit result option \<Rightarrow> exn option" where
  "raised (Some (Inl e)) = Some e"
| "raised _ = None"

lemma receive_message_handle_event:
  "has_event_handler (ws_client c) \<Longrightarrow>
   raised (snd (receive_message P K S c message)) =
     handle_event P (\<lambda>event_type data. raised (snd (cluster_event K S c (event_type, data))))
       (ws_client c) message"
  by (auto simp: receive_message_def handle_event_def Let_def raised.simps elim!: raised.elims
      split: sum.split prod.split)

section \<open>init and sync\<close>

text \<open>
  \<^verbatim>\<open>init\<close>: connect, then one text. \<open>received\<close> is what the first \<^verbatim>\<open>recv\<close> delivers; whatever happens
  to it is logged and dropped.
\<close>

definition cluster_init ::
  "(nat \<Rightarrow> attempt) \<Rightarrow> (pystr \<Rightarrow> 64 word) \<Rightarrow> 'a runner_scheme environment \<Rightarrow>
   'a runner_scheme scheduler \<Rightarrow> pystr result \<Rightarrow>
   'a runner_scheme cluster \<Rightarrow> 'a runner_scheme cluster \<times> unit result option" where
  "cluster_init env P K S received c =
     (case connect env (ws_client c) of
        (w, Inl e) \<Rightarrow> (c\<lparr>ws_client := w\<rparr>, Some (Inl e))
      | (w, Inr _) \<Rightarrow>
          (case (if websocket w = None then (c\<lparr>ws_client := w\<rparr>, Some (Inl AttributeError))
                 else case received of
                        Inl e \<Rightarrow> (c\<lparr>ws_client := w\<rparr>, Some (Inl e))
                      | Inr message \<Rightarrow> receive_message P K S (c\<lparr>ws_client := w\<rparr>) message) of
             (c', returned) \<Rightarrow>
               (c', case returned of
                      Some (Inl e) \<Rightarrow> if is_Exception e then Some (Inr ()) else Some (Inl e)
                    | _ \<Rightarrow> returned)))"

text \<open>The module's \<^verbatim>\<open>start\<close> only connects, and logs when that fails.\<close>

definition cluster_start ::
  "(nat \<Rightarrow> attempt) \<Rightarrow> 'a runner_scheme cluster \<Rightarrow> 'a runner_scheme cluster \<times> exn option" where
  "cluster_start env c =
     (case connect env (ws_client c) of
        (w, Inl e) \<Rightarrow> (c\<lparr>ws_client := w\<rparr>, if is_Exception e then None else Some e)
      | (w, Inr _) \<Rightarrow> (c\<lparr>ws_client := w\<rparr>, None))"

text \<open>
  \<^verbatim>\<open>sync\<close>: the loop of \<^verbatim>\<open>listen\<close>; only a text that is read touches more than the connection. A loop
  whose handler is still waiting for a coroutine (\<open>None\<close>) reads nothing.
\<close>

fun text_read :: "listen_pc \<Rightarrow> listen_event \<Rightarrow> pystr option" where
  "text_read Reading (Message m) = Some m"
| "text_read _ _ = None"

type_synonym 'r session = "'r cluster \<times> listen_pc option"

fun session_step ::
  "(ws_state \<Rightarrow> nat) \<Rightarrow> (pystr \<Rightarrow> 64 word) \<Rightarrow> 'a runner_scheme environment \<Rightarrow>
   'a runner_scheme scheduler \<Rightarrow> 'a runner_scheme session \<Rightarrow> listen_event \<Rightarrow>
   'a runner_scheme session" where
  "session_step val P K S (c, None) ev = (c, None)"
| "session_step val P K S (c, Some pc) ev =
     (case text_read pc ev of
        Some m \<Rightarrow>
          (case receive_message P K S c m of
             (c', None) \<Rightarrow> (c', None)
           | (c', Some (Inr _)) \<Rightarrow> (c', Some Reading)
           | (c', Some (Inl e)) \<Rightarrow>
               (case listen_except val (ws_client c') e of (w, pc') \<Rightarrow> (c'\<lparr>ws_client := w\<rparr>, Some pc')))
      | None \<Rightarrow>
          (case listen_step val P (\<lambda>event_type data. None) (ws_client c, pc) ev of
             (w, pc') \<Rightarrow> (c\<lparr>ws_client := w\<rparr>, Some pc')))"

definition sync_begin :: "'a runner_scheme cluster \<Rightarrow> 'a runner_scheme session" where
  "sync_begin c = (case listen_begin (ws_client c) of (w, pc) \<Rightarrow> (c\<lparr>ws_client := w\<rparr>, Some pc))"

definition cluster_sync ::
  "(ws_state \<Rightarrow> nat) \<Rightarrow> (pystr \<Rightarrow> 64 word) \<Rightarrow> 'a runner_scheme environment \<Rightarrow>
   'a runner_scheme scheduler \<Rightarrow> 'a runner_scheme cluster \<Rightarrow> listen_event list \<Rightarrow>
   'a runner_scheme session" where
  "cluster_sync val P K S c evs = foldl (session_step val P K S) (sync_begin c) evs"

text \<open>The texts that were read: those that arrived while the loop was reading.\<close>

fun heard ::
  "(ws_state \<Rightarrow> nat) \<Rightarrow> (pystr \<Rightarrow> 64 word) \<Rightarrow> 'a runner_scheme environment \<Rightarrow>
   'a runner_scheme scheduler \<Rightarrow> 'a runner_scheme session \<Rightarrow> listen_event list \<Rightarrow> pystr list" where
  "heard val P K S s [] = []"
| "heard val P K S s (ev # evs) =
     (case Option.bind (snd s) (\<lambda>pc. text_read pc ev) of Some m \<Rightarrow> [m] | None \<Rightarrow> []) @
     heard val P K S (session_step val P K S s ev) evs"

section \<open>What the texts mean\<close>

text \<open>
  A text is an event the cluster can act on; or it is no JSON, or an event of another type, and then
  it says nothing.
\<close>

definition meant ::
  "(pystr \<Rightarrow> 64 word) \<Rightarrow> dyn_concurrent_runner \<Rightarrow> pystr \<Rightarrow> bool \<times> entry list \<Rightarrow> bool" where
  "meant P R message said \<longleftrightarrow>
     (case decode_event P message of
        Inl e \<Rightarrow> e = JSONDecodeError \<and> said = (False, [])
      | Inr event \<Rightarrow> understood R event said \<or>
          (dispatch_event (fst event) = None \<and> said = (False, [])))"

lemma ws_client_irrelevant [simp]:
  "view_of (c\<lparr>ws_client := w\<rparr>) = view_of c" "quiet (c\<lparr>ws_client := w\<rparr>) = quiet c"
  by (simp_all add: view_of_def quiet_def wf_cluster_def keyed_def)

lemma text_tracked:
  assumes "quiet c" and "meant P R message said" and S: "patient S"
  obtains c' lost where "receive_message P (dyn_environment R F) S c message = (c', Some (Inr ()))" and "quiet c'"
    and "view_of c' = told_event (view_of c) said |` (- lost)"
    and "lost \<subseteq> may_lose (faultless S) (view_of c) (snd said)"
proof (cases "decode_event P message")
  case (Inl e)
  with assms show ?thesis
    by (intro that [of c "{}"]) (simp_all add: receive_message_def meant_def)
next
  case (Inr event)
  show ?thesis
  proof (cases "understood R event said")
    case True
    obtain c' lost where "cluster_event (dyn_environment R F) S c event = (c', Some (Inr ()))" "quiet c'"
      "view_of c' = told_event (view_of c) said |` (- lost)"
      "lost \<subseteq> may_lose (faultless S) (view_of c) (snd said)"
      by (rule event_tracked [OF assms(1) True S, where F = F])
    with Inr show ?thesis by (intro that [of c' lost]) (simp_all add: receive_message_def)
  next
    case False
    with Inr assms show ?thesis
      by (intro that [of c "{}"]) (simp_all add: receive_message_def meant_def cluster_event_def)
  qed
qed

lemma session_tracked:
  "quiet (fst s) \<Longrightarrow> patient S \<Longrightarrow> list_all2 (meant P R) (heard val P (dyn_environment R F) S s evs) saids \<Longrightarrow>
   follows (faultless S) (view_of (fst s)) saids
     (view_of (fst (foldl (session_step val P (dyn_environment R F) S) s evs)))"
proof (induction evs arbitrary: s saids)
  case (Cons ev evs)
  let ?K = "dyn_environment R F"
  obtain c h where h: "s = (c, h)" by fastforce
  show ?case
  proof (cases h)
    case None
    with Cons.IH [of "(c, None)" saids] Cons.prems h show ?thesis by simp
  next
    case (Some pc)
    with h have s: "s = (c, Some pc)" by simp
    show ?thesis
    proof (cases "text_read pc ev")
      case (Some m)
      with Cons.prems(3) obtain said saids' where saids: "saids = said # saids'" "meant P R m said"
        "list_all2 (meant P R) (heard val P ?K S (session_step val P ?K S s ev) evs) saids'"
        by (auto simp: s list_all2_Cons1)
      have "quiet c" using Cons.prems(1) s by simp
      then obtain c' lost where c': "receive_message P ?K S c m = (c', Some (Inr ()))" "quiet c'"
        "view_of c' = told_event (view_of c) said |` (- lost)"
        "lost \<subseteq> may_lose (faultless S) (view_of c) (snd said)"
        by (rule text_tracked [OF _ saids(2) Cons.prems(2), where F = F])
      then have step: "session_step val P ?K S s ev = (c', Some Reading)" by (simp add: s Some)
      have "follows (faultless S) (view_of c') saids'
          (view_of (fst (foldl (session_step val P ?K S) (c', Some Reading) evs)))"
        using Cons.IH [of "(c', Some Reading)" saids'] Cons.prems(2) saids(3) c'(2) step by simp
      then have "follows (faultless S) (view_of c) (said # saids')
          (view_of (fst (foldl (session_step val P ?K S) (c', Some Reading) evs)))"
        unfolding c'(3) by (rule follows.event [OF c'(4)])
      then show ?thesis unfolding saids(1) by (simp add: s Some c'(1))
    next
      case None
      obtain w pc' where "listen_step val P (\<lambda>event_type data. None) (ws_client c, pc) ev = (w, pc')"
        by fastforce
      with None have "session_step val P ?K S s ev = (c\<lparr>ws_client := w\<rparr>, Some pc')" by (simp add: s)
      with Cons.IH [of "(c\<lparr>ws_client := w\<rparr>, Some pc')" saids] Cons.prems None show ?thesis by (simp add: s)
    qed
  qed
qed simp

text \<open>And the loop never gets stuck in a handler.\<close>

lemma session_keeps_reading:
  "quiet (fst s) \<Longrightarrow> patient S \<Longrightarrow> list_all2 (meant P R) (heard val P (dyn_environment R F) S s evs) saids \<Longrightarrow>
   snd s \<noteq> None \<Longrightarrow> snd (foldl (session_step val P (dyn_environment R F) S) s evs) \<noteq> None"
proof (induction evs arbitrary: s saids)
  case (Cons ev evs)
  let ?K = "dyn_environment R F"
  obtain c pc where s: "s = (c, Some pc)" using Cons.prems(4) by (cases s) auto
  have "\<exists>c' pc' saids'. session_step val P ?K S s ev = (c', Some pc') \<and> quiet c' \<and>
      list_all2 (meant P R) (heard val P ?K S (c', Some pc') evs) saids'"
  proof (cases "text_read pc ev")
    case (Some m)
    with Cons.prems(3) obtain said saids' where "meant P R m said"
      and rest: "list_all2 (meant P R) (heard val P ?K S (session_step val P ?K S s ev) evs) saids'"
      by (auto simp: s list_all2_Cons1)
    obtain c' lost where "receive_message P ?K S c m = (c', Some (Inr ()))" "quiet c'"
      using text_tracked [OF _ \<open>meant P R m said\<close> Cons.prems(2), where F = F and c = c] Cons.prems(1) s
      by (metis fst_conv)
    with rest s Some show ?thesis by auto
  next
    case None
    obtain w pc' where "listen_step val P (\<lambda>event_type data. None) (ws_client c, pc) ev = (w, pc')"
      by fastforce
    with Cons.prems None s show ?thesis by auto
  qed
  with Cons.IH Cons.prems(2) show ?case by fastforce
qed simp

section \<open>A session\<close>

lemma init_tracked:
  assumes "quiet c" and "meant P R message said" and S: "patient S"
    and "connect env (ws_client c) = (w, Inr ())" and "websocket w \<noteq> None"
  obtains c' lost where "cluster_init env P (dyn_environment R F) S (Inr message) c = (c', Some (Inr ()))"
    and "quiet c'" and "view_of c' = told_event (view_of c) said |` (- lost)"
    and "lost \<subseteq> may_lose (faultless S) (view_of c) (snd said)"
proof -
  have "quiet (c\<lparr>ws_client := w\<rparr>)" using assms(1) by simp
  then obtain c' lost where "receive_message P (dyn_environment R F) S (c\<lparr>ws_client := w\<rparr>) message =
      (c', Some (Inr ()))"
    "quiet c'" "view_of c' = told_event (view_of (c\<lparr>ws_client := w\<rparr>)) said |` (- lost)"
    "lost \<subseteq> may_lose (faultless S) (view_of (c\<lparr>ws_client := w\<rparr>)) (snd said)"
    by (rule text_tracked [OF _ assms(2) S, where F = F])
  with assms(4,5) show ?thesis by (intro that [of c' lost]) (auto simp: cluster_init_def)
qed

lemma session_followed:
  assumes "k < max_retries (ws_client c)" and "env k = Connected" and "\<And>i. i < k \<Longrightarrow> refused (env i)"
    and "quiet c" and "patient S" and "meant P R message said"
    and "cluster_init env P (dyn_environment R F) S (Inr message) c = (c', returned)"
    and "list_all2 (meant P R) (heard val P (dyn_environment R F) S (sync_begin c') evs) saids"
  shows "returned = Some (Inr ()) \<and> snd (cluster_sync val P (dyn_environment R F) S c' evs) \<noteq> None \<and>
    follows (faultless S) (view_of c) (said # saids)
      (view_of (fst (cluster_sync val P (dyn_environment R F) S c' evs)))"
proof -
  have "connect env (ws_client c) = (ws_client c\<lparr>websocket := Some OPEN\<rparr>, Inr ())"
    using assms(1-3) by (rule connect_succeeds)
  then obtain c1 lost where c1: "cluster_init env P (dyn_environment R F) S (Inr message) c = (c1, Some (Inr ()))"
    "quiet c1" "view_of c1 = told_event (view_of c) said |` (- lost)"
    "lost \<subseteq> may_lose (faultless S) (view_of c) (snd said)"
    by (rule init_tracked [OF assms(4,6,5), where F = F]) simp_all
  have c': "c' = c1" "returned = Some (Inr ())" using assms(7) c1(1) by simp_all
  have "quiet (fst (sync_begin c1))" and v: "view_of (fst (sync_begin c1)) = view_of c1"
    using c1(2) by (simp_all add: sync_begin_def split: prod.split)
  from session_tracked [OF this(1) assms(5) assms(8) [unfolded c']]
  have "follows (faultless S) (view_of c) (said # saids)
      (view_of (fst (cluster_sync val P (dyn_environment R F) S c1 evs)))"
    unfolding v c1(3) cluster_sync_def by (rule follows.event [OF c1(4)])
  moreover have "snd (cluster_sync val P (dyn_environment R F) S c1 evs) \<noteq> None"
    unfolding cluster_sync_def
    by (rule session_keeps_reading [OF \<open>quiet (fst (sync_begin c1))\<close> assms(5) assms(8) [unfolded c'(1)]])
      (simp add: sync_begin_def split: prod.split)
  ultimately show ?thesis by (simp add: c')
qed


text \<open>
  C2. If no model fails, exactly the models the orchestrator has named are in service. The session is
  that of the property above, with the same assumptions, and moreover every channel, key and set-up
  succeeds the first time (\<open>fair\<close>). Then the models in service are at any time exactly those the texts
  read so far denote, whatever the order in which the coroutines of an event take turns and however the
  connection to the orchestrator is lost and made again.
\<close>

theorem session_serves:
  assumes "k < max_retries (ws_client c)" and "env k = Connected" and "\<And>i. i < k \<Longrightarrow> refused (env i)"
    and "quiet c" and "fair S" and "meant P R message said"
    and "cluster_init env P (dyn_environment R F) S (Inr message) c = (c', returned)"
    and "list_all2 (meant P R) (heard val P (dyn_environment R F) S (sync_begin c') evs) saids"
  shows "returned = Some (Inr ()) \<and> snd (cluster_sync val P (dyn_environment R F) S c' evs) \<noteq> None \<and>
    view_of (fst (cluster_sync val P (dyn_environment R F) S c' evs)) =
      foldl told_event (view_of c) (said # saids)"
  using session_followed [OF assms(1-4) _ assms(6-8)] assms(5) by (auto dest: follows_exactly)

text \<open>The text of an event, and what it decodes to.\<close>

definition event_text :: "(64 word \<Rightarrow> pystr) \<Rightarrow> json \<Rightarrow> json \<Rightarrow> pystr" where
  "event_text F event_type data =
     json_text F (lit '', '') (lit '': '')
       (JObj [(lit ''event'', event_type), (lit ''data'', data)])"

lemma decode_event_text:
  assumes "storable F P event_type" and "storable F P data"
  shows "decode_event P (event_text F event_type data) = Inr (event_type, data)"
proof -
  have "storable F P (JObj [(lit ''event'', event_type), (lit ''data'', data)])"
    using assms by (simp add: lit_def high_surrogate_def)
  from loads_json_text(1) [OF this] show ?thesis
    by (simp add: decode_event_def event_text_def lit_def)
qed

text \<open>
  A sample session: the first text is empty, the second is the complete list of the orchestrator, and
  then the connection is closed.
\<close>

definition sample_text :: pystr where
  "sample_text = event_text (\<lambda>_. []) (jstr ''init'') (JArr [update_of ''m2'' ''RUNNING''])"

definition sample_linked :: "dyn_runner cluster" where
  "sample_linked = empty_cluster\<lparr>ws_client := (ws_client empty_cluster)\<lparr>websocket := Some OPEN\<rparr>\<rparr>"

definition sample_traffic :: "listen_event list" where
  "sample_traffic = [Check, Message sample_text, Closed_normally]"

lemma sample_first: "meant (\<lambda>_. 0) sample_concurrent [] (False, [])"
  by (simp add: meant_def decode_event_def loads_def skip_ws_def scan_value_code decode_error_def)

lemma sample_init:
  "cluster_init (\<lambda>_. Connected) (\<lambda>_. 0) sample_environment S (Inr []) empty_cluster =
     (sample_linked, Some (Inr ()))"
proof -
  have "decode_event (\<lambda>_. 0) [] = Inl JSONDecodeError"
    by (simp add: decode_event_def loads_def skip_ws_def scan_value_code decode_error_def)
  moreover have "connect (\<lambda>_. Connected) (ws_client empty_cluster) =
      (ws_client empty_cluster\<lparr>websocket := Some OPEN\<rparr>, Inr ())"
    by (rule connect_succeeds [of 0]) (simp_all add: one_defs new_websocket_client_def)
  ultimately show ?thesis by (simp add: cluster_init_def receive_message_def sample_linked_def)
qed

lemma sample_meant: "meant (\<lambda>_. 0) sample_concurrent sample_text (True, [running ''m2''])"
proof -
  have "storable (\<lambda>_. []) (\<lambda>_. 0) (jstr ''init'')"
    and "storable (\<lambda>_. []) (\<lambda>_. 0) (JArr [update_of ''m2'' ''RUNNING''])"
    by (simp_all add: update_of_def lit_def high_surrogate_def digits.simps)
  note decoded = decode_event_text [OF this]
  have "understood sample_concurrent (jstr ''init'', JArr [update_of ''m2'' ''RUNNING''])
      (True, [running ''m2''])"
    by (simp add: understood_def served_def connectable_def running_def one_defs dispatch_event_def
        lit_def)
  then show ?thesis by (simp add: meant_def sample_text_def decoded)
qed

lemma sample_heard:
  "heard val (\<lambda>_. 0) sample_environment S (sync_begin sample_linked) sample_traffic = [sample_text]"
  by (simp add: sync_begin_def listen_begin_def is_connected_def sample_linked_def sample_traffic_def)

lemma sample_told:
  "foldl told_event (view_of empty_cluster) [(False, []), (True, [running ''m2''])] =
     [jstr ''m2'' \<mapsto> service_of_entry (running ''m2'')]"
  by (simp add: view_of_empty told_def running_def one_defs restrict_map_def fun_eq_iff)

theorem session_serves_witness:
  "view_of (fst (cluster_sync (\<lambda>_. 1) (\<lambda>_. 0) sample_environment in_turn sample_linked sample_traffic)) =
     [jstr ''m2'' \<mapsto> service_of_entry (running ''m2'')]"
proof -
  have "list_all2 (meant (\<lambda>_. 0) sample_concurrent)
      (heard (\<lambda>_. 1) (\<lambda>_. 0) sample_environment in_turn (sync_begin sample_linked) sample_traffic)
      [(True, [running ''m2''])]"
    by (simp add: sample_heard sample_meant)
  from session_serves [OF _ _ _ quiet_empty fair_in_turn sample_first sample_init this, where k = 0]
  show ?thesis unfolding sample_told by (simp add: one_defs new_websocket_client_def)
qed


end
