(* ===== verification/Proto_Schema.thy ===== *)
theory Proto_Schema
  imports Prelude
begin

text \<open>
  The messages and services on the wire. \<^verbatim>\<open>grpc/protos/*.proto\<close> declare them; the generated modules
  \<^verbatim>\<open>grpc/generated/*_pb2.py\<close> hold the same declarations as the bytes of a \<^verbatim>\<open>FileDescriptorProto\<close>,
  with the offsets of every message and service in them. Both are transcribed here, and related by the
  documented wire format of \<^verbatim>\<open>descriptor.proto\<close>: base-128 varints, and fields tagged with their number
  and wire type, in the order of their numbers.
\<close>

section \<open>Declarations\<close>

datatype field_type = Uint32 | Str | Bytes_field | Message_field string | Enum_field string

record field_decl =
  field_name :: string
  field_number :: nat
  field_repeated :: bool
  field_type :: field_type

record message_decl =
  message_name :: string
  message_fields :: "field_decl list"

record enum_decl =
  enum_name :: string
  enum_values :: "(string \<times> nat) list"

record rpc_decl =
  rpc_name :: string
  rpc_input :: string
  rpc_output :: string

record service_decl =
  service_name :: string
  service_rpcs :: "rpc_decl list"

record file_decl =
  file_name :: string
  file_package :: string
  file_imports :: "string list"
  file_messages :: "message_decl list"
  file_enums :: "enum_decl list"
  file_services :: "service_decl list"

abbreviation singular :: "field_type \<Rightarrow> string \<Rightarrow> nat \<Rightarrow> field_decl" where
  "singular t x n \<equiv> \<lparr>field_name = x, field_number = n, field_repeated = False, field_type = t\<rparr>"

abbreviation repeated_field :: "field_type \<Rightarrow> string \<Rightarrow> nat \<Rightarrow> field_decl" where
  "repeated_field t x n \<equiv> \<lparr>field_name = x, field_number = n, field_repeated = True, field_type = t\<rparr>"

abbreviation message_of :: "string \<Rightarrow> field_decl list \<Rightarrow> message_decl" where
  "message_of x fs \<equiv> \<lparr>message_name = x, message_fields = fs\<rparr>"

abbreviation rpc_of :: "string \<Rightarrow> string \<Rightarrow> string \<Rightarrow> rpc_decl" where
  "rpc_of x i out \<equiv> \<lparr>rpc_name = x, rpc_input = i, rpc_output = out\<rparr>"

text \<open>Message types are given by their full names.\<close>

definition commons_proto :: file_decl where
  "commons_proto =
     \<lparr>file_name = ''commons.proto'', file_package = ''commons'', file_imports = [],
      file_messages =
       [message_of ''Variant''
          [singular (Enum_field ''commons.VariantType'') ''type'' 2, singular Bytes_field ''value'' 3],
        message_of ''Argument''
          [singular Uint32 ''position'' 1, singular (Message_field ''commons.Variant'') ''data'' 2],
        message_of ''KwArgument''
          [singular Str ''keyword'' 1, singular (Message_field ''commons.Variant'') ''data'' 2],
        message_of ''Status'' [singular Str ''code'' 1, singular Str ''message'' 2]],
      file_enums =
       [\<lparr>enum_name = ''VariantType'',
         enum_values = [(''NONE'', 0), (''DOUBLE'', 1), (''INT'', 2), (''STRING'', 3), (''PARQUET'', 4),
           (''ARROW'', 5), (''JSON'', 6)]\<rparr>],
      file_services = []\<rparr>"

definition dynamic_subclass_proto :: file_decl where
  "dynamic_subclass_proto =
     \<lparr>file_name = ''dynamic_subclass.proto'', file_package = ''dynamic_subclass'',
      file_imports = [''commons.proto'', ''google/protobuf/empty.proto''],
      file_messages =
       [message_of ''SetupRequest''
          [singular Str ''className'' 1,
           repeated_field (Message_field ''commons.Argument'') ''instanceArguments'' 2,
           repeated_field (Message_field ''commons.KwArgument'') ''instanceKwArguments'' 3],
        message_of ''SetupResponse'' [singular (Message_field ''commons.Status'') ''status'' 1],
        message_of ''CallRequest''
          [singular Str ''methodName'' 1,
           repeated_field (Message_field ''commons.Argument'') ''methodArguments'' 2,
           repeated_field (Message_field ''commons.KwArgument'') ''methodKwArguments'' 3],
        message_of ''CallResponse''
          [singular (Message_field ''commons.Status'') ''status'' 1,
           singular (Message_field ''commons.Variant'') ''methodResponse'' 2],
        message_of ''RestResponse'' [singular (Message_field ''commons.Status'') ''status'' 1]],
      file_enums = [],
      file_services =
       [\<lparr>service_name = ''DynamicSubclassService'',
         service_rpcs =
          [rpc_of ''Setup'' ''dynamic_subclass.SetupRequest'' ''dynamic_subclass.SetupResponse'',
           rpc_of ''Call'' ''dynamic_subclass.CallRequest'' ''dynamic_subclass.CallResponse'',
           rpc_of ''Rest'' ''google.protobuf.Empty'' ''dynamic_subclass.RestResponse'']\<rparr>]\<rparr>"

definition train_infer_proto :: file_decl where
  "train_infer_proto =
     \<lparr>file_name = ''train_infer.proto'', file_package = ''train_infer'',
      file_imports = [''commons.proto'', ''google/protobuf/empty.proto''],
      file_messages =
       [message_of ''InferRequest'' [singular (Message_field ''commons.Variant'') ''argument'' 1],
        message_of ''InferResponse'' [singular (Message_field ''commons.Variant'') ''prediction'' 1]],
      file_enums = [],
      file_services =
       [\<lparr>service_name = ''TrainInferStreamService'',
         service_rpcs =
          [rpc_of ''Setup'' ''google.protobuf.Empty'' ''google.protobuf.Empty'',
           rpc_of ''Infer'' ''train_infer.InferRequest'' ''train_infer.InferResponse'',
           rpc_of ''Reinitialize'' ''google.protobuf.Empty'' ''google.protobuf.Empty'']\<rparr>,
        \<lparr>service_name = ''TrainInferService'',
         service_rpcs =
          [rpc_of ''Setup'' ''google.protobuf.Empty'' ''google.protobuf.Empty'',
           rpc_of ''Infer'' ''train_infer.InferRequest'' ''train_infer.InferResponse'',
           rpc_of ''Reinitialize'' ''google.protobuf.Empty'' ''google.protobuf.Empty'']\<rparr>]\<rparr>"

section \<open>The wire format\<close>

fun varint :: "nat \<Rightarrow> bytes" where
  "varint n = (if n < 128 then [of_nat n] else of_nat (n mod 128 + 128) # varint (n div 128))"

declare varint.simps [simp del]

definition ascii_bytes :: "string \<Rightarrow> bytes" where
  "ascii_bytes s = map of_char s"

text \<open>A length-delimited field (wire type 2) and an integer field (wire type 0).\<close>

definition delimited :: "nat \<Rightarrow> bytes \<Rightarrow> bytes" where
  "delimited n bs = varint (8 * n + 2) @ varint (length bs) @ bs"

definition integer :: "nat \<Rightarrow> nat \<Rightarrow> bytes" where
  "integer n i = varint (8 * n) @ varint i"

text \<open>The numbers of the field types, and the name of the type where it has one.\<close>

fun type_number :: "field_type \<Rightarrow> nat" where
  "type_number Str = 9"
| "type_number (Message_field _) = 11"
| "type_number Bytes_field = 12"
| "type_number Uint32 = 13"
| "type_number (Enum_field _) = 14"

fun type_name :: "field_type \<Rightarrow> string option" where
  "type_name (Message_field x) = Some x"
| "type_name (Enum_field x) = Some x"
| "type_name _ = None"

definition encode_field :: "field_decl \<Rightarrow> bytes" where
  "encode_field f =
     delimited 1 (ascii_bytes (field_name f)) @ integer 3 (field_number f) @
     integer 4 (if field_repeated f then 3 else 1) @ integer 5 (type_number (field_type f)) @
     (case type_name (field_type f) of
        None \<Rightarrow> []
      | Some x \<Rightarrow> delimited 6 (ascii_bytes (CHR ''.'' # x)))"

definition encode_message :: "message_decl \<Rightarrow> bytes" where
  "encode_message m =
     delimited 1 (ascii_bytes (message_name m)) @ concat (map (delimited 2 \<circ> encode_field) (message_fields m))"

definition encode_enum :: "enum_decl \<Rightarrow> bytes" where
  "encode_enum e =
     delimited 1 (ascii_bytes (enum_name e)) @
     concat (map (\<lambda>(x, n). delimited 2 (delimited 1 (ascii_bytes x) @ integer 2 n)) (enum_values e))"

definition encode_rpc :: "rpc_decl \<Rightarrow> bytes" where
  "encode_rpc r =
     delimited 1 (ascii_bytes (rpc_name r)) @ delimited 2 (ascii_bytes (CHR ''.'' # rpc_input r)) @
     delimited 3 (ascii_bytes (CHR ''.'' # rpc_output r))"

definition encode_service :: "service_decl \<Rightarrow> bytes" where
  "encode_service s =
     delimited 1 (ascii_bytes (service_name s)) @ concat (map (delimited 2 \<circ> encode_rpc) (service_rpcs s))"

definition encode_file :: "file_decl \<Rightarrow> bytes" where
  "encode_file f =
     delimited 1 (ascii_bytes (file_name f)) @ delimited 2 (ascii_bytes (file_package f)) @
     concat (map (delimited 3 \<circ> ascii_bytes) (file_imports f)) @
     concat (map (delimited 4 \<circ> encode_message) (file_messages f)) @
     concat (map (delimited 5 \<circ> encode_enum) (file_enums f)) @
     concat (map (delimited 6 \<circ> encode_service) (file_services f)) @
     delimited 12 (ascii_bytes ''proto3'')"

section \<open>The generated modules\<close>

definition commons_serialized :: bytes where
  "commons_serialized =
    [10, 13] @ ascii_bytes ''commons.proto'' @ [18, 7] @ ascii_bytes ''commons'' @ [34, 60, 10, 7] @
     ascii_bytes ''Variant'' @ [18, 34, 10, 4] @ ascii_bytes ''type'' @ [24, 2, 32, 1, 40, 14, 50, 20] @
     ascii_bytes ''.commons.VariantType'' @ [18, 13, 10, 5] @ ascii_bytes ''value'' @
     [24, 3, 32, 1, 40, 12, 34, 60, 10, 8] @ ascii_bytes ''Argument'' @ [18, 16, 10, 8] @
     ascii_bytes ''position'' @ [24, 1, 32, 1, 40, 13, 18, 30, 10, 4] @ ascii_bytes ''data'' @
     [24, 2, 32, 1, 40, 11, 50, 16] @ ascii_bytes ''.commons.Variant'' @ [34, 61, 10, 10] @
     ascii_bytes ''KwArgument'' @ [18, 15, 10, 7] @ ascii_bytes ''keyword'' @
     [24, 1, 32, 1, 40, 9, 18, 30, 10, 4] @ ascii_bytes ''data'' @ [24, 2, 32, 1, 40, 11, 50, 16] @
     ascii_bytes ''.commons.Variant'' @ [34, 39, 10, 6] @ ascii_bytes ''Status'' @ [18, 12, 10, 4] @
     ascii_bytes ''code'' @ [24, 1, 32, 1, 40, 9, 18, 15, 10, 7] @ ascii_bytes ''message'' @
     [24, 2, 32, 1, 40, 9, 42, 90, 10, 11] @ ascii_bytes ''VariantType'' @ [18, 8, 10, 4] @ ascii_bytes ''NONE'' @
     [16, 0, 18, 10, 10, 6] @ ascii_bytes ''DOUBLE'' @ [16, 1, 18, 7, 10, 3] @ ascii_bytes ''INT'' @
     [16, 2, 18, 10, 10, 6] @ ascii_bytes ''STRING'' @ [16, 3, 18, 11, 10, 7] @ ascii_bytes ''PARQUET'' @
     [16, 4, 18, 9, 10, 5] @ ascii_bytes ''ARROW'' @ [16, 5, 18, 8, 10, 4] @ ascii_bytes ''JSON'' @
     [16, 6, 98, 6] @ ascii_bytes ''proto3''"

definition dynamic_subclass_serialized :: bytes where
  "dynamic_subclass_serialized =
    [10, 22] @ ascii_bytes ''dynamic_subclass.proto'' @ [18, 16] @ ascii_bytes ''dynamic_subclass'' @ [26, 13] @
     ascii_bytes ''commons.proto'' @ [26, 27] @ ascii_bytes ''google/protobuf/empty.proto'' @
     [34, 129, 1, 10, 12] @ ascii_bytes ''SetupRequest'' @ [18, 17, 10, 9] @ ascii_bytes ''className'' @
     [24, 1, 32, 1, 40, 9, 18, 44, 10, 17] @ ascii_bytes ''instanceArguments'' @
     [24, 2, 32, 3, 40, 11, 50, 17] @ ascii_bytes ''.commons.Argument'' @ [18, 48, 10, 19] @
     ascii_bytes ''instanceKwArguments'' @ [24, 3, 32, 3, 40, 11, 50, 19] @ ascii_bytes ''.commons.KwArgument'' @
     [34, 48, 10, 13] @ ascii_bytes ''SetupResponse'' @ [18, 31, 10, 6] @ ascii_bytes ''status'' @
     [24, 1, 32, 1, 40, 11, 50, 15] @ ascii_bytes ''.commons.Status'' @ [34, 125, 10, 11] @
     ascii_bytes ''CallRequest'' @ [18, 18, 10, 10] @ ascii_bytes ''methodName'' @
     [24, 1, 32, 1, 40, 9, 18, 42, 10, 15] @ ascii_bytes ''methodArguments'' @
     [24, 2, 32, 3, 40, 11, 50, 17] @ ascii_bytes ''.commons.Argument'' @ [18, 46, 10, 17] @
     ascii_bytes ''methodKwArguments'' @ [24, 3, 32, 3, 40, 11, 50, 19] @ ascii_bytes ''.commons.KwArgument'' @
     [34, 89, 10, 12] @ ascii_bytes ''CallResponse'' @ [18, 31, 10, 6] @ ascii_bytes ''status'' @
     [24, 1, 32, 1, 40, 11, 50, 15] @ ascii_bytes ''.commons.Status'' @ [18, 40, 10, 14] @
     ascii_bytes ''methodResponse'' @ [24, 2, 32, 1, 40, 11, 50, 16] @ ascii_bytes ''.commons.Variant'' @
     [34, 47, 10, 12] @ ascii_bytes ''RestResponse'' @ [18, 31, 10, 6] @ ascii_bytes ''status'' @
     [24, 1, 32, 1, 40, 11, 50, 15] @ ascii_bytes ''.commons.Status2'' @ [233, 1, 10, 22] @
     ascii_bytes ''DynamicSubclassService'' @ [18, 72, 10, 5] @ ascii_bytes ''Setup'' @ [18, 30] @
     ascii_bytes ''.dynamic_subclass.SetupRequest'' @ [26, 31] @ ascii_bytes ''.dynamic_subclass.SetupResponse'' @
     [18, 69, 10, 4] @ ascii_bytes ''Call'' @ [18, 29] @ ascii_bytes ''.dynamic_subclass.CallRequest'' @ [26, 30] @
     ascii_bytes ''.dynamic_subclass.CallResponse'' @ [18, 62, 10, 4] @ ascii_bytes ''Rest'' @ [18, 22] @
     ascii_bytes ''.google.protobuf.Empty'' @ [26, 30] @ ascii_bytes ''.dynamic_subclass.RestResponseb'' @ [6] @
     ascii_bytes ''proto3''"

definition train_infer_serialized :: bytes where
  "train_infer_serialized =
    [10, 17] @ ascii_bytes ''train_infer.proto'' @ [18, 11] @ ascii_bytes ''train_infer'' @ [26, 13] @
     ascii_bytes ''commons.proto'' @ [26, 27] @ ascii_bytes ''google/protobuf/empty.proto'' @ [34, 50, 10, 12] @
     ascii_bytes ''InferRequest'' @ [18, 34, 10, 8] @ ascii_bytes ''argument'' @ [24, 1, 32, 1, 40, 11, 50, 16] @
     ascii_bytes ''.commons.Variant'' @ [34, 53, 10, 13] @ ascii_bytes ''InferResponse'' @ [18, 36, 10, 10] @
     ascii_bytes ''prediction'' @ [24, 1, 32, 1, 40, 11, 50, 16] @ ascii_bytes ''.commons.Variant2'' @
     [210, 1, 10, 23] @ ascii_bytes ''TrainInferStreamService'' @ [18, 55, 10, 5] @ ascii_bytes ''Setup'' @
     [18, 22] @ ascii_bytes ''.google.protobuf.Empty'' @ [26, 22] @ ascii_bytes ''.google.protobuf.Empty'' @
     [18, 62, 10, 5] @ ascii_bytes ''Infer'' @ [18, 25] @ ascii_bytes ''.train_infer.InferRequest'' @ [26, 26] @
     ascii_bytes ''.train_infer.InferResponse'' @ [18, 62, 10, 12] @ ascii_bytes ''Reinitialize'' @ [18, 22] @
     ascii_bytes ''.google.protobuf.Empty'' @ [26, 22] @ ascii_bytes ''.google.protobuf.Empty2'' @
     [204, 1, 10, 17] @ ascii_bytes ''TrainInferService'' @ [18, 55, 10, 5] @ ascii_bytes ''Setup'' @ [18, 22] @
     ascii_bytes ''.google.protobuf.Empty'' @ [26, 22] @ ascii_bytes ''.google.protobuf.Empty'' @ [18, 62, 10, 5] @
     ascii_bytes ''Infer'' @ [18, 25] @ ascii_bytes ''.train_infer.InferRequest'' @ [26, 26] @
     ascii_bytes ''.train_infer.InferResponse'' @ [18, 62, 10, 12] @ ascii_bytes ''Reinitialize'' @ [18, 22] @
     ascii_bytes ''.google.protobuf.Empty'' @ [26, 22] @ ascii_bytes ''.google.protobuf.Emptyb'' @ [6] @
     ascii_bytes ''proto3''"

text \<open>The offsets of the messages, the enumeration and the services in them.\<close>

record offsets =
  serialized_start :: nat
  serialized_end :: nat

abbreviation delimiting :: "nat \<Rightarrow> nat \<Rightarrow> offsets" where
  "delimiting a b \<equiv> \<lparr>serialized_start = a, serialized_end = b\<rparr>"

definition commons_globals :: "(string \<times> offsets) list" where
  "commons_globals =
     [(''VariantType'', delimiting 254 344), (''Variant'', delimiting 26 86), (''Argument'', delimiting 88 148),
      (''KwArgument'', delimiting 150 211), (''Status'', delimiting 213 252)]"

definition dynamic_subclass_globals :: "(string \<times> offsets) list" where
  "dynamic_subclass_globals =
     [(''SetupRequest'', delimiting 89 218), (''SetupResponse'', delimiting 220 268), (''CallRequest'', delimiting 270 395),
      (''CallResponse'', delimiting 397 486), (''RestResponse'', delimiting 488 535),
      (''DynamicSubclassService'', delimiting 538 771)]"

definition train_infer_globals :: "(string \<times> offsets) list" where
  "train_infer_globals =
     [(''InferRequest'', delimiting 78 128), (''InferResponse'', delimiting 130 183),
      (''TrainInferStreamService'', delimiting 186 396), (''TrainInferService'', delimiting 399 603)]"

definition slice :: "bytes \<Rightarrow> offsets \<Rightarrow> bytes" where
  "slice bs s = take (serialized_end s - serialized_start s) (drop (serialized_start s) bs)"

text \<open>What a file declares, by name.\<close>

definition declared :: "file_decl \<Rightarrow> (string \<times> bytes) list" where
  "declared f =
     map (\<lambda>m. (message_name m, encode_message m)) (file_messages f) @
     map (\<lambda>e. (enum_name e, encode_enum e)) (file_enums f) @
     map (\<lambda>s. (service_name s, encode_service s)) (file_services f)"

section \<open>The modules say what the declarations say\<close>

lemma varint_small: "n < 128 \<Longrightarrow> varint n = [of_nat n]"
  by (simp add: varint.simps)

lemma varint_medium: "128 \<le> n \<Longrightarrow> n < 16384 \<Longrightarrow> varint n = [of_nat (n mod 128 + 128), of_nat (n div 128)]"
  by (simp add: varint.simps [of n] varint_small)

lemmas encode_defs = encode_file_def encode_message_def encode_enum_def encode_rpc_def
  encode_service_def encode_field_def delimited_def integer_def ascii_bytes_def varint_small varint_medium

lemma commons_module: "commons_serialized = encode_file commons_proto"
  by (simp add: commons_serialized_def commons_proto_def encode_defs)

lemma dynamic_subclass_module: "dynamic_subclass_serialized = encode_file dynamic_subclass_proto"
  by (simp add: dynamic_subclass_serialized_def dynamic_subclass_proto_def encode_defs)

lemma train_infer_module: "train_infer_serialized = encode_file train_infer_proto"
  by (simp add: train_infer_serialized_def train_infer_proto_def encode_defs)

definition delimits :: "file_decl \<Rightarrow> bytes \<Rightarrow> (string \<times> offsets) list \<Rightarrow> bool" where
  "delimits f bs gs \<longleftrightarrow>
     set (map fst gs) = set (map fst (declared f)) \<and>
     list_all (\<lambda>(x, s). map_of (declared f) x = Some (slice bs s)) gs"

lemma commons_offsets: "delimits commons_proto commons_serialized commons_globals"
  unfolding delimits_def
  by (auto simp: declared_def commons_serialized_def commons_proto_def commons_globals_def encode_defs slice_def)

lemma dynamic_subclass_offsets:
  "delimits dynamic_subclass_proto dynamic_subclass_serialized dynamic_subclass_globals"
  unfolding delimits_def
  by (auto simp: declared_def dynamic_subclass_serialized_def dynamic_subclass_proto_def
      dynamic_subclass_globals_def encode_defs slice_def)

lemma train_infer_offsets: "delimits train_infer_proto train_infer_serialized train_infer_globals"
  unfolding delimits_def
  by (auto simp: declared_def train_infer_serialized_def train_infer_proto_def
      train_infer_globals_def encode_defs slice_def)

end
