(* ===== verification/Grpc_Services.thy ===== *)
theory Grpc_Services
  imports Proto_Schema
begin

text \<open>
  The generated modules \<^verbatim>\<open>grpc/generated/*_pb2_grpc.py\<close>: the stubs of a client, the classes a server
  derives from and registers, and the calls without a stub. What they hand to gRPC is data: a path, and
  the message types whose \<^verbatim>\<open>SerializeToString\<close> and \<^verbatim>\<open>FromString\<close> are used. A server is what has been
  handed to it; how gRPC routes a request is a parameter.
\<close>

section \<open>Version check\<close>

text \<open>
  Each module compares the version of the installed gRPC with the one it was generated with;
  \<open>first_version_is_lower\<close> belongs to gRPC and is missing from versions that are too old.
\<close>

definition version_not_supported :: "(string \<Rightarrow> string \<Rightarrow> bool) option \<Rightarrow> string \<Rightarrow> bool" where
  "version_not_supported first_version_is_lower grpc_version =
     (case first_version_is_lower of
        None \<Rightarrow> True
      | Some lower \<Rightarrow> lower grpc_version ''1.69.0'')"

text \<open>The text of the \<^verbatim>\<open>RuntimeError\<close> with which the import of a module ends, if it does.\<close>

definition unsupported_message :: "string \<Rightarrow> string \<Rightarrow> string" where
  "unsupported_message module grpc_version =
     ''The grpc package installed is at version '' @ grpc_version @ '','' @
     '' but the generated code in '' @ module @ '' depends on'' @ '' grpcio>=1.69.0.'' @
     '' Please upgrade your grpc module to grpcio>=1.69.0'' @
     '' or downgrade your generated code using grpcio-tools<='' @ grpc_version @ ''.''"

definition import_module ::
  "string \<Rightarrow> (string \<Rightarrow> string \<Rightarrow> bool) option \<Rightarrow> string \<Rightarrow> string option" where
  "import_module module first_version_is_lower grpc_version =
     (if version_not_supported first_version_is_lower grpc_version
      then Some (unsupported_message module grpc_version) else None)"

definition commons_import :: "(string \<Rightarrow> string \<Rightarrow> bool) option \<Rightarrow> string \<Rightarrow> string option" where
  "commons_import = import_module ''commons_pb2_grpc.py''"

definition dynamic_subclass_import :: "(string \<Rightarrow> string \<Rightarrow> bool) option \<Rightarrow> string \<Rightarrow> string option" where
  "dynamic_subclass_import = import_module ''dynamic_subclass_pb2_grpc.py''"

definition train_infer_import :: "(string \<Rightarrow> string \<Rightarrow> bool) option \<Rightarrow> string \<Rightarrow> string option" where
  "train_infer_import = import_module ''train_infer_pb2_grpc.py''"

lemma imported_together:
  "(commons_import lower v = None) = (dynamic_subclass_import lower v = None)"
  "(train_infer_import lower v = None) = (dynamic_subclass_import lower v = None)"
  by (simp_all add: commons_import_def dynamic_subclass_import_def train_infer_import_def
      import_module_def)

section \<open>Clients\<close>

record 'c multi_callable =
  on_channel :: 'c
  rpc_path :: string
  request_serializer :: string
  response_deserializer :: string

definition unary_unary :: "'c \<Rightarrow> string \<Rightarrow> string \<Rightarrow> string \<Rightarrow> 'c multi_callable" where
  "unary_unary ch path req resp =
     \<lparr>on_channel = ch, rpc_path = path, request_serializer = req, response_deserializer = resp\<rparr>"

definition dynamic_subclass_stub :: "'c \<Rightarrow> (string \<times> 'c multi_callable) list" where
  "dynamic_subclass_stub ch =
     [(''Setup'', unary_unary ch ''/dynamic_subclass.DynamicSubclassService/Setup''
         ''dynamic_subclass.SetupRequest'' ''dynamic_subclass.SetupResponse''),
      (''Call'', unary_unary ch ''/dynamic_subclass.DynamicSubclassService/Call''
         ''dynamic_subclass.CallRequest'' ''dynamic_subclass.CallResponse''),
      (''Rest'', unary_unary ch ''/dynamic_subclass.DynamicSubclassService/Rest''
         ''google.protobuf.Empty'' ''dynamic_subclass.RestResponse'')]"

definition train_infer_stream_stub :: "'c \<Rightarrow> (string \<times> 'c multi_callable) list" where
  "train_infer_stream_stub ch =
     [(''Setup'', unary_unary ch ''/train_infer.TrainInferStreamService/Setup''
         ''google.protobuf.Empty'' ''google.protobuf.Empty''),
      (''Infer'', unary_unary ch ''/train_infer.TrainInferStreamService/Infer''
         ''train_infer.InferRequest'' ''train_infer.InferResponse''),
      (''Reinitialize'', unary_unary ch ''/train_infer.TrainInferStreamService/Reinitialize''
         ''google.protobuf.Empty'' ''google.protobuf.Empty'')]"

definition train_infer_stub :: "'c \<Rightarrow> (string \<times> 'c multi_callable) list" where
  "train_infer_stub ch =
     [(''Setup'', unary_unary ch ''/train_infer.TrainInferService/Setup''
         ''google.protobuf.Empty'' ''google.protobuf.Empty''),
      (''Infer'', unary_unary ch ''/train_infer.TrainInferService/Infer''
         ''train_infer.InferRequest'' ''train_infer.InferResponse''),
      (''Reinitialize'', unary_unary ch ''/train_infer.TrainInferService/Reinitialize''
         ''google.protobuf.Empty'' ''google.protobuf.Empty'')]"

text \<open>A call without a stub: the channel is made from the target and the settings.\<close>

record 'o call_settings =
  cs_options :: 'o
  cs_channel_credentials :: 'o
  cs_call_credentials :: 'o
  cs_insecure :: bool
  cs_compression :: 'o
  cs_wait_for_ready :: "bool option"
  cs_timeout :: "int option"
  cs_metadata :: 'o

record ('q, 'o) invocation =
  inv_request :: 'q
  inv_target :: string
  inv_path :: string
  inv_serializer :: string
  inv_deserializer :: string
  inv_settings :: "'o call_settings"

definition experimental_unary_unary ::
  "string \<Rightarrow> string \<Rightarrow> string \<Rightarrow> 'q \<Rightarrow> string \<Rightarrow> 'o call_settings \<Rightarrow> ('q, 'o) invocation" where
  "experimental_unary_unary path req resp request target settings =
     \<lparr>inv_request = request, inv_target = target, inv_path = path, inv_serializer = req,
      inv_deserializer = resp, inv_settings = settings\<rparr>"

definition dynamic_subclass_experimental ::
  "(string \<times> ('q \<Rightarrow> string \<Rightarrow> 'o call_settings \<Rightarrow> ('q, 'o) invocation)) list" where
  "dynamic_subclass_experimental =
     [(''Setup'', experimental_unary_unary ''/dynamic_subclass.DynamicSubclassService/Setup''
         ''dynamic_subclass.SetupRequest'' ''dynamic_subclass.SetupResponse''),
      (''Call'', experimental_unary_unary ''/dynamic_subclass.DynamicSubclassService/Call''
         ''dynamic_subclass.CallRequest'' ''dynamic_subclass.CallResponse''),
      (''Rest'', experimental_unary_unary ''/dynamic_subclass.DynamicSubclassService/Rest''
         ''google.protobuf.Empty'' ''dynamic_subclass.RestResponse'')]"

definition train_infer_stream_experimental ::
  "(string \<times> ('q \<Rightarrow> string \<Rightarrow> 'o call_settings \<Rightarrow> ('q, 'o) invocation)) list" where
  "train_infer_stream_experimental =
     [(''Setup'', experimental_unary_unary ''/train_infer.TrainInferStreamService/Setup''
         ''google.protobuf.Empty'' ''google.protobuf.Empty''),
      (''Infer'', experimental_unary_unary ''/train_infer.TrainInferStreamService/Infer''
         ''train_infer.InferRequest'' ''train_infer.InferResponse''),
      (''Reinitialize'', experimental_unary_unary ''/train_infer.TrainInferStreamService/Reinitialize''
         ''google.protobuf.Empty'' ''google.protobuf.Empty'')]"

definition train_infer_experimental ::
  "(string \<times> ('q \<Rightarrow> string \<Rightarrow> 'o call_settings \<Rightarrow> ('q, 'o) invocation)) list" where
  "train_infer_experimental =
     [(''Setup'', experimental_unary_unary ''/train_infer.TrainInferService/Setup''
         ''google.protobuf.Empty'' ''google.protobuf.Empty''),
      (''Infer'', experimental_unary_unary ''/train_infer.TrainInferService/Infer''
         ''train_infer.InferRequest'' ''train_infer.InferResponse''),
      (''Reinitialize'', experimental_unary_unary ''/train_infer.TrainInferService/Reinitialize''
         ''google.protobuf.Empty'' ''google.protobuf.Empty'')]"

section \<open>Servers\<close>

record rpc_context =
  ctx_code :: "status_code option"
  ctx_details :: string

text \<open>A servicer by the names of its methods; a method answers, or raises, and may set the context.\<close>

type_synonym 'm behaviour = "'m \<Rightarrow> rpc_context \<Rightarrow> rpc_context \<times> 'm result"
type_synonym 'm servicer = "string \<Rightarrow> 'm behaviour"

text \<open>The methods of the generated classes, until a subclass defines them.\<close>

definition not_implemented :: "'m behaviour" where
  "not_implemented request ctx =
     (ctx\<lparr>ctx_code := Some SC_UNIMPLEMENTED, ctx_details := ''Method not implemented!''\<rparr>,
      Inl OtherException)"

definition dynamic_subclass_servicer :: "'m servicer" where
  "dynamic_subclass_servicer name = not_implemented"

definition train_infer_stream_servicer :: "'m servicer" where
  "train_infer_stream_servicer name = not_implemented"

definition train_infer_servicer :: "'m servicer" where
  "train_infer_servicer name = not_implemented"

record 'm rpc_handler =
  rpc_behaviour :: "'m behaviour"
  request_deserializer :: string
  response_serializer :: string

definition unary_unary_rpc_method_handler :: "'m behaviour \<Rightarrow> string \<Rightarrow> string \<Rightarrow> 'm rpc_handler" where
  "unary_unary_rpc_method_handler f req resp =
     \<lparr>rpc_behaviour = f, request_deserializer = req, response_serializer = resp\<rparr>"

text \<open>What was handed to the server, in order.\<close>

type_synonym 'm handlers = "(string \<times> 'm rpc_handler) list"

record 'm server =
  generic_handlers :: "(string \<times> 'm handlers) list"
  registered_methods :: "(string \<times> 'm handlers) list"

definition add_generic_rpc_handlers :: "string \<times> 'm handlers \<Rightarrow> 'm server \<Rightarrow> 'm server" where
  "add_generic_rpc_handlers h server = server\<lparr>generic_handlers := generic_handlers server @ [h]\<rparr>"

definition add_registered_method_handlers ::
  "string \<Rightarrow> 'm handlers \<Rightarrow> 'm server \<Rightarrow> 'm server" where
  "add_registered_method_handlers service hs server =
     server\<lparr>registered_methods := registered_methods server @ [(service, hs)]\<rparr>"

definition add_dynamic_subclass_servicer ::
  "'m servicer \<Rightarrow> 'm server \<Rightarrow> 'm server" where
  "add_dynamic_subclass_servicer servicer server =
     (let rpc_method_handlers =
        [(''Setup'', unary_unary_rpc_method_handler (servicer ''Setup'')
            ''dynamic_subclass.SetupRequest'' ''dynamic_subclass.SetupResponse''),
         (''Call'', unary_unary_rpc_method_handler (servicer ''Call'')
            ''dynamic_subclass.CallRequest'' ''dynamic_subclass.CallResponse''),
         (''Rest'', unary_unary_rpc_method_handler (servicer ''Rest'')
            ''google.protobuf.Empty'' ''dynamic_subclass.RestResponse'')]
      in add_registered_method_handlers ''dynamic_subclass.DynamicSubclassService'' rpc_method_handlers
           (add_generic_rpc_handlers (''dynamic_subclass.DynamicSubclassService'', rpc_method_handlers) server))"

definition add_train_infer_stream_servicer ::
  "'m servicer \<Rightarrow> 'm server \<Rightarrow> 'm server" where
  "add_train_infer_stream_servicer servicer server =
     (let rpc_method_handlers =
        [(''Setup'', unary_unary_rpc_method_handler (servicer ''Setup'')
            ''google.protobuf.Empty'' ''google.protobuf.Empty''),
         (''Infer'', unary_unary_rpc_method_handler (servicer ''Infer'')
            ''train_infer.InferRequest'' ''train_infer.InferResponse''),
         (''Reinitialize'', unary_unary_rpc_method_handler (servicer ''Reinitialize'')
            ''google.protobuf.Empty'' ''google.protobuf.Empty'')]
      in add_registered_method_handlers ''train_infer.TrainInferStreamService'' rpc_method_handlers
           (add_generic_rpc_handlers (''train_infer.TrainInferStreamService'', rpc_method_handlers) server))"

definition add_train_infer_servicer ::
  "'m servicer \<Rightarrow> 'm server \<Rightarrow> 'm server" where
  "add_train_infer_servicer servicer server =
     (let rpc_method_handlers =
        [(''Setup'', unary_unary_rpc_method_handler (servicer ''Setup'')
            ''google.protobuf.Empty'' ''google.protobuf.Empty''),
         (''Infer'', unary_unary_rpc_method_handler (servicer ''Infer'')
            ''train_infer.InferRequest'' ''train_infer.InferResponse''),
         (''Reinitialize'', unary_unary_rpc_method_handler (servicer ''Reinitialize'')
            ''google.protobuf.Empty'' ''google.protobuf.Empty'')]
      in add_registered_method_handlers ''train_infer.TrainInferService'' rpc_method_handlers
           (add_generic_rpc_handlers (''train_infer.TrainInferService'', rpc_method_handlers) server))"

text \<open>
  Routing is up to gRPC. It documents that a request has the path \<open>/service/method\<close> and that a
  registered handler takes precedence over a generic one; nothing is assumed of a service that was
  registered twice.
\<close>

definition full_path :: "string \<Rightarrow> string \<Rightarrow> string" where
  "full_path service name = ''/'' @ service @ ''/'' @ name"

type_synonym 'm routing = "'m server \<Rightarrow> string \<Rightarrow> 'm rpc_handler option"

definition registered_once :: "'m server \<Rightarrow> string \<Rightarrow> 'm handlers \<Rightarrow> bool" where
  "registered_once server service hs \<longleftrightarrow>
     filter (\<lambda>(s, _). s = service) (registered_methods server) = [(service, hs)]"

definition documented_routing :: "'m routing \<Rightarrow> bool" where
  "documented_routing route \<longleftrightarrow>
     (\<forall>server service hs name h. CHR ''/'' \<notin> set service \<longrightarrow> registered_once server service hs \<longrightarrow>
        map_of hs name = Some h \<longrightarrow> route server (full_path service name) = Some h)"

section \<open>Generated from the declarations\<close>

definition stub_of :: "file_decl \<Rightarrow> service_decl \<Rightarrow> 'c \<Rightarrow> (string \<times> 'c multi_callable) list" where
  "stub_of f s ch =
     map (\<lambda>r. (rpc_name r, unary_unary ch (full_path (file_package f @ ''.'' @ service_name s) (rpc_name r))
       (rpc_input r) (rpc_output r))) (service_rpcs s)"

definition handlers_of :: "service_decl \<Rightarrow> 'm servicer \<Rightarrow> 'm handlers" where
  "handlers_of s servicer =
     map (\<lambda>r. (rpc_name r, unary_unary_rpc_method_handler (servicer (rpc_name r)) (rpc_input r)
       (rpc_output r))) (service_rpcs s)"

definition add_servicer ::
  "file_decl \<Rightarrow> service_decl \<Rightarrow> 'm servicer \<Rightarrow> 'm server \<Rightarrow> 'm server" where
  "add_servicer f s servicer server =
     (let service = file_package f @ ''.'' @ service_name s
      in add_registered_method_handlers service (handlers_of s servicer)
           (add_generic_rpc_handlers (service, handlers_of s servicer) server))"

definition experimental_of ::
  "file_decl \<Rightarrow> service_decl \<Rightarrow>
   (string \<times> ('q \<Rightarrow> string \<Rightarrow> 'o call_settings \<Rightarrow> ('q, 'o) invocation)) list" where
  "experimental_of f s =
     map (\<lambda>r. (rpc_name r, experimental_unary_unary
       (full_path (file_package f @ ''.'' @ service_name s) (rpc_name r)) (rpc_input r) (rpc_output r)))
       (service_rpcs s)"

lemmas derived_defs = stub_of_def add_servicer_def handlers_of_def experimental_of_def full_path_def

text \<open>What a client asks of a server: its paths are served, with its message types.\<close>

definition serves_stub ::
  "'m routing \<Rightarrow> 'm server \<Rightarrow> 'm servicer \<Rightarrow> (string \<times> 'c multi_callable) list \<Rightarrow> bool" where
  "serves_stub route server servicer stub \<longleftrightarrow>
     (\<forall>(name, mc) \<in> set stub. \<exists>h. route server (rpc_path mc) = Some h \<and>
        rpc_behaviour h = servicer name \<and> request_deserializer h = request_serializer mc \<and>
        response_serializer h = response_deserializer mc)"

section \<open>The properties\<close>

abbreviation dynamic_subclass_service :: service_decl where
  "dynamic_subclass_service \<equiv> file_services dynamic_subclass_proto ! 0"

abbreviation train_infer_stream_service :: service_decl where
  "train_infer_stream_service \<equiv> file_services train_infer_proto ! 0"

abbreviation train_infer_service :: service_decl where
  "train_infer_service \<equiv> file_services train_infer_proto ! 1"

lemma dynamic_subclass_derived:
  "stub_of dynamic_subclass_proto dynamic_subclass_service = dynamic_subclass_stub"
  "add_servicer dynamic_subclass_proto dynamic_subclass_service = add_dynamic_subclass_servicer"
  "experimental_of dynamic_subclass_proto dynamic_subclass_service = dynamic_subclass_experimental"
  by (simp_all add: fun_eq_iff derived_defs dynamic_subclass_proto_def dynamic_subclass_stub_def
      add_dynamic_subclass_servicer_def dynamic_subclass_experimental_def Let_def)

lemma train_infer_stream_derived:
  "stub_of train_infer_proto train_infer_stream_service = train_infer_stream_stub"
  "add_servicer train_infer_proto train_infer_stream_service = add_train_infer_stream_servicer"
  "experimental_of train_infer_proto train_infer_stream_service = train_infer_stream_experimental"
  by (simp_all add: fun_eq_iff derived_defs train_infer_proto_def train_infer_stream_stub_def
      add_train_infer_stream_servicer_def train_infer_stream_experimental_def Let_def)

lemma train_infer_derived:
  "stub_of train_infer_proto train_infer_service = train_infer_stub"
  "add_servicer train_infer_proto train_infer_service = add_train_infer_servicer"
  "experimental_of train_infer_proto train_infer_service = train_infer_experimental"
  by (simp_all add: fun_eq_iff derived_defs train_infer_proto_def train_infer_stub_def
      add_train_infer_servicer_def train_infer_experimental_def Let_def)

text \<open>A method of a service that is registered once, by its handlers.\<close>

lemma routed:
  assumes "documented_routing route" and "registered_once server (file_package f @ ''.'' @ service_name s)
    (handlers_of s servicer)" and "CHR ''/'' \<notin> set (file_package f @ ''.'' @ service_name s)"
    and "distinct (map rpc_name (service_rpcs s))"
  shows "serves_stub route server servicer (stub_of f s ch)"
proof -
  have "map_of (handlers_of s servicer) (rpc_name r) =
      Some (unary_unary_rpc_method_handler (servicer (rpc_name r)) (rpc_input r) (rpc_output r))"
    if "r \<in> set (service_rpcs s)" for r
    using that assms(4) by (intro map_of_is_SomeI) (auto simp: handlers_of_def comp_def)
  with assms(1-3) have "route server (full_path (file_package f @ ''.'' @ service_name s) (rpc_name r)) =
      Some (unary_unary_rpc_method_handler (servicer (rpc_name r)) (rpc_input r) (rpc_output r))"
    if "r \<in> set (service_rpcs s)" for r
    using that unfolding documented_routing_def by blast
  then show ?thesis
    by (auto simp: serves_stub_def stub_of_def unary_unary_def unary_unary_rpc_method_handler_def)
qed

definition serves_all ::
  "'m routing \<Rightarrow> 'm servicer \<Rightarrow> 'm servicer \<Rightarrow> 'm servicer \<Rightarrow> 'c \<Rightarrow> 'm server \<Rightarrow> bool" where
  "serves_all route a b c ch server \<longleftrightarrow>
     serves_stub route server a (dynamic_subclass_stub ch) \<and>
     serves_stub route server b (train_infer_stream_stub ch) \<and>
     serves_stub route server c (train_infer_stub ch)"

text \<open>
  C30. A stub reaches the servicer. Once the three services are registered with a server that did not
  know them, a server that routes as gRPC documents routes the path of every method of a stub to the
  method of that name of the servicer registered for that service, which reads the request as the type
  the stub writes and writes the response as the type the stub reads.
\<close>

theorem stub_reaches_servicer:
  assumes "documented_routing route"
    and "{''dynamic_subclass.DynamicSubclassService'', ''train_infer.TrainInferStreamService'',
      ''train_infer.TrainInferService''} \<inter> fst ` set (registered_methods server0) = {}"
  shows "serves_all route a b c ch (add_train_infer_servicer c
    (add_train_infer_stream_servicer b (add_dynamic_subclass_servicer a server0)))"
proof -
  let ?server = "add_train_infer_servicer c
    (add_train_infer_stream_servicer b (add_dynamic_subclass_servicer a server0))"
  note registered = dynamic_subclass_derived(2) [symmetric] train_infer_stream_derived(2) [symmetric]
    train_infer_derived(2) [symmetric] add_servicer_def add_registered_method_handlers_def
    add_generic_rpc_handlers_def Let_def
  have new: "filter (\<lambda>(s, _). s = service) (registered_methods server0) = []"
    if "service \<in> {''dynamic_subclass.DynamicSubclassService'', ''train_infer.TrainInferStreamService'',
      ''train_infer.TrainInferService''}" for service
    using that assms(2) by (force simp: filter_empty_conv)
  have "registered_once ?server ''dynamic_subclass.DynamicSubclassService''
      (handlers_of dynamic_subclass_service a)"
    and "registered_once ?server ''train_infer.TrainInferStreamService''
      (handlers_of train_infer_stream_service b)"
    and "registered_once ?server ''train_infer.TrainInferService'' (handlers_of train_infer_service c)"
    by (simp_all add: registered_once_def registered new dynamic_subclass_proto_def train_infer_proto_def)
  then show ?thesis
    unfolding serves_all_def dynamic_subclass_derived(1) [symmetric]
      train_infer_stream_derived(1) [symmetric] train_infer_derived(1) [symmetric]
    by (intro conjI routed [OF assms(1)])
      (simp_all add: dynamic_subclass_proto_def train_infer_proto_def)
qed

text \<open>A routing as documented: by the two parts of the path.\<close>

definition route_by_path :: "'m routing" where
  "route_by_path server path =
     (let parts = tl path; service = takeWhile (\<lambda>ch. ch \<noteq> CHR ''/'') parts
      in case map_of (registered_methods server) service of
           None \<Rightarrow> None
         | Some hs \<Rightarrow> map_of hs (drop (Suc (length service)) parts))"

lemma map_of_once: "filter (\<lambda>(k, _). k = x) kvs = [(x, v)] \<Longrightarrow> map_of kvs x = Some v"
  by (induction kvs) (auto split: if_splits)

lemma route_by_path_documented: "documented_routing route_by_path"
proof -
  have "takeWhile (\<lambda>ch. ch \<noteq> CHR ''/'') (service @ CHR ''/'' # name) = service"
    if "CHR ''/'' \<notin> set service" for service name
    using that by (induction service) auto
  then show ?thesis
    by (simp add: documented_routing_def route_by_path_def registered_once_def full_path_def map_of_once)
qed

theorem stub_reaches_servicer_witness:
  "serves_all route_by_path dynamic_subclass_servicer train_infer_stream_servicer train_infer_servicer (0 :: nat)
     (add_train_infer_servicer train_infer_servicer
       (add_train_infer_stream_servicer train_infer_stream_servicer
         (add_dynamic_subclass_servicer dynamic_subclass_servicer
           \<lparr>generic_handlers = [], registered_methods = []\<rparr>)))"
  by (rule stub_reaches_servicer [OF route_by_path_documented]) simp

end
