(* ===== verification/Proto_Modules.thy ===== *)
theory Proto_Modules
  imports Proto_Schema
begin

text \<open>
  The import of the generated modules \<^verbatim>\<open>grpc/generated/*_pb2.py\<close>: each checks the version of the
  protobuf runtime, imports the modules it depends on, and adds its serialized declarations to the
  descriptor pool of the process; a module runs once. The pool belongs to protobuf: whether it takes a
  file, and whether it builds descriptors itself (then the offsets are its own) or in Python (then the
  module sets them), are parameters; so are the message classes built of the descriptors. An import that
  fails ends the program, so the state it leaves is not followed.
\<close>

section \<open>Running a module\<close>

record process =
  loaded :: "string list"
  pool :: "bytes list"
  recorded :: "(string \<times> (string \<times> offsets) list) list"

record protobuf =
  unsupported :: "nat \<times> nat \<times> nat \<Rightarrow> string \<Rightarrow> exn option"
  refused_file :: "bytes list \<Rightarrow> bytes \<Rightarrow> exn option"
  use_c_descriptors :: bool
  empty_serialized :: bytes

definition add_serialized_file :: "protobuf \<Rightarrow> bytes \<Rightarrow> process \<Rightarrow> process result" where
  "add_serialized_file L bs p =
     (case refused_file L (pool p) bs of
        Some e \<Rightarrow> Inl e
      | None \<Rightarrow> Inr (p\<lparr>pool := pool p @ [bs]\<rparr>))"

text \<open>
  The last block of a module: without the C descriptors, it clears the options protobuf would parse
  lazily and writes where each declaration starts and ends in the serialized bytes.
\<close>

definition record_offsets ::
  "protobuf \<Rightarrow> string \<Rightarrow> (string \<times> offsets) list \<Rightarrow> process \<Rightarrow> process" where
  "record_offsets L name globs p =
     (if use_c_descriptors L then p else p\<lparr>recorded := recorded p @ [(name, globs)]\<rparr>)"

definition run_once :: "string \<Rightarrow> (process \<Rightarrow> process result) \<Rightarrow> process \<Rightarrow> process result" where
  "run_once name body p =
     (if name \<in> set (loaded p) then Inr p
      else map_sum (\<lambda>e. e) (\<lambda>p'. p'\<lparr>loaded := loaded p' @ [name]\<rparr>) (body p))"

definition validate_runtime :: "protobuf \<Rightarrow> string \<Rightarrow> process \<Rightarrow> process result" where
  "validate_runtime L file p = (case unsupported L (5, 29, 0) file of Some e \<Rightarrow> Inl e | None \<Rightarrow> Inr p)"

definition empty_pb2 :: "protobuf \<Rightarrow> process \<Rightarrow> process result" where
  "empty_pb2 L = run_once ''empty_pb2'' (add_serialized_file L (empty_serialized L))"

definition commons_pb2 :: "protobuf \<Rightarrow> process \<Rightarrow> process result" where
  "commons_pb2 L = run_once ''commons_pb2'' (\<lambda>p.
     bind_result (validate_runtime L ''commons.proto'' p) (\<lambda>p.
     bind_result (add_serialized_file L commons_serialized p) (\<lambda>p.
     Inr (record_offsets L ''commons_pb2'' commons_globals p))))"

definition dynamic_subclass_pb2 :: "protobuf \<Rightarrow> process \<Rightarrow> process result" where
  "dynamic_subclass_pb2 L = run_once ''dynamic_subclass_pb2'' (\<lambda>p.
     bind_result (validate_runtime L ''dynamic_subclass.proto'' p) (\<lambda>p.
     bind_result (commons_pb2 L p) (\<lambda>p.
     bind_result (empty_pb2 L p) (\<lambda>p.
     bind_result (add_serialized_file L dynamic_subclass_serialized p) (\<lambda>p.
     Inr (record_offsets L ''dynamic_subclass_pb2'' dynamic_subclass_globals p))))))"

definition train_infer_pb2 :: "protobuf \<Rightarrow> process \<Rightarrow> process result" where
  "train_infer_pb2 L = run_once ''train_infer_pb2'' (\<lambda>p.
     bind_result (validate_runtime L ''train_infer.proto'' p) (\<lambda>p.
     bind_result (commons_pb2 L p) (\<lambda>p.
     bind_result (empty_pb2 L p) (\<lambda>p.
     bind_result (add_serialized_file L train_infer_serialized p) (\<lambda>p.
     Inr (record_offsets L ''train_infer_pb2'' train_infer_globals p))))))"

datatype generated = Commons_pb2 | Dynamic_subclass_pb2 | Train_infer_pb2 | Empty_pb2

fun import_generated :: "protobuf \<Rightarrow> generated \<Rightarrow> process \<Rightarrow> process result" where
  "import_generated L Commons_pb2 = commons_pb2 L"
| "import_generated L Dynamic_subclass_pb2 = dynamic_subclass_pb2 L"
| "import_generated L Train_infer_pb2 = train_infer_pb2 L"
| "import_generated L Empty_pb2 = empty_pb2 L"

fun import_all :: "protobuf \<Rightarrow> generated list \<Rightarrow> process \<Rightarrow> process result" where
  "import_all L [] p = Inr p"
| "import_all L (m # ms) p = bind_result (import_generated L m p) (import_all L ms)"

section \<open>Every import succeeds\<close>

text \<open>
  Protobuf documents that \<^verbatim>\<open>AddSerializedFile\<close> takes a file once the files it imports have been
  added; \<open>name_of\<close> and \<open>imports_of\<close> are the names it reads from the bytes.
\<close>

definition documented_pool ::
  "(bytes \<Rightarrow> string) \<Rightarrow> (bytes \<Rightarrow> string list) \<Rightarrow> protobuf \<Rightarrow> bool" where
  "documented_pool name_of imports_of L \<longleftrightarrow>
     (\<forall>(f, bs) \<in> {(commons_proto, commons_serialized), (dynamic_subclass_proto, dynamic_subclass_serialized),
          (train_infer_proto, train_infer_serialized)}.
        name_of bs = file_name f \<and> imports_of bs = file_imports f) \<and>
     name_of (empty_serialized L) = ''google/protobuf/empty.proto'' \<and> imports_of (empty_serialized L) = [] \<and>
     (\<forall>files bs. set (imports_of bs) \<subseteq> name_of ` set files \<longrightarrow> name_of bs \<notin> name_of ` set files \<longrightarrow>
        refused_file L files bs = None)"

definition file_of :: "protobuf \<Rightarrow> string \<Rightarrow> bytes" where
  "file_of L m =
     (if m = ''commons_pb2'' then commons_serialized
      else if m = ''dynamic_subclass_pb2'' then dynamic_subclass_serialized
      else if m = ''train_infer_pb2'' then train_infer_serialized
      else empty_serialized L)"

fun python_name :: "generated \<Rightarrow> string" where
  "python_name Commons_pb2 = ''commons_pb2''"
| "python_name Dynamic_subclass_pb2 = ''dynamic_subclass_pb2''"
| "python_name Train_infer_pb2 = ''train_infer_pb2''"
| "python_name Empty_pb2 = ''empty_pb2''"

definition process_ok :: "protobuf \<Rightarrow> process \<Rightarrow> bool" where
  "process_ok L p \<longleftrightarrow> distinct (loaded p) \<and> set (loaded p) \<subseteq> range python_name \<and>
     pool p = map (file_of L) (loaded p)"

text \<open>Running the module \<open>m\<close> succeeds: it and what it needs are loaded, and nothing else.\<close>

definition succeeds ::
  "protobuf \<Rightarrow> (process \<Rightarrow> process result) \<Rightarrow> generated \<Rightarrow> generated set \<Rightarrow> process \<Rightarrow> bool" where
  "succeeds L run m needs p \<longleftrightarrow>
     (\<exists>p'. run p = Inr p' \<and> process_ok L p' \<and> insert (python_name m) (set (loaded p)) \<subseteq> set (loaded p') \<and>
        set (loaded p') \<subseteq> set (loaded p) \<union> python_name ` insert m needs)"

lemma documented_names:
  assumes "documented_pool name_of imports_of L"
  shows "name_of (file_of L (python_name m)) = (case m of
      Commons_pb2 \<Rightarrow> ''commons.proto'' | Dynamic_subclass_pb2 \<Rightarrow> ''dynamic_subclass.proto''
    | Train_infer_pb2 \<Rightarrow> ''train_infer.proto'' | Empty_pb2 \<Rightarrow> ''google/protobuf/empty.proto'')"
    and "imports_of (file_of L (python_name m)) =
      (if m \<in> {Dynamic_subclass_pb2, Train_infer_pb2}
       then [''commons.proto'', ''google/protobuf/empty.proto''] else [])"
  using assms unfolding documented_pool_def
  by (cases m; simp add: file_of_def commons_proto_def dynamic_subclass_proto_def train_infer_proto_def)+

lemma file_accepted:
  assumes "documented_pool name_of imports_of L" and "process_ok L p" and "python_name m \<notin> set (loaded p)"
    and "m \<in> {Dynamic_subclass_pb2, Train_infer_pb2} \<Longrightarrow> {''commons_pb2'', ''empty_pb2''} \<subseteq> set (loaded p)"
  shows "add_serialized_file L (file_of L (python_name m)) p =
    Inr (p\<lparr>pool := pool p @ [file_of L (python_name m)]\<rparr>)"
proof -
  note names = documented_names [OF assms(1)]
  have pool: "set (pool p) = file_of L ` set (loaded p)" using assms(2) by (simp add: process_ok_def)
  have "n = m" if "name_of (file_of L (python_name n)) = name_of (file_of L (python_name m))" for n
    using that unfolding names by (cases n; cases m; simp)
  then have "name_of (file_of L x) \<noteq> name_of (file_of L (python_name m))" if "x \<in> set (loaded p)" for x
    using that assms(2,3) unfolding process_ok_def by (metis rangeE subsetD)
  then have new: "name_of (file_of L (python_name m)) \<notin> name_of ` set (pool p)"
    unfolding pool by force
  have "''commons.proto'' \<in> name_of ` set (pool p)" if "''commons_pb2'' \<in> set (loaded p)"
    using that names(1) [of Commons_pb2] by (force simp: pool)
  moreover have "''google/protobuf/empty.proto'' \<in> name_of ` set (pool p)" if "''empty_pb2'' \<in> set (loaded p)"
    using that names(1) [of Empty_pb2] by (force simp: pool)
  ultimately have "set (imports_of (file_of L (python_name m))) \<subseteq> name_of ` set (pool p)"
    using assms(4) by (auto simp: names(2))
  with new assms(1) have "refused_file L (pool p) (file_of L (python_name m)) = None"
    unfolding documented_pool_def by blast
  then show ?thesis by (simp add: add_serialized_file_def)
qed

lemma run_once_succeeds:
  assumes "documented_pool name_of imports_of L" and "process_ok L p"
    and "python_name m \<notin> set (loaded p) \<Longrightarrow> \<exists>p1. process_ok L p1 \<and>
      set (loaded p) \<subseteq> set (loaded p1) \<and> set (loaded p1) \<subseteq> set (loaded p) \<union> python_name ` needs \<and>
      python_name m \<notin> set (loaded p1) \<and>
      (m \<in> {Dynamic_subclass_pb2, Train_infer_pb2} \<longrightarrow> {''commons_pb2'', ''empty_pb2''} \<subseteq> set (loaded p1)) \<and>
      body p = bind_result (add_serialized_file L (file_of L (python_name m)) p1) (\<lambda>p2. Inr (after p2))"
    and "\<And>p2. loaded (after p2) = loaded p2 \<and> pool (after p2) = pool p2"
  shows "succeeds L (run_once (python_name m) body) m needs p"
proof (cases "python_name m \<in> set (loaded p)")
  case True
  with assms(2) show ?thesis by (auto simp: succeeds_def run_once_def)
next
  case False
  then obtain p1 where p1: "process_ok L p1" "set (loaded p) \<subseteq> set (loaded p1)"
    "set (loaded p1) \<subseteq> set (loaded p) \<union> python_name ` needs" "python_name m \<notin> set (loaded p1)"
    "m \<in> {Dynamic_subclass_pb2, Train_infer_pb2} \<longrightarrow> {''commons_pb2'', ''empty_pb2''} \<subseteq> set (loaded p1)"
    "body p = bind_result (add_serialized_file L (file_of L (python_name m)) p1) (\<lambda>p2. Inr (after p2))"
    using assms(3) by blast
  have "add_serialized_file L (file_of L (python_name m)) p1 =
      Inr (p1\<lparr>pool := pool p1 @ [file_of L (python_name m)]\<rparr>)"
    by (rule file_accepted [OF assms(1) p1(1,4)]) (use p1(5) in blast)
  with False p1(1-4,6) show ?thesis
    by (auto simp: succeeds_def run_once_def process_ok_def assms(4))
qed

lemma simple_succeeds:
  assumes "documented_pool name_of imports_of L" and "\<And>file. unsupported L (5, 29, 0) file = None"
    and "process_ok L p"
  shows "succeeds L (empty_pb2 L) Empty_pb2 {} p" and "succeeds L (commons_pb2 L) Commons_pb2 {} p"
proof -
  have "succeeds L (run_once (python_name Empty_pb2) (add_serialized_file L (empty_serialized L)))
      Empty_pb2 {} p"
    by (rule run_once_succeeds [OF assms(1,3), where after = "\<lambda>p. p"])
      (use assms(3) in \<open>auto simp: file_of_def bind_result_def intro!: exI [of _ p] split: sum.split\<close>)
  then show "succeeds L (empty_pb2 L) Empty_pb2 {} p" by (simp add: empty_pb2_def)
  show "succeeds L (commons_pb2 L) Commons_pb2 {} p"
    unfolding commons_pb2_def python_name.simps(1) [symmetric]
    by (rule run_once_succeeds [OF assms(1,3),
          where after = "record_offsets L ''commons_pb2'' commons_globals"])
      (use assms(2,3) in \<open>auto simp: file_of_def validate_runtime_def record_offsets_def intro!: exI [of _ p]\<close>)
qed

text \<open>The two imports that the other modules begin with.\<close>

lemma dependencies_loaded:
  assumes "documented_pool name_of imports_of L" and "\<And>file. unsupported L (5, 29, 0) file = None"
    and "process_ok L p"
  obtains p1 p2 where "commons_pb2 L p = Inr p1" and "empty_pb2 L p1 = Inr p2" and "process_ok L p2"
    and "set (loaded p) \<union> {''commons_pb2'', ''empty_pb2''} = set (loaded p2)"
proof -
  obtain p1 where p1: "commons_pb2 L p = Inr p1" "process_ok L p1"
    "set (loaded p1) = set (loaded p) \<union> {''commons_pb2''}"
    using simple_succeeds(2) [OF assms] by (auto simp: succeeds_def)
  obtain p2 where p2: "empty_pb2 L p1 = Inr p2" "process_ok L p2"
    "set (loaded p2) = set (loaded p1) \<union> {''empty_pb2''}"
    using simple_succeeds(1) [OF assms(1,2) p1(2)] by (auto simp: succeeds_def)
  from that [OF p1(1) p2(1,2)] p1(3) p2(3) show thesis by auto
qed

lemma dependent_succeeds:
  assumes "documented_pool name_of imports_of L" and "\<And>file. unsupported L (5, 29, 0) file = None"
    and "process_ok L p"
  shows "succeeds L (dynamic_subclass_pb2 L) Dynamic_subclass_pb2 {Commons_pb2, Empty_pb2} p"
    and "succeeds L (train_infer_pb2 L) Train_infer_pb2 {Commons_pb2, Empty_pb2} p"
proof -
  obtain p1 p2 where d: "commons_pb2 L p = Inr p1" "empty_pb2 L p1 = Inr p2" "process_ok L p2"
    "set (loaded p) \<union> {''commons_pb2'', ''empty_pb2''} = set (loaded p2)"
    by (rule dependencies_loaded [OF assms])
  have sub: "set (loaded p) \<subseteq> set (loaded p2)" "{''commons_pb2'', ''empty_pb2''} \<subseteq> set (loaded p2)"
    "set (loaded p2) \<subseteq> set (loaded p) \<union> python_name ` {Commons_pb2, Empty_pb2}"
    using d(4) by (blast, blast, simp flip: d(4))
  have new: "python_name m \<notin> set (loaded p2)"
    if "python_name m \<notin> set (loaded p)" "m \<in> {Dynamic_subclass_pb2, Train_infer_pb2}" for m
    using that by (auto simp flip: d(4))
  show "succeeds L (dynamic_subclass_pb2 L) Dynamic_subclass_pb2 {Commons_pb2, Empty_pb2} p"
    unfolding dynamic_subclass_pb2_def python_name.simps(2) [symmetric]
  proof (rule run_once_succeeds [OF assms(1,3),
        where after = "record_offsets L ''dynamic_subclass_pb2'' dynamic_subclass_globals"], goal_cases)
    case 1
    show ?case
      by (intro exI [of _ p2] conjI impI d(3) sub new 1)
        (simp_all add: file_of_def validate_runtime_def assms(2) d(1,2))
  qed (simp add: record_offsets_def)
  show "succeeds L (train_infer_pb2 L) Train_infer_pb2 {Commons_pb2, Empty_pb2} p"
    unfolding train_infer_pb2_def python_name.simps(3) [symmetric]
  proof (rule run_once_succeeds [OF assms(1,3),
        where after = "record_offsets L ''train_infer_pb2'' train_infer_globals"], goal_cases)
    case 1
    show ?case
      by (intro exI [of _ p2] conjI impI d(3) sub new 1)
        (simp_all add: file_of_def validate_runtime_def assms(2) d(1,2))
  qed (simp add: record_offsets_def)
qed

text \<open>
  Whatever modules a program imports, in whatever order, each import succeeds on a supported runtime
  and adds every declaration once, after those it imports.
\<close>

lemma imports_succeed:
  assumes "documented_pool name_of imports_of L" and "\<And>file. unsupported L (5, 29, 0) file = None"
    and "process_ok L p"
  shows "\<exists>p'. import_all L ms p = Inr p' \<and> process_ok L p' \<and>
    set (loaded p) \<union> python_name ` set ms \<subseteq> set (loaded p')"
  using assms(3)
proof (induction ms arbitrary: p)
  case (Cons m ms)
  have "\<exists>needs. succeeds L (import_generated L m) m needs p"
    using simple_succeeds [OF assms(1,2) Cons.prems] dependent_succeeds [OF assms(1,2) Cons.prems]
    by (cases m) auto
  then obtain p1 where p1: "import_generated L m p = Inr p1" "process_ok L p1"
    "insert (python_name m) (set (loaded p)) \<subseteq> set (loaded p1)" by (auto simp: succeeds_def)
  then show ?case using Cons.IH [OF p1(2)] by fastforce
qed simp

end
