(* ===== verification/Debug_Client.thy ===== *)
theory Debug_Client
  imports Call_Properties
begin

text \<open>
  The example coordinator \<^verbatim>\<open>debug/bird_game_concurrent_runner.py\<close>, and the mode it runs in: with
  \<^verbatim>\<open>report_failure=False\<close> the orchestrator is never told of a failure.
\<close>

section \<open>A cluster that does not report\<close>

definition silent :: "'r cluster \<Rightarrow> 'r cluster \<times> status \<Rightarrow> bool" where
  "silent c x \<longleftrightarrow>
     ws_client (fst x) = ws_client c \<and> \<not> report_failure (fst x) \<and>
     (\<forall>m fs. snd x \<noteq> Wait (On_send m) fs)"

lemma silentI [intro]:
  "ws_client c' = ws_client c \<Longrightarrow> \<not> report_failure c' \<Longrightarrow> (\<And>m fs. st \<noteq> Wait (On_send m) fs) \<Longrightarrow>
   silent c (c', st)"
  by (simp add: silent_def)

lemma silent_remove [simp]: "\<not> report_failure c \<Longrightarrow> silent c (remove_begin a fs c)"
  by (auto simp: remove_begin_def Let_def modify_def)

lemma silent_add [simp]: "\<not> report_failure c \<Longrightarrow> silent c (add_begin a fs c)"
  by (auto simp: add_begin_def split: option.split)

lemma silent_report [simp]: "\<not> report_failure c \<Longrightarrow> report_begin K a code reason fs c = (c, Run Ok fs)"
  by (simp add: report_begin_def)

lemma init_status_not_send: "init_status a fs nxt \<noteq> Wait (On_send m) fs'"
  by (cases nxt) simp_all

lemma silent_init [simp]: "\<not> report_failure c \<Longrightarrow> silent c (add_init conn a fs c)"
  by (auto simp: add_init_def Let_def modify_def init_status_not_send split: prod.split)

lemma silent_failed [simp]: "\<not> report_failure c \<Longrightarrow> silent c (add_failed K a err fs c)"
  by (auto simp: add_failed_def)

lemma silent_rebuild [simp]: "\<not> report_failure c \<Longrightarrow> silent c (reconnect_rebuild K a fs c)"
  using silent_add [of "fst (allocate r c)" b fs for r b]
  by (auto simp: reconnect_rebuild_def Let_def allocate_def silent_def split: sum.split)

lemma silent_before: "ws_client c' = ws_client c \<Longrightarrow> silent c' x \<Longrightarrow> silent c x"
  by (simp add: silent_def)

lemma silent_micro: "\<not> report_failure c \<Longrightarrow> silent c (micro K conn out f fs c)"
  by (cases "(K, conn, out, f, fs, c)" rule: micro.cases)
    (auto simp: add_unpend_def add_enlist_def remove_end_def Let_def
      intro!: silent_before [OF _ silent_failed])

lemma silent_drive: "silent c x \<Longrightarrow> silent c (drive K conn x)"
proof (induction K conn x rule: drive.induct)
  case (1 K conn c' out f fs)
  then have "silent c (micro K conn out f fs c')"
    using silent_micro [of c' K conn out f fs] by (auto simp: silent_def)
  with 1 show ?case by simp
qed (simp_all add: silent_def)

lemma silent_start: "\<not> report_failure c \<Longrightarrow> silent c (start K conn cl c)"
  by (cases cl) (auto simp: start_def begin_call_def intro!: silent_drive)

lemma silent_resume:
  assumes "\<not> report_failure c" and "\<And>m. w \<noteq> On_send m"
  shows "silent c (resume K conn aw (Wait w fs) c)"
proof -
  have "silent c (deliver K conn aw w fs c)"
    using assms by (cases w) (auto simp: deliver_def modify_def init_status_not_send
        split: awaited.split prod.split)
  then show ?thesis by (simp add: resume_def silent_drive)
qed

text \<open>No step plans or ends a report.\<close>

definition muted :: "'r system \<Rightarrow> bool" where
  "muted s \<longleftrightarrow> \<not> report_failure (cluster_of s) \<and>
     (\<forall>m fs. Task (Wait (On_send m) fs) \<notin> set (tasks s))"

lemma muted_task:
  "muted s \<Longrightarrow> silent (cluster_of s) (c', st) \<Longrightarrow>
   muted (s\<lparr>cluster_of := c', tasks := (tasks s)[i := Task st]\<rparr>) \<and> ws_client c' = ws_client (cluster_of s)"
  using set_update_subset_insert [of "tasks s" i "Task st"] by (fastforce simp: muted_def silent_def)

lemma plan_new_keeps:
  "ws_client (fst (plan_new K c e)) = ws_client c \<and> report_failure (fst (plan_new K c e)) = report_failure c"
  by (simp add: plan_new_def allocate_def split: sum.split)

lemma plan_entry_keeps:
  "ws_client (fst (plan_entry K c u)) = ws_client c \<and>
   report_failure (fst (plan_entry K c u)) = report_failure c"
  by (auto simp: plan_entry_def plan_new_keeps modify_def split: sum.split option.split)

lemma plan_entries_keeps:
  "ws_client (fst (plan_entries K c us)) = ws_client c \<and>
   report_failure (fst (plan_entries K c us)) = report_failure c"
proof (induction us arbitrary: c)
  case (Cons u us)
  obtain c' r where plan: "plan_entry K c u = (c', r)" by fastforce
  with plan_entry_keeps [of K c u] Cons [of c'] show ?case
    by (cases "plan_entries K c' us") (auto split: sum.split)
qed simp

lemma update_plan_keeps:
  "update_plan K c data = (c', r) \<Longrightarrow> ws_client c' = ws_client c \<and> report_failure c' = report_failure c"
  by (auto simp: update_plan_def split: sum.splits) (metis fst_conv plan_entries_keeps)+

lemma muted_spawn:
  "muted s \<Longrightarrow> ws_client c' = ws_client (cluster_of s) \<Longrightarrow> report_failure c' = report_failure (cluster_of s) \<Longrightarrow>
   muted (fst (spawn calls (s\<lparr>cluster_of := c'\<rparr>)))"
  by (auto simp: muted_def spawn_def)

text \<open>Every step stays silent, and only the outside touches the connection and its queue.\<close>

lemma muted_step:
  assumes "system_step K s t" and m: "muted s"
  shows "muted t \<and> (ws_client (cluster_of t) = ws_client (cluster_of s) \<or>
    (\<exists>w. t = s\<lparr>cluster_of := (cluster_of s)\<lparr>ws_client := w\<rparr>\<rparr>))"
  using assms(1)
proof cases
  case (begin_task i cl conn c' st)
  with muted_task [OF m, of c' st i] silent_start [of "cluster_of s" K conn cl] m show ?thesis
    by (auto simp: muted_def)
next
  case (wake_task i w fs aw conn c' st)
  then have "w \<noteq> On_send x" for x using m nth_mem [of i "tasks s"] by (auto simp: muted_def)
  with wake_task muted_task [OF m, of c' st i] silent_resume [of "cluster_of s" w K conn aw fs] m
  show ?thesis by (auto simp: muted_def)
next
  case (event_planned prev data c' calls s' ids event_type first)
  with update_plan_keeps [of K "cluster_of s" data c' "Inr calls"] muted_spawn [OF m, of c' calls]
  show ?thesis by (auto simp: muted_def spawn_def)
next
  case (event_raised prev data c' e event_type first)
  with update_plan_keeps [of K "cluster_of s" data c' "Inl e"] m show ?thesis by (auto simp: muted_def)
next
  case (init_gathered data ids calls s' ids')
  with m show ?thesis by (auto simp: muted_def spawn_def)
next
  case (create_task cl a code reason)
  with m show ?thesis by (auto simp: muted_def spawn_def)
qed (use m in \<open>auto simp: muted_def modify_def\<close>)

lemma muted_start: "muted (initial_system (new_cluster blank crunch host prt False))"
  by (simp add: muted_def initial_system_def new_cluster_def)

lemma muted_reachable: "reachable K s t \<Longrightarrow> muted s \<Longrightarrow> muted t"
  by (induction rule: rtranclp_induct) (auto dest: muted_step)

text \<open>
  C19. With \<^verbatim>\<open>report_failure=False\<close> no failure is ever reported: in no run is a message handed to the
  socket or put into the queue, whatever fails and whatever reports the calls ask for, and a report
  that is asked for ends at once and changes nothing, so that the model stays in service.
\<close>

theorem muted_never_reports:
  assumes "reachable K (initial_system (new_cluster blank crunch host prt False)) s"
    and "system_step K s t"
  shows "(ws_client (cluster_of t) = ws_client (cluster_of s) \<or>
      (\<exists>w. t = s\<lparr>cluster_of := (cluster_of s)\<lparr>ws_client := w\<rparr>\<rparr>)) \<and>
    (\<forall>m fs. Task (Wait (On_send m) fs) \<notin> set (tasks t)) \<and>
    start K conn (Report a code reason) (cluster_of t) = (cluster_of t, Done Ok)"
proof -
  have s: "muted s" by (rule muted_reachable [OF assms(1) muted_start])
  have "start K conn (Report a code reason) (cluster_of t) = (cluster_of t, Done Ok)"
    using muted_step [OF assms(2) s] by (simp add: start_def begin_call_def muted_def)
  with muted_step [OF assms(2) s] show ?thesis by (simp add: muted_def)
qed

text \<open>A model that does not implement the interface: nothing is sent, and its coroutine ends.\<close>

definition muted_cluster :: "dyn_runner cluster" where
  "muted_cluster = new_cluster (\<lambda>_. blank_runner) (lit ''bird-game'') (lit ''localhost'') 9091 False"

definition refusing_schedule :: "action list" where
  "refusing_schedule =
     [Event (jstr ''update'') (JArr [update_of ''m1'' ''RUNNING'']), Begin 0 Conn_ok,
      Wake 0 Conn_ok Got_unit, Wake 0 Conn_ok Got_unit]"

lemma refusing_run:
  "\<exists>s t. schedule sample_environment (initial_system muted_cluster) refusing_schedule = Some s \<and>
     act sample_environment s (Wake 0 Conn_ok (Got_setup False (Some BAD_IMPLEMENTATION))) = Some t \<and>
     message_queue (ws_client (cluster_of s)) = [] \<and>
     ws_client (cluster_of t) = ws_client (cluster_of s) \<and> tasks t = [Task (Done Ok)]"
  by (simp add: refusing_schedule_def muted_cluster_def run_defs sample_defs add_failed_def
      report_begin_def new_websocket_client_def)

theorem muted_never_reports_witness:
  "\<exists>s t. system_step sample_environment s t \<and> tasks t = [Task (Done Ok)] \<and>
     start sample_environment Conn_ok (Report 0 (lit ''MULTIPLE_FAILED'') JNull) (cluster_of t) =
       (cluster_of t, Done Ok)"
proof -
  obtain s t where run: "schedule sample_environment (initial_system muted_cluster) refusing_schedule = Some s"
    and step: "act sample_environment s (Wake 0 Conn_ok (Got_setup False (Some BAD_IMPLEMENTATION))) = Some t"
    and t: "tasks t = [Task (Done Ok)]"
    using refusing_run by blast
  note r = schedule_reachable [OF run, unfolded muted_cluster_def]
  from muted_never_reports [OF r act_step [OF step]] act_step [OF step] t show ?thesis by blast
qed

section \<open>The example\<close>

text \<open>
  \<^verbatim>\<open>main\<close>: the credentials, the runner, and what it asks of the models every thirty seconds. The
  doubles of the payload are given by their bits.
\<close>

definition example_credentials :: "platform \<Rightarrow> secure_credentials result" where
  "example_credentials S =
     from_directory S [''..'', ''..'', ''crunch-certificate'', ''coordinator-3'', ''issued-certificate'']"

definition example_runner ::
  "(nat \<Rightarrow> 'r) \<Rightarrow> secure_credentials \<Rightarrow> (dyn_concurrent_runner \<times> 'r cluster) result" where
  "example_runner blank creds =
     new_dyn_concurrent_runner blank 10 (lit ''bird-game'') (lit ''localhost'') 9091
       (lit ''birdgame.trackers.trackerbase.TrackerBase'') None None 3 3 (Some creds) None False"

definition example_payload :: json where
  "example_payload =
     JObj [(lit ''falcon_location'', JFloat 4626654819585411366),
           (lit ''time'', JFloat 4642330280490185985),
           (lit ''dove_location'', JFloat 4626087681873736642),
           (lit ''falcon_id'', JInt 1)]"

type_synonym asked_call = "pystr \<times> arguments"

definition example_tick :: "('f, 't) libraries \<Rightarrow> asked_call result" where
  "example_tick L =
     bind_result (encode_data L VT_JSON (Plain example_payload)) (\<lambda>payload_encoded.
       Inr (lit ''tick'', call_arguments None
         (Some (Some [\<lparr>position = 1, arg_data = \<lparr>v_type = VT_JSON, v_value = payload_encoded\<rparr>\<rparr>])) None))"

definition example_predict :: asked_call where
  "example_predict = (lit ''predict'', call_arguments None None None)"

text \<open>
  The loop, by what it awaits; an exception of a call ends it, and with it the example, which
  \<^verbatim>\<open>gather\<close>s the loop and \<^verbatim>\<open>sync\<close>.
\<close>

datatype example_pc = Awaiting_init | Awaiting_call asked_call | Awaiting_sleep nat | Example_failed exn

definition next_round :: "('f, 't) libraries \<Rightarrow> example_pc" where
  "next_round L = (case example_tick L of Inl e \<Rightarrow> Example_failed e | Inr c \<Rightarrow> Awaiting_call c)"

fun example_step :: "('f, 't) libraries \<Rightarrow> example_pc \<Rightarrow> exn option \<Rightarrow> example_pc" where
  "example_step L (Example_failed e) outcome = Example_failed e"
| "example_step L pc (Some e) = Example_failed e"
| "example_step L Awaiting_init None = next_round L"
| "example_step L (Awaiting_call c) None =
     (if fst c = lit ''tick'' then Awaiting_call example_predict else Awaiting_sleep 30)"
| "example_step L (Awaiting_sleep n) None = next_round L"

definition example_run :: "('f, 't) libraries \<Rightarrow> nat \<Rightarrow> example_pc" where
  "example_run L n = foldl (example_step L) Awaiting_init (replicate n None)"

lemma example_run_Suc: "example_run L (Suc n) = example_step L (example_run L n) None"
proof -
  have "replicate (Suc n) (None :: exn option) = replicate n None @ [None]"
    by (simp add: replicate_append_same)
  then show ?thesis by (simp add: example_run_def del: replicate.simps)
qed

lemma example_run_rounds:
  assumes tick: "example_tick L = Inr (lit ''tick'', args)"
  shows "example_run L (3 * k + 1) = Awaiting_call (lit ''tick'', args)"
    and "example_run L (3 * k + 2) = Awaiting_call example_predict"
    and "example_run L (3 * k + 3) = Awaiting_sleep 30"
proof -
  have first: "example_run L (3 * k + 1) = Awaiting_call (lit ''tick'', args)" for k
  proof (induction k)
    case 0
    then show ?case by (simp add: example_run_Suc) (simp add: example_run_def next_round_def tick)
  next
    case (Suc k)
    have "3 * Suc k + 1 = Suc (Suc (Suc (3 * k + 1)))" by simp
    with Suc show ?case
      by (simp only: example_run_Suc) (simp add: example_predict_def next_round_def tick)
  qed
  have "3 * k + 2 = Suc (3 * k + 1)" "3 * k + 3 = Suc (Suc (3 * k + 1))" by simp_all
  with first [of k] show "example_run L (3 * k + 1) = Awaiting_call (lit ''tick'', args)"
    and "example_run L (3 * k + 2) = Awaiting_call example_predict"
    and "example_run L (3 * k + 3) = Awaiting_sleep 30"
    by (simp_all only: example_run_Suc) (simp_all add: example_predict_def)
qed

text \<open>
  The example asks every model what it means to ask: as long as no call raises, it goes through
  rounds of a \<^verbatim>\<open>tick\<close>, a \<^verbatim>\<open>predict\<close> and a pause of thirty seconds for ever, and for every runner
  with a stub the \<^verbatim>\<open>tick\<close> request carries one positional argument that decodes to the payload, if
  the doubles of the payload are printed so that they read back.
\<close>

theorem example_rounds:
  assumes "storable (float_repr L) (parse_float L) example_payload" and "grpc_stub r \<noteq> None"
  shows "\<exists>bs args. decode_data L bs VT_JSON = Inr (Plain example_payload) \<and>
    call_begin r (lit ''tick'') args = Inr
      \<lparr>method_name = lit ''tick'',
       method_arguments = [\<lparr>position = 1, arg_data = \<lparr>v_type = VT_JSON, v_value = bs\<rparr>\<rparr>],
       method_kw_arguments = []\<rparr> \<and>
    example_run L (3 * k + 1) = Awaiting_call (lit ''tick'', args) \<and>
    example_run L (3 * k + 2) = Awaiting_call example_predict \<and>
    example_run L (3 * k + 3) = Awaiting_sleep 30"
proof -
  obtain bs where bs: "encode_data L VT_JSON (Plain example_payload) = Inr bs"
    "decode_data L bs VT_JSON = Inr (Plain example_payload)"
    using encode_json [OF assms(1)] by blast
  define args where "args = call_arguments None
    (Some (Some [\<lparr>position = 1, arg_data = \<lparr>v_type = VT_JSON, v_value = bs\<rparr>\<rparr>])) None"
  have tick: "example_tick L = Inr (lit ''tick'', args)"
    by (simp add: example_tick_def bs(1) args_def del: encode_data.simps)
  moreover have "call_begin r (lit ''tick'') args = Inr
      \<lparr>method_name = lit ''tick'',
       method_arguments = [\<lparr>position = 1, arg_data = \<lparr>v_type = VT_JSON, v_value = bs\<rparr>\<rparr>],
       method_kw_arguments = []\<rparr>"
    using assms(2) by (simp add: args_def call_arguments_def call_begin_def)
  ultimately show ?thesis using example_run_rounds [OF tick] bs(2) by blast
qed

text \<open>The digits of the three doubles as Python prints them.\<close>

definition example_libraries :: "(unit, unit) libraries" where
  "example_libraries = sample_libraries
     \<lparr>float_repr := (\<lambda>w. if w = 4626654819585411366 then lit ''21.179864629354732''
        else if w = 4642330280490185985 then lit ''230.96231205799998'' else lit ''19.164986723324326''),
      parse_float := (\<lambda>s. if s = lit ''21.179864629354732'' then 4626654819585411366
        else if s = lit ''230.96231205799998'' then 4642330280490185985 else 4626087681873736642)\<rparr>"

text \<open>The payload is storable with these.\<close>

lemma float_lexeme_parts:
  "whole_part w \<Longrightarrow> ds \<noteq> [] \<Longrightarrow> list_all is_digit ds \<Longrightarrow> float_lexeme (w @ 46 # ds)"
  unfolding float_lexeme_def
  by (rule exI [of _ "[]"], rule exI [of _ w], rule exI [of _ "46 # ds"], rule exI [of _ "[]"])
     (auto simp: fraction_part_def exponent_part_def)

lemma example_lexemes:
  "float_lexeme (lit ''21.179864629354732'')" "float_lexeme (lit ''230.96231205799998'')"
  "float_lexeme (lit ''19.164986723324326'')"
  using float_lexeme_parts [of "lit ''21''" "lit ''179864629354732''"]
    float_lexeme_parts [of "lit ''230''" "lit ''96231205799998''"]
    float_lexeme_parts [of "lit ''19''" "lit ''164986723324326''"]
  by (simp_all add: whole_part_def lit_def is_digit_def)

lemma example_payload_storable:
  "storable (float_repr example_libraries) (parse_float example_libraries) example_payload"
proof -
  have bits: "finite_bits 4626654819585411366" "finite_bits 4642330280490185985"
    "finite_bits 4626087681873736642"
    by (simp_all add: finite_bits_def)
  have keys: "unpaired (lit ''falcon_location'')" "unpaired (lit ''time'')"
    "unpaired (lit ''dove_location'')" "unpaired (lit ''falcon_id'')"
    by (simp_all add: lit_def high_surrogate_def)
  have apart: "lit ''230.96231205799998'' \<noteq> lit ''21.179864629354732''"
    "lit ''19.164986723324326'' \<noteq> lit ''21.179864629354732''"
    "lit ''19.164986723324326'' \<noteq> lit ''230.96231205799998''"
    "distinct [lit ''falcon_location'', lit ''time'', lit ''dove_location'', lit ''falcon_id'']"
    by (simp_all add: lit_def)
  show ?thesis
    using bits keys apart example_lexemes digits.simps [of "Suc 0"]
    by (simp add: example_payload_def example_libraries_def)
qed

theorem example_rounds_witness:
  "\<exists>bs args. decode_data example_libraries bs VT_JSON = Inr (Plain example_payload) \<and>
     call_begin (blank_runner\<lparr>grpc_stub := Some 1\<rparr>) (lit ''tick'') args = Inr
      \<lparr>method_name = lit ''tick'',
       method_arguments = [\<lparr>position = 1, arg_data = \<lparr>v_type = VT_JSON, v_value = bs\<rparr>\<rparr>],
       method_kw_arguments = []\<rparr> \<and>
     example_run example_libraries 7 = Awaiting_call (lit ''tick'', args)"
proof -
  from example_rounds [OF example_payload_storable, of "blank_runner\<lparr>grpc_stub := Some 1\<rparr>" 2] show ?thesis by auto
qed

end
