(* ===== verification/Provenance.thy ===== *)
theory Provenance
  imports Orchestrator_View
begin

text \<open>
  Where the models come from. A schedule is the history of a run; the entries of its events that say
  \<^verbatim>\<open>RUNNING\<close> are what the orchestrator has told the client to run. Whatever interleaves, fails or is
  cancelled, every runner object the cluster has ever made stands for one of these entries, with its
  deployment, address, name and infos.
\<close>

section \<open>What was told\<close>

fun read_running :: "json \<Rightarrow> entry list" where
  "read_running x =
     (case read_entry x of
        Inl err \<Rightarrow> []
      | Inr e \<Rightarrow> (if e_state e = jstr ''RUNNING'' then [e] else []))"

definition running_entries :: "json \<Rightarrow> entry list" where
  "running_entries data =
     (case iterate data of Inl err \<Rightarrow> [] | Inr xs \<Rightarrow> concat (map read_running xs))"

fun said :: "action \<Rightarrow> entry list" where
  "said (Event event_type data) =
     (if dispatch_event event_type = None then [] else running_entries data)"
| "said _ = []"

definition told_to_run :: "action list \<Rightarrow> entry list" where
  "told_to_run acts = concat (map said acts)"

lemma told_to_run_append [simp]: "told_to_run (xs @ ys) = told_to_run xs @ told_to_run ys"
  by (simp add: told_to_run_def)

section \<open>Objects inherit what they stand for\<close>

definition profile :: "'a runner_scheme \<Rightarrow> json \<times> service" where
  "profile r = (model_id r, service_of r)"

definition entry_profile :: "entry \<Rightarrow> json \<times> service" where
  "entry_profile e = (e_model_id e, service_of_entry e)"

definition attested :: "entry set \<Rightarrow> 'a runner_scheme cluster \<Rightarrow> bool" where
  "attested E c \<longleftrightarrow> (\<forall>a < next_address c. profile (heap c a) \<in> entry_profile ` E)"

definition inherits :: "'a runner_scheme cluster \<Rightarrow> 'a runner_scheme cluster \<Rightarrow> bool" where
  "inherits c c' \<longleftrightarrow> next_address c \<le> next_address c' \<and>
     (\<forall>a < next_address c'. \<exists>b < next_address c. profile (heap c' a) = profile (heap c b))"

lemma inherits_refl [simp]: "inherits c c"
  by (auto simp: inherits_def)

lemma inherits_trans: "inherits c c1 \<Longrightarrow> inherits c1 c2 \<Longrightarrow> inherits c c2"
  by (fastforce simp: inherits_def)

lemma inherits_attested: "inherits c c' \<Longrightarrow> attested E c \<Longrightarrow> attested E c'"
  by (fastforce simp: inherits_def attested_def)

lemma attested_mono: "attested E c \<Longrightarrow> E \<subseteq> E' \<Longrightarrow> attested E' c"
  by (auto simp: attested_def)

lemma inherits_modify: "profile (f (heap c a)) = profile (heap c a) \<Longrightarrow> inherits c (modify a f c)"
  by (auto simp: inherits_def)

lemma inherits_same: "heap c' = heap c \<Longrightarrow> next_address c' = next_address c \<Longrightarrow> inherits c c'"
  by (auto simp: inherits_def)

lemma profile_kept:
  "identity r = identity r' \<Longrightarrow> configuration r = configuration r' \<Longrightarrow> profile r = profile r'"
  by (simp add: profile_def service_of_def kept_defs)

context runner_operation
begin

lemma modify_inherits: "inherits c (modify a f c)"
  by (rule inherits_modify, rule profile_kept) (simp_all add: identity_kept configuration_kept)

end

text \<open>
  A coroutine that is to rebuild an object refers to one that exists; a good segment keeps this, and
  the objects it makes inherit from those that were there.
\<close>

definition rebuilt :: "frame list \<Rightarrow> nat set" where
  "rebuilt fs = {a. After_reconnect_remove a \<in> set fs}"

lemma rebuilt_simps [simp]:
  "rebuilt [] = {}"
  "rebuilt (After_reconnect_remove a # fs) = insert a (rebuilt fs)"
  "rebuilt (After_close a # fs) = rebuilt fs"
  "rebuilt (After_replace a # fs) = rebuilt fs"
  "rebuilt (After_init a # fs) = rebuilt fs"
  "rebuilt (After_send a # fs) = rebuilt fs"
  "rebuilt (Reconnect_guard a # fs) = rebuilt fs"
  by (auto simp: rebuilt_def)

fun rebuilds :: "status \<Rightarrow> nat set" where
  "rebuilds (Run out fs) = rebuilt fs"
| "rebuilds (Wait w fs) = rebuilt fs"
| "rebuilds (Done out) = {}"

definition faithful :: "'a runner_scheme cluster \<Rightarrow> 'a runner_scheme cluster \<times> status \<Rightarrow> bool" where
  "faithful c x \<longleftrightarrow> inherits c (fst x) \<and> rebuilds (snd x) \<subseteq> {..<next_address (fst x)}"

lemma faithfulI:
  "inherits c c' \<Longrightarrow> rebuilds st \<subseteq> {..<next_address c} \<Longrightarrow> faithful c (c', st)"
  by (fastforce simp: faithful_def inherits_def)

lemma faithful_after: "inherits c c1 \<Longrightarrow> faithful c1 x \<Longrightarrow> faithful c x"
  by (auto simp: faithful_def intro: inherits_trans)

lemma remove_begin_faithful:
  "rebuilt fs \<subseteq> {..<next_address c} \<Longrightarrow> faithful c (remove_begin a fs c)"
  using close_op.modify_inherits [of c a] by (auto simp: remove_begin_def Let_def intro!: faithfulI)

lemma add_begin_faithful:
  "rebuilt fs \<subseteq> {..<next_address c} \<Longrightarrow> faithful c (add_begin a fs c)"
  by (auto simp: add_begin_def intro!: faithfulI remove_begin_faithful split: option.split)

lemma report_begin_faithful:
  "rebuilt fs \<subseteq> {..<next_address c} \<Longrightarrow> faithful c (report_begin K a code reason fs c)"
  by (auto simp: report_begin_def Let_def intro!: faithfulI inherits_same split: prod.split)

lemma add_failed_faithful:
  "rebuilt fs \<subseteq> {..<next_address c} \<Longrightarrow> faithful c (add_failed K a err fs c)"
  by (auto simp: add_failed_def intro!: faithfulI report_begin_faithful)

lemma init_status_rebuilds [simp]: "rebuilds (init_status a fs nxt) = rebuilt fs"
  by (cases nxt) simp_all

lemma add_init_faithful:
  assumes "rebuilt fs \<subseteq> {..<next_address c}"
  shows "faithful c (add_init conn a fs c)"
proof -
  let ?c = "c\<lparr>pending_model_runs := AList.update (model_id (heap c a)) a (pending_model_runs c)\<rparr>"
  obtain r nxt where b: "init_begin conn (heap c a) = (r, nxt)" by fastforce
  then have "inherits ?c (modify a (\<lambda>_. r) ?c)"
    using init_begin_op.identity_kept [of conn "heap c a"]
      init_begin_op.configuration_kept [of conn "heap c a"]
    by (intro inherits_modify profile_kept) simp_all
  then have "inherits c (modify a (\<lambda>_. r) ?c)"
    by (rule inherits_trans [rotated]) (simp add: inherits_same)
  with assms b show ?thesis by (auto simp: add_init_def Let_def intro!: faithfulI)
qed

context runner_factory
begin

lemma rebuild_faithful:
  assumes "a < next_address c" and "rebuilt fs \<subseteq> {..<next_address c}"
  shows "faithful c (reconnect_rebuild K a fs c)"
proof (cases "model_factory K (deployment_id (heap c a)) (model_id (heap c a)) (model_name (heap c a))
    (ip (heap c a)) (port (heap c a)) (infos (heap c a))")
  case (Inl e)
  with assms(2) show ?thesis by (simp add: reconnect_rebuild_def faithfulI)
next
  case (Inr r)
  let ?c = "fst (allocate r c)"
  have "profile r = profile (heap c a)"
    using built [OF Inr] by (simp add: profile_def service_of_def identity_def)
  then have "inherits c ?c"
    using assms(1) by (auto simp: inherits_def allocate_simps less_Suc_eq)
  moreover have "faithful ?c (add_begin (next_address c) fs ?c)"
    using assms(2) by (intro add_begin_faithful) (auto simp: allocate_simps)
  ultimately show ?thesis
    using Inr by (auto simp: reconnect_rebuild_def Let_def allocate_def intro: faithful_after)
qed

lemma micro_faithful:
  assumes "rebuilt (f # fs) \<subseteq> {..<next_address c}"
  shows "faithful c (micro K conn out f fs c)"
proof -
  have fs: "rebuilt fs \<subseteq> {..<next_address c}" using assms by (cases f) simp_all
  have same: "faithful c (c', Run out' fs)" if "heap c' = heap c" "next_address c' = next_address c"
    for c' out' using that fs by (intro faithfulI inherits_same) simp_all
  have unpended: "inherits c (add_unpend a c)" for a by (rule inherits_same) (simp_all add: add_unpend_def)
  have failed: "faithful c (add_failed K a err fs (add_unpend a c))" for a err
    by (rule faithful_after [OF unpended], rule add_failed_faithful) (simp add: add_unpend_def fs)
  show ?thesis
    using assms fs
    by (cases "(K, conn, out, f, fs, c)" rule: micro.cases)
      (auto intro!: same failed [unfolded add_unpend_def] add_init_faithful remove_begin_faithful rebuild_faithful
        simp: add_unpend_def add_enlist_def remove_end_def Let_def)
qed

lemma drive_faithful: "faithful c x \<Longrightarrow> faithful c (drive K conn x)"
proof (induction "load (snd x)" arbitrary: x rule: less_induct)
  case less
  obtain c' st where x: "x = (c', st)" by fastforce
  show ?case
  proof (cases "\<exists>out f fs. st = Run out (f # fs)")
    case True
    then obtain out f fs where st: "st = Run out (f # fs)" by blast
    obtain c1 st1 where m: "micro K conn out f fs c' = (c1, st1)" by fastforce
    have "faithful c' (c1, st1)"
      unfolding m [symmetric] by (rule micro_faithful) (use less.prems x st in \<open>simp add: faithful_def\<close>)
    then have "faithful c (c1, st1)"
      by (rule faithful_after [rotated]) (use less.prems x in \<open>simp add: faithful_def\<close>)
    moreover have "load st1 < load st" using micro_load [OF m] st by simp
    ultimately have "faithful c (drive K conn (c1, st1))"
      using less.hyps [of "(c1, st1)"] x by simp
    then show ?thesis by (simp add: x st m)
  next
    case False
    then show ?thesis
      using less.prems x by (cases "(K, conn, x)" rule: drive.cases) (auto simp: faithful_def)
  qed
qed

lemma start_faithful:
  assumes "call_address cl < next_address c"
  shows "faithful c (start K conn cl c)"
proof -
  have "faithful c (begin_call K cl c)"
    using assms
    by (cases cl) (auto simp: begin_call_def
      intro!: remove_begin_faithful add_begin_faithful report_begin_faithful)
  then show ?thesis by (simp add: start_def drive_faithful)
qed

lemma resume_faithful:
  assumes "rebuilt fs \<subseteq> {..<next_address c}"
  shows "faithful c (resume K conn aw (Wait w fs) c)"
proof -
  have "rebuilt (tl fs) \<subseteq> rebuilt fs" by (cases fs) (auto simp: rebuilt_def)
  then have tl: "rebuilt (tl fs) \<subseteq> {..<next_address c}" using assms by blast
  have "profile (fst (init_resume (setup_prefix K) conn (heap c a) pc aw)) = profile (heap c a)" for a pc
    using init_resume_keeps [of conn "heap c a" pc aw] by (intro profile_kept) simp_all
  then have "inherits c (modify a (\<lambda>_. r) c)"
    if "init_resume (setup_prefix K) conn (heap c a) pc aw = (r, nxt)" for a pc r nxt
    using that by (metis fst_conv inherits_modify)
  then have init: "faithful c (deliver K conn aw (On_init a pc) fs c)" for a pc
    using tl by (auto simp: deliver_def intro!: faithfulI split: prod.split)
  have "faithful c (deliver K conn aw w fs c)"
    using assms init
    by (cases w) (auto simp: deliver_def intro!: faithfulI inherits_same
      split: awaited.splits prod.splits option.splits)
  then show ?thesis by (simp add: resume_def drive_faithful)
qed

text \<open>Planning makes objects of entries that say \<^verbatim>\<open>RUNNING\<close>, and refreshes objects from them.\<close>

lemma attested_new:
  assumes "attested E c" and "profile r = entry_profile e"
  shows "attested (insert e E) (fst (allocate r c))"
  using assms by (auto simp: attested_def allocate_simps less_Suc_eq)

lemma attested_refreshed:
  assumes "attested E c" and "profile (f (heap c a)) = entry_profile e"
  shows "attested (insert e E) (modify a f c)"
  using assms by (auto simp: attested_def)

lemma plan_new_attested:
  assumes "attested E c"
  shows "attested (insert e E) (fst (plan_new K c e))"
proof (cases "model_factory K (e_deployment_id e) (e_model_id e) (e_model_name e) (e_ip e) (e_port e)
    (e_infos e)")
  case (Inl err)
  with assms show ?thesis by (auto simp: plan_new_def intro: attested_mono)
next
  case (Inr r)
  from built [OF Inr] have "profile r = entry_profile e"
    by (simp add: profile_def service_of_def entry_profile_def service_of_entry_def identity_def)
  from attested_new [OF assms this] Inr show ?thesis
    by (simp add: plan_new_def Let_def case_prod_beta)
qed

lemma plan_entry_attested:
  assumes "attested E c" and "wf_cluster c"
  shows "attested (E \<union> set (read_running x)) (fst (plan_entry K c x))"
proof (cases "read_entry x")
  case (Inl err)
  with assms(1) show ?thesis by (simp add: plan_entry_def)
next
  case (Inr e)
  have "profile (set_infos (e_infos e) (e_model_name e) (heap c a)) = entry_profile e"
    if "known_model c e = Some a" "ip (heap c a) = e_ip e" "port (heap c a) = e_port e" for a
    using that find_model_allocated [OF assms(2), of "e_model_id e" a]
    by (auto simp: known_model_def set_infos_def profile_def service_of_def entry_profile_def
        service_of_entry_def split: option.splits if_splits)
  then show ?thesis
    using assms(1) Inr plan_new_attested [OF assms(1), of e] attested_refreshed [OF assms(1)]
    by (auto simp: plan_entry_def split: option.split intro: attested_mono)
qed

lemma plan_entries_attested:
  "attested E c \<Longrightarrow> wf_cluster c \<Longrightarrow>
   attested (E \<union> set (concat (map read_running xs))) (fst (plan_entries K c xs))"
proof (induction xs arbitrary: E c)
  case (Cons x xs)
  obtain c1 t where p: "plan_entry K c x = (c1, t)" by fastforce
  have "plan_ok c c1 (planned t)" by (rule plan_entry_ok [OF Cons.prems(2) p])
  then have wf: "wf_cluster c1"
    using Cons.prems(2) by (intro wf_evolves [of c c1]) (simp_all add: plan_ok_def)
  have a: "attested (E \<union> set (read_running x)) c1"
    using plan_entry_attested [OF Cons.prems, of x] p by simp
  show ?case
  proof (cases t)
    case (Inl err)
    with a p show ?thesis by (auto intro: attested_mono)
  next
    case (Inr cl)
    have "fst (plan_entries K c (x # xs)) = fst (plan_entries K c1 xs)"
      using p Inr by (simp add: case_prod_beta split: sum.split)
    with Cons.IH [OF a wf] show ?thesis by (simp add: Un_assoc del: plan_entries.simps read_running.simps)
  qed
qed simp

lemma update_plan_attested:
  "attested E c \<Longrightarrow> wf_cluster c \<Longrightarrow>
   attested (E \<union> set (running_entries data)) (fst (update_plan K c data))"
  using plan_entries_attested [of E c]
  by (cases "iterate data") (simp_all add: update_plan_def running_entries_def del: read_running.simps)

section \<open>Along a schedule\<close>

lemma spawn_cluster [simp]: "cluster_of (fst (spawn calls s)) = cluster_of s"
  by (simp add: spawn_def)

lemma act_inherits:
  assumes "act K s x = Some t" and "system_ok s" and "\<And>event_type data. x \<noteq> Event event_type data"
  shows "inherits (cluster_of s) (cluster_of t)"
proof (cases x)
  case (Begin i conn)
  with assms(1) obtain cl where cl: "i < length (tasks s)" "tasks s ! i = Ready cl"
    "t = put_task s i (start K conn cl (cluster_of s))"
    by (auto split: if_splits task.splits)
  then have "call_address cl < next_address (cluster_of s)"
    using assms(2) nth_mem [OF cl(1)] by (fastforce simp: system_ok_def)
  with cl show ?thesis using start_faithful [of cl "cluster_of s" conn]
    by (simp add: faithful_def put_task_def case_prod_beta)
next
  case (Wake i conn aw)
  with assms(1) obtain w fs where w: "i < length (tasks s)" "tasks s ! i = Task (Wait w fs)"
    "t = put_task s i (resume K conn aw (Wait w fs) (cluster_of s))"
    by (auto split: if_splits task.splits status.splits)
  then have "frames_ok (next_address (cluster_of s)) fs"
    using assms(2) nth_mem [OF w(1)] by (fastforce simp: system_ok_def)
  then have "rebuilt fs \<subseteq> {..<next_address (cluster_of s)}"
    by (fastforce simp: rebuilt_def frames_ok_def)
  with w show ?thesis using resume_faithful [of fs "cluster_of s" conn aw w]
    by (simp add: faithful_def put_task_def case_prod_beta)
next
  case (Event event_type data)
  with assms(3) show ?thesis by blast
next
  case (Count a failures timeouts cooldown)
  with assms(1) show ?thesis by (auto simp: counters_op.modify_inherits split: if_splits)
next
  case Gathered
  with assms(1) show ?thesis
    by (auto simp: spawn_def split: handler.splits option.splits if_splits sum.splits)
qed (use assms(1) in \<open>auto simp: inherits_same split: if_splits handler.splits task.splits status.splits
      outcome.splits\<close>)

lemma act_attested:
  assumes "act K s x = Some t" and "system_ok s" and "attested E (cluster_of s)"
  shows "attested (E \<union> set (said x)) (cluster_of t)"
proof (cases "\<exists>event_type data. x = Event event_type data")
  case True
  then obtain event_type data where x: "x = Event event_type data" by blast
  from assms(1) x obtain first prev where "handler s = Idle prev" "dispatch_event event_type = Some first"
    by (auto split: handler.splits option.splits)
  moreover from this have "cluster_of t = fst (update_plan K (cluster_of s) data)"
    using assms(1) x by (auto simp: spawn_def split: prod.splits sum.splits)
  ultimately show ?thesis
    using update_plan_attested [OF assms(3), of data] assms(2) x by (simp add: system_ok_def)
next
  case False
  then have "inherits (cluster_of s) (cluster_of t)" by (intro act_inherits [OF assms(1,2)]) blast
  from inherits_attested [OF this assms(3)] show ?thesis by (auto intro: attested_mono)
qed

lemma schedule_attested:
  "schedule K s xs = Some t \<Longrightarrow> system_ok s \<Longrightarrow> attested E (cluster_of s) \<Longrightarrow>
   attested (E \<union> set (told_to_run xs)) (cluster_of t)"
proof (induction xs arbitrary: s E)
  case (Cons x xs)
  then obtain s' where s': "act K s x = Some s'" "schedule K s' xs = Some t"
    by (auto split: option.splits)
  have "system_ok s'" by (rule system_step_ok [OF act_step [OF s'(1)] Cons.prems(2)])
  from Cons.IH [OF s'(2) this act_attested [OF s'(1) Cons.prems(2,3)]]
  show ?case by (simp add: told_to_run_def Un_assoc)
qed (simp add: told_to_run_def)

end

section \<open>The properties\<close>

text \<open>
  C3. The client has to do with no model it was not told to run. Take any run from the start, whatever
  events arrive, tasks interleave, calls fail, models are reconnected and coroutines are cancelled
  (\<open>acts\<close> is its history, and every run has one). Every runner object that was ever made, so every
  model that is in service, or being connected, or called, or closed, stands for one entry of an event
  of that history that says \<^verbatim>\<open>RUNNING\<close>, with the deployment, address, name and infos of that entry.
\<close>

theorem only_models_told_to_run:
  assumes "schedule (dyn_environment R F) (start_of blank crunch host prt report) acts = Some s"
  shows "(\<forall>a < next_address (cluster_of s). \<exists>e \<in> set (told_to_run acts).
      model_id (heap (cluster_of s) a) = e_model_id e \<and>
      service_of (heap (cluster_of s) a) = service_of_entry e) \<and>
    (\<forall>mid srv. view_of (cluster_of s) mid = Some srv \<longrightarrow>
      (\<exists>e \<in> set (told_to_run acts). mid = e_model_id e \<and> srv = service_of_entry e))"
proof -
  have "attested {} (cluster_of (start_of blank crunch host prt report))"
    by (simp add: attested_def initial_system_def new_cluster_def)
  from dyn.schedule_attested [OF assms initial_system_ok this]
  have all: "\<exists>e \<in> set (told_to_run acts). model_id (heap (cluster_of s) a) = e_model_id e \<and>
      service_of (heap (cluster_of s) a) = service_of_entry e" if "a < next_address (cluster_of s)" for a
    using that by (force simp: attested_def profile_def entry_profile_def)
  have "wf_cluster (cluster_of s)"
    using reachable_ok [OF schedule_reachable [OF assms]] by (simp add: system_ok_def)
  then have "\<exists>a < next_address (cluster_of s). model_id (heap (cluster_of s) a) = mid \<and>
      srv = service_of (heap (cluster_of s) a)" if "view_of (cluster_of s) mid = Some srv" for mid srv
    using that by (fastforce simp: view_of_def wf_cluster_def keyed_def)
  with all show ?thesis by metis
qed

text \<open>
  A model runs and is reconnected after an unhealthy health check; while it is pending, the
  orchestrator updates its infos.
\<close>

definition renamed :: json where
  "renamed =
     JObj [(lit ''deployment_id'', jstr ''d1''), (lit ''model_id'', jstr ''m1''),
           (lit ''infos'', JObj [(lit ''model_name'', jstr ''bird'')]), (lit ''state'', jstr ''RUNNING''),
           (lit ''ip'', jstr ''10.0.0.1''), (lit ''port'', JInt 50051)]"

definition joins :: "nat \<Rightarrow> action list" where
  "joins i =
     [Wake i Conn_ok Got_unit, Wake i Conn_ok Got_unit, Wake i Conn_ok (Got_setup True None)]"

definition renaming_start :: "action list" where
  "renaming_start =
     [Event (jstr ''update'') (JArr [update_of ''m1'' ''RUNNING'']), Begin 0 Conn_ok] @ joins 0 @
     [Gathered, Spawn (Reconnect 0), Begin 1 Conn_ok, Wake 1 Conn_ok Got_unit]"

definition renaming_schedule :: "action list" where
  "renaming_schedule =
     renaming_start @ [Event (jstr ''update'') (JArr [renamed]), Gathered] @ joins 1"

lemma renaming_run:
  "case schedule sample_environment (initial_system empty_cluster) renaming_start of
     None \<Rightarrow> False
   | Some s0 \<Rightarrow> reconnecting s0 1 1 \<and> handler s0 = Idle None \<and>
       pending_model_runs (cluster_of s0) = [(jstr ''m1'', 1)] \<and>
       deployment_id (heap (cluster_of s0) 1) = jstr ''d1'' \<and>
       ip (heap (cluster_of s0) 1) = jstr ''10.0.0.1'' \<and> port (heap (cluster_of s0) 1) = JInt 50051 \<and>
       (case schedule sample_environment s0
           (Event (jstr ''update'') (JArr [renamed]) # Gathered # joins 1) of
          None \<Rightarrow> False
        | Some s \<Rightarrow> all_well s \<and> models_run (cluster_of s) = [(jstr ''m1'', 1)] \<and>
            next_address (cluster_of s) = 2 \<and>
            infos (heap (cluster_of s) 1) = JObj [] \<and> model_name (heap (cluster_of s) 1) = JNull)"
  by (simp add: renaming_start_def joins_def renamed_def run_defs sample_defs reconnecting_def
      all_well_def)

theorem only_models_told_to_run_witness:
  "\<exists>s. schedule sample_environment (initial_system empty_cluster) renaming_schedule = Some s \<and>
     models_run (cluster_of s) = [(jstr ''m1'', 1)] \<and>
     (\<exists>e \<in> set (told_to_run renaming_schedule). model_id (heap (cluster_of s) 1) = e_model_id e \<and>
        service_of (heap (cluster_of s) 1) = service_of_entry e)"
proof -
  obtain s where s: "schedule sample_environment (initial_system empty_cluster) renaming_schedule = Some s"
    and c: "models_run (cluster_of s) = [(jstr ''m1'', 1)]" "next_address (cluster_of s) = 2"
    using renaming_run unfolding renaming_schedule_def schedule_append
    by (auto split: option.splits)
  from only_models_told_to_run [OF s [unfolded empty_cluster_def]] c s show ?thesis by auto
qed


end
