(* ===== verification/Call_Turns.thy ===== *)
theory Call_Turns
  imports Cluster_Schedules
begin

text \<open>
  A call on many models returns: its coroutines take turns in any order, while anything at all happens
  to the cluster between them, and none needs more than three. Unless one
  is cancelled or refused as unauthenticated, every model then has its entry in the result.
\<close>

section \<open>Turns\<close>

text \<open>
  A turn of the \<open>i\<close>-th coroutine with what its await delivers, or any change of the rest of the
  program.
\<close>

datatype ('r, 'q, 'v) happening =
    Elsewhere "'r system \<Rightarrow> 'r system"
  | Call_turn nat int "'q exec_pc \<Rightarrow> 'v delivery"

fun call_turn ::
  "'b concurrent_runner_scheme \<Rightarrow> (pystr \<Rightarrow> ('a runner_scheme \<Rightarrow> 'q result) option) \<Rightarrow> pystr \<Rightarrow>
   int option \<Rightarrow> ('a runner_scheme, 'q, 'v) happening \<Rightarrow>
   'a runner_scheme system \<times> ('q, 'v) calls_state \<Rightarrow>
   'a runner_scheme system \<times> ('q, 'v) calls_state" where
  "call_turn R attribute name tmo (Elsewhere f) (sys, ps) = (f sys, ps)"
| "call_turn R attribute name tmo (Call_turn i x d) (sys, ps) =
     (if i < length ps
      then (case ps ! i of
              (a, Fresh) \<Rightarrow>
                advance (sys, ps) i a (exec_begin R attribute name tmo a x (cluster_of sys))
            | (a, In_flight pc) \<Rightarrow> advance (sys, ps) i a (exec_resume R a pc (d pc) (cluster_of sys))
            | (a, Finished e) \<Rightarrow> (sys, ps))
      else (sys, ps))"

fun call_turns ::
  "'b concurrent_runner_scheme \<Rightarrow> (pystr \<Rightarrow> ('a runner_scheme \<Rightarrow> 'q result) option) \<Rightarrow> pystr \<Rightarrow>
   int option \<Rightarrow> ('a runner_scheme, 'q, 'v) happening list \<Rightarrow>
   'a runner_scheme system \<times> ('q, 'v) calls_state \<Rightarrow>
   'a runner_scheme system \<times> ('q, 'v) calls_state" where
  "call_turns R attribute name tmo [] s = s"
| "call_turns R attribute name tmo (t # ts) s =
     call_turns R attribute name tmo ts (call_turn R attribute name tmo t s)"

text \<open>A method call is answered by an outcome, a health check by a status.\<close>

fun fitting :: "'q exec_pc \<Rightarrow> 'v delivery \<Rightarrow> bool" where
  "fitting (At_method q t) (Method_outcome x out) = True"
| "fitting (At_health_check t x) (Health_outcome out) = True"
| "fitting _ _ = False"

fun fits :: "('r, 'q, 'v) happening \<Rightarrow> bool" where
  "fits (Elsewhere f) = True"
| "fits (Call_turn i x d) = (\<forall>pc. fitting pc (d pc))"

fun turn_for :: "nat \<Rightarrow> ('r, 'q, 'v) happening \<Rightarrow> bool" where
  "turn_for i (Elsewhere f) = False"
| "turn_for i (Call_turn j x d) = (i = j)"

abbreviation turns_for :: "nat \<Rightarrow> ('r, 'q, 'v) happening list \<Rightarrow> nat" where
  "turns_for i ts \<equiv> length (filter (turn_for i) ts)"

text \<open>As long as the cluster takes its own steps in between, turns are a run of calls.\<close>

lemma call_turn_run:
  assumes "\<And>f. t = Elsewhere f \<Longrightarrow> reachable K (fst s) (f (fst s))"
  shows "rtranclp (run_step K R attribute name tmo) s (call_turn R attribute name tmo t s)"
proof (cases "(R, attribute, name, tmo, t, s)" rule: call_turn.cases)
  case (1 R' attribute' name' tmo' f sys ps)
  then have "reachable K sys (f sys)" using assms by auto
  then have "rtranclp (run_step K R attribute name tmo) (sys, ps) (f sys, ps)"
    by (induction rule: rtranclp_induct) (auto intro: rtranclp.rtrancl_into_rtrancl run_step.cluster_step)
  with 1 show ?thesis by simp
next
  case (2 R' attribute' name' tmo' i x d sys ps)
  then show ?thesis
    using run_step.begin_call_on [of i ps _ K R attribute name tmo sys x]
      run_step.resume_call_on [of i ps _ _ K R attribute name tmo sys]
    by (auto split: prod.split progress.split intro: r_into_rtranclp)
qed

section \<open>No coroutine needs more than three\<close>

fun turns_left :: "('q, 'v) progress \<Rightarrow> nat" where
  "turns_left Fresh = 3"
| "turns_left (In_flight (At_method q t)) = 2"
| "turns_left (In_flight (At_health_check t x)) = 1"
| "turns_left (Finished e) = 0"

abbreviation left_after :: "'c \<times> call list \<times> ('q, 'v) exec_next \<Rightarrow> nat" where
  "left_after x \<equiv> turns_left (progress_of (snd (snd x)))"

lemma finish_timeout_left [simp]: "left_after (finish_timeout R a x b c) = 0"
  by (simp add: finish_timeout_def Let_def)

lemma count_failure_left [simp]: "left_after (count_failure R a x c) = 0"
  by (simp add: count_failure_def Let_def)

lemma timed_out_left: "left_after (timed_out R a t x c) \<le> 1"
  by (simp add: timed_out_def Let_def)

lemma except_clause_left: "left_after (except_clause R a t x e c) \<le> 1"
  using timed_out_left [of R a t x c] by (cases e) (simp_all add: except_clause_def)

lemma method_done_left: "left_after (method_done R a t x out c) \<le> 1"
  using except_clause_left [of R a t x _ c] by (auto simp: method_done_def split: sum.split option.split)

lemmas clauses_left =
  order_trans [OF except_clause_left, of 2] order_trans [OF method_done_left, of 2]

lemma exec_begin_left: "left_after (exec_begin R attribute name tmo a x c) \<le> 2"
  by (auto simp: exec_begin_def Let_def case_prod_beta clauses_left split: option.split sum.split)

lemma exec_resume_left:
  "fitting pc d \<Longrightarrow> left_after (exec_resume R a pc d c) < turns_left (In_flight pc :: ('q, 'v) progress)"
  by (cases "(R, a, pc, d, c)" rule: exec_resume.cases)
    (auto intro: le_less_trans [OF method_done_left])

lemma advance_calls: "snd (advance (sys, ps) i a x) = ps[i := (a, progress_of (snd (snd x)))]"
  by (simp add: advance_def case_prod_beta)

lemma call_turn_calls:
  "map fst (snd (call_turn R attribute name tmo t s)) = map fst (snd s)"
  by (cases "(R, attribute, name, tmo, t, s)" rule: call_turn.cases)
    (auto simp: advance_calls map_update list_update_same_conv split: prod.split progress.split)

lemma call_turn_left:
  assumes "fits t" and "i < length (snd s)"
  shows "turns_left (snd (snd (call_turn R attribute name tmo t s) ! i)) \<le>
    turns_left (snd (snd s ! i)) - (if turn_for i t then 1 else 0)"
proof (cases "(R, attribute, name, tmo, t, s)" rule: call_turn.cases)
  case (2 R' attribute' name' tmo' j x d sys ps)
  obtain a p where p: "ps ! i = (a, p)" by fastforce
  show ?thesis
  proof (cases "j = i")
    case False
    with 2 show ?thesis
      by (auto simp: advance_calls split: prod.split progress.split)
  next
    case True
    show ?thesis
    proof (cases p)
      case Fresh
      with True p 2 assms(2) exec_begin_left [of R attribute name tmo a x "cluster_of sys"]
      show ?thesis by (simp add: advance_calls)
    next
      case (In_flight pc)
      from 2 assms(1) have "fitting pc (d pc)" by simp
      then have "left_after (exec_resume R a pc (d pc) (cluster_of sys)) < turns_left p"
        unfolding In_flight by (rule exec_resume_left)
      with In_flight True p 2 assms(2) show ?thesis by (simp add: advance_calls)
    qed (use True p 2 in simp)
  qed
qed simp

lemma call_turns_left:
  "list_all fits ts \<Longrightarrow> i < length (snd s) \<Longrightarrow>
   turns_left (snd (snd (call_turns R attribute name tmo ts s) ! i)) \<le>
     turns_left (snd (snd s ! i)) - turns_for i ts"
proof (induction ts arbitrary: s)
  case (Cons t ts)
  let ?s = "call_turn R attribute name tmo t s"
  have "length (snd ?s) = length (snd s)"
    using call_turn_calls [of R attribute name tmo t s] by (rule map_eq_imp_length_eq)
  with Cons.prems have "turns_left (snd (snd (call_turns R attribute name tmo (t # ts) s) ! i)) \<le>
      turns_left (snd (snd ?s ! i)) - turns_for i ts"
    using Cons.IH [of ?s] by simp
  also have "\<dots> \<le> turns_left (snd (snd s ! i)) - turns_for i (t # ts)"
    using call_turn_left [of t i s R attribute name tmo] Cons.prems by auto
  finally show ?case .
qed simp

lemma call_turns_calls: "map fst (snd (call_turns R attribute name tmo ts s)) = map fst (snd s)"
  by (induction ts arbitrary: s) (simp_all add: call_turn_calls)

lemma ended_if_none_left: "(\<And>i. i < length ps \<Longrightarrow> turns_left (snd (ps ! i)) = 0) \<Longrightarrow> \<exists>es. ended ps = Some es"
proof (induction ps)
  case (Cons p ps)
  have "turns_left (snd p) = 0" using Cons.prems [of 0] by simp
  then obtain a e where "p = (a, Finished e)"
    by (cases p; cases "snd p" rule: turns_left.cases) auto
  moreover have "\<exists>es. ended ps = Some es" using Cons.prems by (intro Cons.IH) fastforce
  ultimately show ?case by auto
qed simp

lemma collect_results_raises: "collect_results es d = Inl e \<Longrightarrow> e = AttributeError"
  by (induction es d rule: collect_results.induct) auto

lemma turns_end:
  assumes "list_all fits ts"
    and "\<And>i. i < length (select_models (cluster_of s) model_runs) \<Longrightarrow> 3 \<le> turns_for i ts"
    and "call_turns R attribute name tmo ts (s, fresh_calls (cluster_of s) model_runs) = (t, ps)"
  obtains es where "ended ps = Some es" and "map fst ps = select_models (cluster_of s) model_runs"
proof -
  have ps: "map fst ps = select_models (cluster_of s) model_runs"
    using call_turns_calls [of R attribute name tmo ts "(s, fresh_calls (cluster_of s) model_runs)"] assms(3)
    by (simp add: fresh_calls_def comp_def)
  then have n: "length ps = length (select_models (cluster_of s) model_runs)" by (metis length_map)
  have "turns_left (snd (ps ! i)) = 0" if "i < length ps" for i
    using call_turns_left [OF assms(1), of i "(s, fresh_calls (cluster_of s) model_runs)" R attribute name tmo]
      assms(2) [of i] assms(3) that n
    by (simp add: fresh_calls_def)
  from ended_if_none_left [OF this] ps show ?thesis using that by blast
qed

text \<open>
  C9. A call returns. However its coroutines take turns, whatever is delivered to them (an answer, an
  error, a time-out, a cancellation), and whatever happens in between to the cluster, to its models or
  to their counters: once each has had three turns (its beginning, the method, a health check) all
  have ended, and the call returns a dictionary, or raises \<^verbatim>\<open>AttributeError\<close>.
\<close>

theorem call_returns:
  assumes "list_all fits ts"
    and "\<And>i. i < length (select_models (cluster_of s) model_runs) \<Longrightarrow> 3 \<le> turns_for i ts"
    and "call_turns R attribute name tmo ts (s, fresh_calls (cluster_of s) model_runs) = (t, ps)"
  shows "map fst ps = select_models (cluster_of s) model_runs \<and> 
    (call_results ps = Some (Inl AttributeError) \<or> (\<exists>d. call_results ps = Some (Inr d)))"
proof -
  obtain es where "ended ps = Some es" and "map fst ps = select_models (cluster_of s) model_runs"
    by (rule turns_end [OF assms])
  then show ?thesis
    by (cases "collect_results es []") (auto simp: call_results_def dest: collect_results_raises)
qed

section \<open>Every model answers\<close>

text \<open>
  What makes a coroutine end without a result: the method, or its beginning, raises an authentication
  error, or the coroutine is cancelled. Everything else that can be delivered gives one.
\<close>

fun spoils :: "exn \<Rightarrow> bool" where
  "spoils CancelledError = True"
| "spoils (AuthError message) = True"
| "spoils _ = False"

fun settles :: "'v delivery \<Rightarrow> bool" where
  "settles (Method_outcome x (Inl e)) = (\<not> spoils e)"
| "settles (Health_outcome (Inl e)) = (e \<noteq> CancelledError)"
| "settles _ = True"

fun harmless :: "('r, 'q, 'v) happening \<Rightarrow> bool" where
  "harmless (Elsewhere f) = True"
| "harmless (Call_turn i x d) = (\<forall>pc. settles (d pc))"

fun answered :: "nat \<Rightarrow> ('q, 'v) progress \<Rightarrow> bool" where
  "answered a (Finished e) = (\<exists>p. e = Ended_result p \<and> model_runner p = a)"
| "answered a _ = True"

abbreviation answers_for :: "nat \<Rightarrow> 'c \<times> call list \<times> ('q, 'v) exec_next \<Rightarrow> bool" where
  "answers_for a x \<equiv> answered a (progress_of (snd (snd x)))"

lemma finish_timeout_answers [simp]: "answers_for a (finish_timeout R a x b c)"
  by (simp add: finish_timeout_def Let_def of_timeout_def)

lemma count_failure_answers [simp]: "answers_for a (count_failure R a x c)"
  by (simp add: count_failure_def Let_def of_failed_def)

lemma timed_out_answers [simp]: "answers_for a (timed_out R a t x c)"
  by (simp add: timed_out_def Let_def)

lemma except_clause_answers: "\<not> spoils e \<Longrightarrow> answers_for a (except_clause R a t x e c)"
  by (cases e) (simp_all add: except_clause_def of_failed_def)

lemma method_done_answers:
  "(\<And>e. out = Inl e \<Longrightarrow> \<not> spoils e) \<Longrightarrow> answers_for a (method_done R a t x out c)"
  by (auto simp: method_done_def of_success_def of_failed_def except_clause_answers
      split: sum.split option.split)

lemma exec_begin_answers:
  assumes "\<And>prefix r e. attribute name = Some prefix \<Longrightarrow> prefix r = Inl e \<Longrightarrow> \<not> spoils e"
  shows "answers_for a (exec_begin R attribute name tmo a x c)"
proof (cases "attribute name")
  case (Some prefix)
  have "\<not> spoils e" if "prefix r = Inl e" for r e using assms [OF Some that] .
  with Some show ?thesis
    by (auto simp: exec_begin_def Let_def case_prod_beta except_clause_answers
        intro!: method_done_answers split: sum.split)
qed (simp add: exec_begin_def except_clause_answers)

lemma exec_resume_answers: "settles d \<Longrightarrow> answers_for a (exec_resume R a pc d c)"
  by (cases "(R, a, pc, d, c)" rule: exec_resume.cases)
    (auto intro!: method_done_answers)

definition all_answered :: "('q, 'v) calls_state \<Rightarrow> bool" where
  "all_answered ps \<longleftrightarrow> (\<forall>(a, p)\<in>set ps. answered a p)"

lemma all_answered_update: "all_answered ps \<Longrightarrow> answered a p \<Longrightarrow> all_answered (ps[i := (a, p)])"
  using set_update_subset_insert [of ps i "(a, p)"] by (fastforce simp: all_answered_def)

lemma call_turn_answered:
  assumes "harmless t" and "all_answered (snd s)"
    and prefix: "\<And>prefix r e. attribute name = Some prefix \<Longrightarrow> prefix r = Inl e \<Longrightarrow> \<not> spoils e"
  shows "all_answered (snd (call_turn R attribute name tmo t s))"
proof (cases "(R, attribute, name, tmo, t, s)" rule: call_turn.cases)
  case (2 R' attribute' name' tmo' i x d sys ps)
  have "answers_for a (exec_begin R attribute name tmo a x c)" for a c
    by (rule exec_begin_answers) (rule prefix)
  with 2 assms(1,2) show ?thesis
    by (auto simp: advance_calls exec_resume_answers intro!: all_answered_update
        split: prod.split progress.split)
qed (use assms(2) in simp)

lemma call_turns_answered:
  assumes "\<And>prefix r e. attribute name = Some prefix \<Longrightarrow> prefix r = Inl e \<Longrightarrow> \<not> spoils e"
  shows "list_all harmless ts \<Longrightarrow> all_answered (snd s) \<Longrightarrow>
    all_answered (snd (call_turns R attribute name tmo ts s))"
proof (induction ts arbitrary: s)
  case (Cons t ts)
  have "all_answered (snd (call_turn R attribute name tmo t s))"
    by (rule call_turn_answered) (use Cons.prems assms in auto)
  with Cons show ?case by simp
qed simp

lemma ended_results:
  "ended ps = Some es \<Longrightarrow> all_answered ps \<Longrightarrow> e \<in> set es \<Longrightarrow> \<exists>p. e = Ended_result p"
  by (induction ps arbitrary: es rule: ended.induct) (auto simp: all_answered_def)

lemma result_entries_own:
  "all_answered ps \<Longrightarrow> (a, p) \<in> set (result_entries ps) \<Longrightarrow> model_runner p = a"
  by (induction ps rule: result_entries.induct) (auto simp: all_answered_def)

lemma models_distinct: "wf_cluster c \<Longrightarrow> distinct (map snd (models_run c))"
proof -
  assume "wf_cluster c"
  then have d: "distinct_keys (models_run c)" and k: "keyed c (models_run c)"
    by (simp_all add: wf_cluster_def)
  have "inj_on snd (set (models_run c))"
  proof (rule inj_onI)
    fix x y assume xy: "x \<in> set (models_run c)" "y \<in> set (models_run c)" "snd x = snd y"
    have "model_id (heap c (snd x)) = fst x" and "model_id (heap c (snd y)) = fst y"
      using k d xy(1,2) by (auto simp: keyed_def)
    then show "x = y" using xy(3) by (simp add: prod_eq_iff)
  qed
  moreover have "distinct (models_run c)" using d by (simp add: distinct_map)
  ultimately show ?thesis by (simp add: distinct_map)
qed

text \<open>
  C8. Every model answers. Make a call on all models in service, and let its coroutines take turns in
  any order, three or more each, with answers, errors reported by the model, answers that do not decode,
  time-outs, gRPC errors, unhealthy or failing health checks and unexpected exceptions delivered to
  them, and with anything at all happening to the cluster, its models and their counters in between.
  Unless a coroutine is cancelled or its method raises an authentication error, the call returns a
  dictionary with exactly one entry for each model that was in service when it was made, in the order
  of the cluster, and each entry is the result of its own model.
\<close>

theorem all_models_answer:
  assumes "wf_cluster (cluster_of s)"
    and "list_all fits ts" and "list_all harmless ts"
    and "\<And>i. i < length (models_run (cluster_of s)) \<Longrightarrow> 3 \<le> turns_for i ts"
    and "\<And>prefix r e. attribute name = Some prefix \<Longrightarrow> prefix r = Inl e \<Longrightarrow> \<not> spoils e"
    and "call_turns R attribute name tmo ts (s, fresh_calls (cluster_of s) None) = (t, ps)"
  shows "\<exists>d. call_results ps = Some (Inr d) \<and> map fst d = map snd (models_run (cluster_of s)) \<and>
    (\<forall>(a, p) \<in> set d. model_runner p = a)"
proof -
  obtain es where es: "ended ps = Some es" and ps: "map fst ps = map snd (models_run (cluster_of s))"
    by (rule turns_end [OF assms(2) _ assms(6)]) (simp_all add: select_models_def assms(4))
  have "all_answered (snd (call_turns R attribute name tmo ts (s, fresh_calls (cluster_of s) None)))"
    by (rule call_turns_answered) (use assms(3,5) in \<open>auto simp: all_answered_def fresh_calls_def\<close>)
  then have ans: "all_answered ps" using assms(6) by simp
  note results = ended_results [OF es ans]
  have "distinct (map fst ps)" using models_distinct [OF assms(1)] by (simp add: ps)
  moreover have "end_about a e" if "(a, Finished e) \<in> set ps" for a e using ans that by (fastforce simp: all_answered_def)
  ultimately have "collect_results es [] = Inr (result_entries ps)"
    using collect_results_entries [OF es, of "[]"] results by auto
  moreover have "map fst (result_entries ps) = map fst ps"
    by (rule result_entries_complete [OF es results])
  ultimately show ?thesis
    using es ps result_entries_own [OF ans] by (auto simp: call_results_def)
qed

text \<open>One model, which leaves the cluster while it is asked.\<close>

definition lone_cluster :: "dyn_runner cluster" where
  "lone_cluster =
     empty_cluster\<lparr>heap := (\<lambda>_. blank_runner\<lparr>model_id := jstr ''m1''\<rparr>),
       models_run := [(jstr ''m1'', 0)], next_address := 1\<rparr>"

fun seven :: "unit exec_pc \<Rightarrow> int delivery" where
  "seven (At_method q t) = Method_outcome 5 (Inr (7, None))"
| "seven (At_health_check t x) = Health_outcome (Inr True)"

definition leaves :: "(dyn_runner, unit, int) happening" where
  "leaves = Elsewhere (\<lambda>sys. sys\<lparr>cluster_of := (cluster_of sys)\<lparr>models_run := []\<rparr>\<rparr>)"

definition lone_turns :: "(dyn_runner, unit, int) happening list" where
  "lone_turns = [Call_turn 0 0 seven, leaves, Call_turn 0 0 seven, Call_turn 0 0 seven]"

theorem call_returns_witness:
  "\<exists>t ps. call_turns sample_concurrent (\<lambda>_. Some (\<lambda>_. Inr ())) (lit ''predict'') None lone_turns
      (initial_system lone_cluster, fresh_calls lone_cluster None) = (t, ps) \<and> map fst ps = [0] \<and>
     (call_results ps = Some (Inl AttributeError) \<or> (\<exists>d. call_results ps = Some (Inr d)))"
proof -
  obtain t ps where run: "call_turns sample_concurrent (\<lambda>_. Some (\<lambda>_. Inr ())) (lit ''predict'') None
      lone_turns (initial_system lone_cluster,
        fresh_calls (cluster_of (initial_system lone_cluster)) None) = (t, ps)" by fastforce
  have "fitting pc (seven pc)" for pc by (cases pc) simp_all
  then have "list_all fits lone_turns" by (simp add: lone_turns_def leaves_def)
  from call_returns [OF this _ run] show ?thesis
    using run by (auto simp: lone_turns_def leaves_def initial_system_def select_models_def lone_cluster_def)
qed

theorem all_models_answer_witness:
  "\<exists>t ps d. call_turns sample_concurrent (\<lambda>_. Some (\<lambda>_. Inr ())) (lit ''predict'') None lone_turns
      (initial_system lone_cluster, fresh_calls lone_cluster None) = (t, ps) \<and>
     call_results ps = Some (Inr d) \<and> map fst d = [0] \<and> (\<forall>(a, p) \<in> set d. model_runner p = a)"
proof -
  let ?s = "initial_system lone_cluster"
  obtain t ps where run: "call_turns sample_concurrent (\<lambda>_. Some (\<lambda>_. Inr ())) (lit ''predict'') None
      lone_turns (?s, fresh_calls (cluster_of ?s) None) = (t, ps)" by fastforce
  have "fitting pc (seven pc)" and "settles (seven pc)" for pc by (cases pc; simp)+
  then have turns: "list_all fits lone_turns" "list_all harmless lone_turns"
    by (simp_all add: lone_turns_def leaves_def)
  have wf: "wf_cluster (cluster_of ?s)"
    by (simp add: initial_system_def lone_cluster_def empty_cluster_def new_cluster_def wf_cluster_def
        keyed_def)
  from all_models_answer [OF wf turns _ _ run] run show ?thesis
    by (auto simp: lone_turns_def leaves_def initial_system_def lone_cluster_def)
qed

end
