(* ===== verification/Spec2Isabelle.thy ===== *)
theory Spec2Isabelle
  imports Call_Properties Runner_Properties Security_Properties Wire_Types Client_Session
    Grpc_Services Proto_Modules Debug_Client Provenance Call_Turns
begin

text \<open>
  A verification development of \<^verbatim>\<open>model-runner-client\<close>, the Python library with which a
  coordinator keeps in touch with the models of a crunch: it listens to an orchestrator over a
  websocket, connects to every model the orchestrator names over gRPC, calls a method on all of them
  at once, and reports the models that misbehave. The sources are under
  \<^verbatim>\<open>src/model_runner_client/\<close>.

  \<^bold>\<open>How the program is modelled.\<close> The library runs on \<^verbatim>\<open>asyncio\<close>: code between two awaits is
  atomic, and what an awaited operation delivers, and which coroutine goes on next, is not determined
  by the code. A coroutine is therefore a value (where it is suspended) with two functions, one that
  runs it to its first await and one that runs it from one await to the next, given what was
  delivered; every exception is a value of the type \<open>exn\<close>. What gRPC, the websockets package, the
  sockets and Parquet deliver, and the cryptography, is an input or a parameter; so are the digits of
  a double.

  \<^bold>\<open>The theories.\<close>
  \<^item> \<open>Prelude\<close>: strings as code points, decoded JSON, exceptions, dictionaries in insertion order,
    the locales \<open>dictionary\<close> (with the idiom \<^verbatim>\<open>if d.get(k) is v: del d[k]\<close>) and \<open>stepwise\<close>
    (invariants of step relations).
  \<^item> \<open>Model_Runner\<close> (\<^verbatim>\<open>model_runners/model_runner.py\<close>): the record \<open>runner\<close>, its counters and
    cooldown, and \<^verbatim>\<open>init\<close> as \<open>init_begin\<close> and \<open>init_resume\<close>. Locale \<open>runner_operation\<close> is what
    every operation keeps (identity, configuration, closedness), interpreted for each of them;
    \<open>setup_hook\<close> extends it with the subclass's hook. The lemmas on runs of \<^verbatim>\<open>init\<close> bound its
    deliveries (six per attempt: fetch, two channels, set-up, probe, backoff) and its sleeps.
  \<^item> \<open>Credentials\<close> (\<^verbatim>\<open>security/credentials.py\<close>): TLS contexts with their dependent setters, and
    the credentials of the secure mode loaded from files.
  \<^item> \<open>Websocket_Client\<close> (\<^verbatim>\<open>websocket_client.py\<close>): \<open>connect\<close>, the message queue, events and the
    machine \<open>listen_step\<close>. Locale \<open>message_sink\<close> is the promise that a message is not lost.
    \<open>Websocket_Properties\<close> holds its properties.
  \<^item> \<open>Model_Cluster\<close> (\<^verbatim>\<open>model_cluster.py\<close>): runner objects in a heap by address, the two
    dictionaries, the coroutines as stacks of frames: \<open>begin_call\<close> starts one, \<open>micro\<close> returns into
    its topmost frame, \<open>drive\<close> runs it to its next await (by a decreasing weight of the frames),
    \<open>deliver\<close> and \<open>resume\<close> continue it. \<open>update_plan\<close> and \<open>removal_plan\<close> are the event handlers
    up to their \<^verbatim>\<open>gather\<close>.
  \<^item> \<open>Cluster_Segments\<close>: what every code segment keeps, from the laws of locale \<open>runner_factory\<close>,
    the contract with the class the cluster instantiates.
  \<^item> \<open>Cluster_System\<close>: the step relation \<open>system_step\<close> of the cluster with its event handler, all
    tasks and the calls in flight, and its invariant \<open>system_ok\<close>.
  \<^item> \<open>Byte_Codecs\<close> and \<open>Datatype_Transformer\<close> (\<^verbatim>\<open>utils/datatype_transformer.py\<close>): integers,
    doubles and UTF-8 byte for byte, rounding to doubles, encoding and decoding; locale \<open>codec\<close>.
  \<^item> \<open>Dynamic_Subclass_Runner\<close> (\<^verbatim>\<open>model_runners/dynamic_subclass_model_runner.py\<close>): the record
    \<open>dyn_runner\<close> that extends \<open>runner\<close>, its \<^verbatim>\<open>setup\<close> (an interpretation of \<open>setup_hook\<close>) and
    \<^verbatim>\<open>call\<close>. \<open>Runner_Properties\<close> holds the properties of one runner.
  \<^item> \<open>Concurrent_Runner\<close> (\<^verbatim>\<open>model_concurrent_runners/\<close>, both files): the coroutine of one model as
    \<open>exec_begin\<close> and \<open>exec_resume\<close>, the dictionary of results, the constructors and the factory;
    the interpretation \<open>dyn\<close> shows that the factory meets the contract of the cluster.
  \<^item> \<open>Concurrent_Calls\<close>: calls on all models while the cluster goes on (\<open>run_step\<close>), their
    simulation by \<open>system_step\<close>, and sequences of calls on one model. \<open>Call_Properties\<close> holds the
    properties of calls. \<open>Call_Turns\<close>: the coroutines of a call taking turns among whatever else
    happens, why the call returns, and with an entry for every model.
  \<^item> \<open>Cluster_Schedules\<close>: executable schedules, which are exactly the runs of \<open>system_step\<close>: the
    history of a run, and a way to run concrete behaviours. \<open>Cluster_Properties\<close> holds what each event
    does. \<open>Provenance\<close>: every object the cluster makes stands for an entry of that history
    (\<open>attested\<close>), and how an update of a reconnecting model is lost.
  \<^item> \<open>Task_Turns\<close>: the coroutines of one event taking turns in any order (\<open>run_tasks\<close>, each
    schedule a run of \<open>system_step\<close>), each turn with what the world delivers to it; by the stage each
    coroutine is in (\<open>stage\<close>) and because it concerns one model only (\<open>only_about\<close>), each brings
    about what it was created for if nothing fails. \<open>Faulty_Turns\<close>: the same when opening channels,
    fetching TLS keys, set-ups and reports fail in any way \<open>bearable\<close> says (\<open>astray\<close>): the model it was to
    start is then served as told or not at all. \<open>Event_Turns\<close>: all coroutines of an event, under a \<open>patient\<close>
    schedule, and what they bring about together (\<open>run_calls_outcome\<close>).
    \<open>Orchestrator_View\<close>: the abstract specification of the cluster, a map from model ids to services
    (\<open>told\<close>, \<open>told_event\<close>; \<open>follows\<close> when starts may fail), and its refinement by the events as they
    are planned and run (\<open>cluster_event\<close>, which is still waiting if a coroutine has not ended).
    \<open>Client_Session\<close>: \<^verbatim>\<open>init\<close> and \<^verbatim>\<open>sync\<close>, from the texts
    the websocket client reads to the models in service.
  \<^item> \<open>Base64\<close>, \<open>Json_Text\<close>, \<open>Json_Parse\<close> and \<open>Json_Roundtrip\<close>: the standard library's
    \<^verbatim>\<open>base64\<close>, \<^verbatim>\<open>json.dumps\<close> and \<^verbatim>\<open>json.loads\<close>, with their round trips; \<open>Json_Types\<close> and
    \<open>Wire_Types\<close>: the types of what is parsed and of what is decoded. \<open>Wallet_Delegation\<close>
    (\<^verbatim>\<open>security/wallet_gelegation.py\<close>): what a signed delegation must say. \<open>Grpc_Auth\<close>
    (\<^verbatim>\<open>security/grpc_auth_interceptor.py\<close>): the interceptor as a coroutine, \<open>intercept_resume\<close>.
    \<open>Gateway_Auth\<close> (\<^verbatim>\<open>security/gateway_auth_interceptor.py\<close>): the signed token of a call.
    \<open>Tls_Probe\<close> (\<^verbatim>\<open>security/tls_peer_key.py\<close>): the probe, \<open>probe_resume\<close>.
    \<open>Secure_Connection\<close>: how a runner uses them, from the probe to its channels (\<open>connect_secure\<close>);
    \<open>Security_Properties\<close>: what they guarantee.
  \<^item> \<open>Proto_Schema\<close> (\<^verbatim>\<open>grpc/protos/*.proto\<close> and the generated \<^verbatim>\<open>*_pb2.py\<close>): the declarations, the
    bytes and offsets of their descriptors, and the wire format that relates them. \<open>Proto_Modules\<close>:
    what the generated modules do when they are imported, and why each import succeeds. \<open>Grpc_Services\<close>
    (the generated \<^verbatim>\<open>*_pb2_grpc.py\<close>): stubs, servicers and registrations, related to the same
    declarations and to each other.
  \<^item> \<open>Debug_Client\<close> (\<^verbatim>\<open>src/debug/bird_game_concurrent_runner.py\<close>): the example program, and what its
    setting \<^verbatim>\<open>report_failure=False\<close> guarantees.
  \<^item> This theory: the properties of the whole system.

  \<^bold>\<open>Bounds and fuel.\<close> A \<open>patient\<close> schedule has at least six turns for every coroutine all of whose
  turns are \<open>smooth\<close> (its beginning, the closing of a replaced model, the TLS key, two channels, the
  set-up), and thirty-four for any other (five attempts of six awaits, the beginning and the closing,
  the report and its removal); none needs more (\<open>run_calls_outcome\<close>). A coroutine of a call needs three (its
  beginning, the method, a health check). No definition has fuel: \<open>drive\<close>, \<open>connect_from\<close> and \<open>bit_length\<close>
  terminate by a measure, the rest is structural or a step relation. Loops that need not end
  (\<^verbatim>\<open>listen\<close>) are machines driven by events. Counters are natural numbers and limits integers,
  as Python's; the wire format has fixed widths.

  \<^bold>\<open>Not modelled.\<close> Log messages; the texts of \<^verbatim>\<open>ValueError\<close> and of the TLS errors beyond their
  constant part; \<^verbatim>\<open>runner_id\<close>, which nothing reads; the descriptors and message classes that
  protobuf builds at import, and when its pool refuses a file; the cryptography. Values of
  JSON are compared by structure, where Python also identifies \<^verbatim>\<open>1\<close>, \<^verbatim>\<open>1.0\<close> and \<^verbatim>\<open>True\<close>. Events are
  handled one at a time, as the listening loop does; a coordinator that runs \<^verbatim>\<open>init\<close> and \<^verbatim>\<open>sync\<close> of
  the cluster concurrently is outside the model. The refinement says nothing of sessions in which an
  event names a model twice, closing an object raises, a coroutine is cancelled, or calls are made, so
  that reports and reconnections run beside the events; what holds of those are the invariants of
  \<open>system_step\<close> and \<open>only_models_told_to_run\<close>, and \<open>stopped_model_in_service\<close> and
  \<open>update_lost_while_reconnecting\<close> show what the refinement would not survive.
\<close>

section \<open>The whole system\<close>

lemma sample_start: "initial_system empty_cluster =
  start_of blank_runner (lit ''bird-game'') (lit ''orchestrator'') 8000 True"
  by (simp add: empty_cluster_def)

text \<open>
  C4. Whatever events, tasks and calls interleave, the two dictionaries of the cluster stay sound: no
  key twice, and every entry maps the id of a model to an object that exists and has that id.
\<close>

theorem dictionaries_sound:
  assumes "reachable (dyn_environment R F) (start_of blank crunch host prt report) s"
    and "d = models_run (cluster_of s) \<or> d = pending_model_runs (cluster_of s)"
  shows "distinct_keys d \<and>
    (\<forall>mid a. (mid, a) \<in> set d \<longrightarrow>
       a < next_address (cluster_of s) \<and> model_id (heap (cluster_of s) a) = mid)"
  using reachable_ok [OF assms(1)] assms(2) by (auto simp: system_ok_def wf_cluster_def keyed_def)

text \<open>One model connected without TLS.\<close>

definition running_schedule :: "action list" where
  "running_schedule =
     [Event (jstr ''update'') (JArr [update_of ''m1'' ''RUNNING'']), Begin 0 Conn_ok,
      Wake 0 Conn_ok Got_unit, Wake 0 Conn_ok Got_unit, Wake 0 Conn_ok (Got_setup True None),
      Gathered]"

lemma running_run:
  "\<exists>s. schedule sample_environment (initial_system empty_cluster) running_schedule = Some s \<and>
     models_run (cluster_of s) = [(jstr ''m1'', 0)] \<and> quiescent s"
  by (simp add: running_schedule_def run_defs sample_defs quiescent_def)

lemma running_reachable:
  "\<exists>s. reachable sample_environment (start_of blank_runner (lit ''bird-game'')
       (lit ''orchestrator'') 8000 True) s \<and>
     models_run (cluster_of s) = [(jstr ''m1'', 0)] \<and> quiescent s"
  using running_run schedule_reachable [of sample_environment "initial_system empty_cluster"]
  unfolding sample_start by blast

theorem dictionaries_sound_witness:
  "\<exists>s :: dyn_runner system. models_run (cluster_of s) = [(jstr ''m1'', 0)] \<and>
     0 < next_address (cluster_of s) \<and> model_id (heap (cluster_of s) 0) = jstr ''m1''"
proof -
  obtain s where s: "reachable sample_environment (start_of blank_runner (lit ''bird-game'')
       (lit ''orchestrator'') 8000 True) s"
    and m: "models_run (cluster_of s) = [(jstr ''m1'', 0)]"
    using running_reachable by blast
  from dictionaries_sound [OF s, of "models_run (cluster_of s)"] m
  have "0 < next_address (cluster_of s) \<and> model_id (heap (cluster_of s) 0) = jstr ''m1''" by auto
  with m show ?thesis by (intro exI [of _ s] conjI) simp_all
qed

lemma initialising_wait:
  "a \<in> task_initialising t \<Longrightarrow> task_ok n t \<Longrightarrow> \<exists>pc fs. t = Task (Wait (On_init a pc) fs)"
proof (cases t)
  case (Task st)
  assume "a \<in> task_initialising t" and "task_ok n t"
  then show ?thesis using Task by (cases st rule: initialising.cases) auto
qed simp

text \<open>
  C6. A pending entry always belongs to a live coroutine: some task is suspended inside \<^verbatim>\<open>init\<close> of
  exactly that object, so no entry is left behind, whatever \<^verbatim>\<open>init\<close> raises or returns.
\<close>

theorem pending_is_initialising:
  assumes "reachable (dyn_environment R F) (start_of blank crunch host prt report) s"
    and "map_of (pending_model_runs (cluster_of s)) mid = Some a"
  shows "\<exists>i pc fs. i < length (tasks s) \<and> tasks s ! i = Task (Wait (On_init a pc) fs)"
proof -
  have ok: "system_ok s" by (rule reachable_ok [OF assms(1)])
  have "\<exists>t \<in> set (tasks s). a \<in> task_initialising t"
    using ok assms(2) unfolding system_ok_def pending_within_def by blast
  then obtain t where t: "t \<in> set (tasks s)" "a \<in> task_initialising t" by blast
  then have "task_ok (next_address (cluster_of s)) t" using ok by (simp add: system_ok_def)
  then obtain pc fs where "t = Task (Wait (On_init a pc) fs)"
    using initialising_wait [OF t(2)] by blast
  then show ?thesis using t(1) by (metis in_set_conv_nth)
qed

definition connecting_schedule :: "action list" where
  "connecting_schedule =
     [Event (jstr ''update'') (JArr [update_of ''m1'' ''RUNNING'']), Begin 0 Conn_ok]"

lemma connecting_run:
  "\<exists>s. schedule sample_environment (initial_system empty_cluster) connecting_schedule = Some s \<and>
     pending_model_runs (cluster_of s) = [(jstr ''m1'', 0)]"
  by (simp add: connecting_schedule_def run_defs sample_defs)

theorem pending_is_initialising_witness:
  "\<exists>s :: dyn_runner system. pending_model_runs (cluster_of s) = [(jstr ''m1'', 0)] \<and>
     (\<exists>i pc fs. i < length (tasks s) \<and> tasks s ! i = Task (Wait (On_init 0 pc) fs))"
proof -
  obtain s where run: "schedule sample_environment (initial_system empty_cluster)
      connecting_schedule = Some s"
    and p: "pending_model_runs (cluster_of s) = [(jstr ''m1'', 0)]"
    using connecting_run by blast
  have "reachable sample_environment (start_of blank_runner (lit ''bird-game'')
      (lit ''orchestrator'') 8000 True) s"
    using schedule_reachable [OF run] by (simp add: sample_start)
  from pending_is_initialising [OF this, of "jstr ''m1''" 0] p show ?thesis by auto
qed

text \<open>
  When every task is over, nothing is pending: each model the events named is either in service
  or gone.
\<close>

theorem quiescent_nothing_pending:
  assumes "reachable (dyn_environment R F) (start_of blank crunch host prt report) s"
    and "quiescent s"
  shows "pending_model_runs (cluster_of s) = []"
  by (rule quiescent_no_pending [OF reachable_ok [OF assms(1)] assms(2)])

theorem quiescent_nothing_pending_witness:
  "\<exists>s :: dyn_runner system. models_run (cluster_of s) = [(jstr ''m1'', 0)] \<and> quiescent s \<and>
     pending_model_runs (cluster_of s) = []"
  using running_reachable quiescent_nothing_pending by metis

text \<open>
  C18. Objects keep their identity and closing is final: along every run the deployment id, the model
  id and the address of an object never change, and an object once closed stays closed.
\<close>

theorem identity_permanent:
  assumes "reachable (dyn_environment R F) (start_of blank crunch host prt report) s"
    and "reachable (dyn_environment R F) s t" and "a < next_address (cluster_of s)"
  shows "a < next_address (cluster_of t) \<and>
    identity (heap (cluster_of t) a) = identity (heap (cluster_of s) a) \<and>
    (closed (heap (cluster_of s) a) \<longrightarrow> closed (heap (cluster_of t) a))"
  using dyn.reachable_evolves [OF assms(2) reachable_ok [OF assms(1)]] assms(3)
  by (auto simp: evolves_def)

theorem identity_permanent_witness:
  "\<exists>(s :: dyn_runner system) (t :: dyn_runner system). model_id (heap (cluster_of s) 0) = jstr ''m1'' \<and>
     model_id (heap (cluster_of t) 0) = jstr ''m1'' \<and> length (tasks t) = Suc (length (tasks s))"
proof -
  obtain s where s: "reachable sample_environment (start_of blank_runner (lit ''bird-game'')
       (lit ''orchestrator'') 8000 True) s"
    and m: "models_run (cluster_of s) = [(jstr ''m1'', 0)]"
    using running_reachable by blast
  then have a: "0 < next_address (cluster_of s)" and mid: "model_id (heap (cluster_of s) 0) = jstr ''m1''"
    using reachable_ok [OF s] by (auto simp: system_ok_def wf_cluster_def keyed_def)
  let ?t = "fst (spawn [Reconnect 0] s)"
  have "system_step sample_environment s ?t" by (rule system_step.create_task) (use a in simp_all)
  then have "reachable sample_environment s ?t" by (rule r_into_rtranclp)
  from identity_permanent [OF s this a]
  have "model_id (heap (cluster_of ?t) 0) = jstr ''m1''"
    using mid identity_model_id [of "heap (cluster_of ?t) 0" "heap (cluster_of s) 0"] by simp
  moreover have "length (tasks ?t) = Suc (length (tasks s))" by (simp add: spawn_def)
  ultimately show ?thesis using mid by blast
qed

text \<open>
  C5. A removed model never comes back: when a removal deletes the entries of an object that no other
  task is about to enlist, no later state of any run lists that object, running or pending.
\<close>

theorem removed_never_returns:
  assumes "reachable (dyn_environment R F) (start_of blank crunch host prt report) s"
    and "i < length (tasks s)" and "tasks s ! i = Task (Wait (On_close a) [After_close a])"
    and "\<And>j. j < length (tasks s) \<Longrightarrow> j \<noteq> i \<Longrightarrow> a \<notin> task_adds (tasks s ! j)"
    and "t = s\<lparr>cluster_of := remove_end a (cluster_of s), tasks := (tasks s)[i := Task (Done Ok)]\<rparr>"
  shows "system_step (dyn_environment R F) s t \<and>
    (\<forall>u. reachable (dyn_environment R F) t u \<longrightarrow> a \<notin> listed (cluster_of u))"
proof -
  let ?K = "dyn_environment R F"
  have ok: "system_ok s" by (rule reachable_ok [OF assms(1)])
  have step: "system_step ?K s t"
    unfolding assms(5)
    by (rule system_step.wake_task [OF assms(2,3), of Got_unit _ Conn_ok]) (simp_all add: remove_resumes)
  have "a < next_address (cluster_of s)"
    using ok assms(2,3) nth_mem [OF assms(2)] by (fastforce simp: system_ok_def)
  moreover have "a \<notin> (\<Union>x \<in> set (tasks t). task_adds x)"
    using assms(2,4) by (auto simp: assms(5) tasks_update others_def)
  moreover have "a \<notin> listed (remove_end a (cluster_of s))"
    using ok remove_end_unlisted by (auto simp: system_ok_def)
  ultimately have gone: "retired t a"
    by (simp add: retired_def assms(5)) (simp add: remove_end_def Let_def)
  have ok_t: "system_ok t" using dyn.system_step_ok [OF step ok] .
  have "a \<notin> listed (cluster_of u)" if "reachable ?K t u" for u
    using dyn.retired_forever [OF that ok_t gone] by (simp add: retired_def)
  then show ?thesis using step by blast
qed

definition stopping_schedule :: "action list" where
  "stopping_schedule = running_schedule @
     [Event (jstr ''update'') (JArr [update_of ''m1'' ''STOPPED'']), Begin 1 Conn_ok]"

lemma stopping_run:
  "\<exists>s. schedule sample_environment (initial_system empty_cluster) stopping_schedule = Some s \<and>
     tasks s = [Task (Done Ok), Task (Wait (On_close 0) [After_close 0])]"
  by (simp add: stopping_schedule_def running_schedule_def run_defs sample_defs)

theorem removed_never_returns_witness:
  "\<exists>s t. system_step sample_environment s t \<and>
     (\<forall>u. reachable sample_environment t u \<longrightarrow> 0 \<notin> listed (cluster_of u))"
proof -
  obtain s where run: "schedule sample_environment (initial_system empty_cluster)
      stopping_schedule = Some s"
    and ts: "tasks s = [Task (Done Ok), Task (Wait (On_close 0) [After_close 0])]"
    using stopping_run by blast
  have "reachable sample_environment (start_of blank_runner (lit ''bird-game'')
      (lit ''orchestrator'') 8000 True) s"
    using schedule_reachable [OF run] by (simp add: sample_start)
  from removed_never_returns [OF this, of 1 0, OF _ _ _ refl] show ?thesis
    by (auto simp: ts less_Suc_eq)
qed

text \<open>
  C13. Yet a model that the orchestrator has stopped can end up in service, closed, with nothing left
  to remove it. In a run from the start, a task reconnects a model and is inside \<^verbatim>\<open>init\<close> of the new
  object \<open>a\<close>. Now an \<^verbatim>\<open>update\<close> event says that this deployment of the model has stopped; it is handled
  to its end without an exception, no other event arrives, and \<open>a\<close> is closed and in neither dictionary.
  After turns of the reconnecting task alone, in which \<^verbatim>\<open>init\<close> succeeds, that task has put the closed
  object into service; all tasks have ended without an exception.
\<close>

theorem stopped_model_in_service:
  "\<exists>before u e during after s0 s1 s2 i a.
     schedule secured_environment (start_of blank_runner (lit ''bird-game'') (lit ''orchestrator'') 8000 True)
       before = Some s0 \<and>
     reconnecting s0 i a \<and> handler s0 = Idle None \<and>
     read_entry u = Inr e \<and> e_state e = jstr ''STOPPED'' \<and>
     e_model_id e = model_id (heap (cluster_of s0) a) \<and>
     e_deployment_id e = deployment_id (heap (cluster_of s0) a) \<and>
     schedule secured_environment s0 (Event (jstr ''update'') (JArr [u]) # during) = Some s1 \<and>
     (\<forall>event_type data. Event event_type data \<notin> set during) \<and>
     handler s1 = Idle None \<and> reconnecting s1 i a \<and> closed (heap (cluster_of s1) a) \<and>
     map_of (models_run (cluster_of s1)) (e_model_id e) = None \<and>
     map_of (pending_model_runs (cluster_of s1)) (e_model_id e) = None \<and>
     schedule secured_environment s1 after = Some s2 \<and> only_turns_of i after \<and> all_well s2 \<and>
     map_of (models_run (cluster_of s2)) (e_model_id e) = Some a \<and> closed (heap (cluster_of s2) a)"
proof -
  let ?K = secured_environment
  let ?u = "update_of ''m1'' ''STOPPED''"
  let ?during = "[Begin 2 Conn_ok, Gathered]"
  obtain s0 s1 s2 where run: "schedule ?K (initial_system empty_cluster) zombie_start = Some s0"
      "schedule ?K s0 zombie_stop = Some s1" "schedule ?K s1 (connects 1) = Some s2"
    and s0: "reconnecting s0 1 1" "handler s0 = Idle None"
      "model_id (heap (cluster_of s0) 1) = jstr ''m1''" "deployment_id (heap (cluster_of s0) 1) = jstr ''d1''"
    and s1: "reconnecting s1 1 1" "handler s1 = Idle None" "closed (heap (cluster_of s1) 1)"
      "models_run (cluster_of s1) = []" "pending_model_runs (cluster_of s1) = []"
    and s2: "all_well s2" "models_run (cluster_of s2) = [(jstr ''m1'', 1)]" "closed (heap (cluster_of s2) 1)"
    using zombie_run by (auto split: option.splits)
  have "case read_entry ?u of Inl err \<Rightarrow> False
    | Inr e \<Rightarrow> e_state e = jstr ''STOPPED'' \<and> e_model_id e = jstr ''m1'' \<and> e_deployment_id e = jstr ''d1''"
    by (simp add: read_entry_def update_of_def lit_def)
  then obtain e where e: "read_entry ?u = Inr e" "e_state e = jstr ''STOPPED''" "e_model_id e = jstr ''m1''"
    "e_deployment_id e = jstr ''d1''"
    by (cases "read_entry ?u") simp_all
  have "only_turns_of 1 (connects 1)" by (simp add: only_turns_of_def connects_def)
  moreover have "schedule ?K s0 (Event (jstr ''update'') (JArr [?u]) # ?during) = Some s1"
    using run(2) by (simp only: zombie_stop_def)
  ultimately show ?thesis
    using run(1) [unfolded sample_start] run(3) s0 s1 s2 e
    by (intro exI [of _ zombie_start] exI [of _ ?u] exI [of _ e] exI [of _ ?during] exI [of _ "connects 1"]
          exI [of _ s0] exI [of _ s1] exI [of _ s2] exI [of _ 1]) simp
qed

section \<open>Calls in the running system\<close>

lemma fresh_calls_ok:
  "system_ok s \<Longrightarrow> calls_ok (s, fresh_calls (cluster_of s) None)"
  by (auto simp: calls_ok_def fresh_calls_def select_models_def system_ok_def wf_cluster_def keyed_def)

text \<open>
  C11. Calls are invisible to the cluster but for counters and tasks: any run of the program in which
  some remote call is made on allocated models is, for the cluster, a run of its own steps, so that every
  invariant above also holds during and after calls; and the calls stay those of the same models.
\<close>

theorem calls_refine_cluster:
  assumes "reachable (dyn_environment R F) (start_of blank crunch host prt report) s"
    and "rtranclp (run_step (dyn_environment R F) R' attribute name tmo) (s, ps) (t, qs)"
    and "\<And>a p. (a, p) \<in> set ps \<Longrightarrow> a < next_address (cluster_of s) \<and> p = Fresh"
  shows "reachable (dyn_environment R F) (start_of blank crunch host prt report) t \<and>
    map fst qs = map fst ps"
proof -
  have "calls_ok (s, ps)" using assms(3) by (fastforce simp: calls_ok_def)
  then have "reachable (dyn_environment R F) s t \<and> map fst qs = map fst ps"
    using dyn.runs_simulated [OF assms(2)] reachable_ok [OF assms(1)] by simp
  then show ?thesis using assms(1) by (auto intro: rtranclp_trans)
qed

definition predict :: "pystr \<Rightarrow> (dyn_runner \<Rightarrow> call_request result) option" where
  "predict = dyn_attribute (lit ''predict'') (Given (None, None))"

theorem calls_refine_cluster_witness:
  "\<exists>(s :: dyn_runner system) t (qs :: (call_request, unit) calls_state).
     models_run (cluster_of s) = [(jstr ''m1'', 0)] \<and>
     run_step sample_environment sample_concurrent predict (lit ''call'') None (s, [(0, Fresh)]) (t, qs) \<and>
     reachable sample_environment (start_of blank_runner (lit ''bird-game'')
       (lit ''orchestrator'') 8000 True) t \<and> map fst qs = [0]"
proof -
  obtain s where s: "reachable sample_environment (start_of blank_runner (lit ''bird-game'')
       (lit ''orchestrator'') 8000 True) s"
    and m: "models_run (cluster_of s) = [(jstr ''m1'', 0)]"
    using running_reachable by blast
  have a: "0 < next_address (cluster_of s)"
    using reachable_ok [OF s] m by (auto simp: system_ok_def wf_cluster_def keyed_def)
  let ?ps = "[(0, Fresh)] :: (call_request, unit) calls_state"
  obtain t qs where "advance (s, ?ps) 0 0
      (exec_begin sample_concurrent predict (lit ''call'') None 0 0 (cluster_of s)) = (t, qs)"
    by fastforce
  then have step: "run_step sample_environment sample_concurrent predict (lit ''call'') None
      (s, ?ps) (t, qs)"
    using run_step.begin_call_on [of 0 ?ps 0 sample_environment sample_concurrent predict
        "lit ''call''" None s 0] by simp
  have "reachable sample_environment (start_of blank_runner (lit ''bird-game'')
       (lit ''orchestrator'') 8000 True) t \<and> map fst qs = map fst ?ps"
    by (rule calls_refine_cluster [OF s r_into_rtranclp, OF step]) (use a in simp_all)
  then show ?thesis using m step by (intro exI [of _ s] exI [of _ t] exI [of _ qs] conjI) simp_all
qed

text \<open>
  C15. One authentication error loses the whole call: the coroutine of that model returns
  \<^verbatim>\<open>None\<close> instead of a failed result, and building the dictionary then raises
  \<^verbatim>\<open>AttributeError\<close>, whatever the other models answered.
\<close>

theorem auth_error_loses_all:
  assumes "exec_resume R a (At_method q t) (Method_outcome x (Inl (AuthError message))) c = (c', calls, nxt)"
    and "calls_ok (s, ps)" and "distinct (map fst ps)" and "ended ps = Some es"
    and "(a, progress_of nxt) \<in> set ps"
  shows "calls = [Report a (lit ''CONNECTION_FAILED'') (JStr message)] \<and>
    call_results ps = Some (Inl AttributeError)"
proof -
  have nxt: "nxt = Exec_end Ended_none" and calls: "calls = [Report a (lit ''CONNECTION_FAILED'') (JStr message)]"
    using assms(1) by (simp_all add: method_done_def except_clause_def)
  have "Ended_none \<in> set es"
    using assms(4,5) unfolding nxt
    by (induction ps arbitrary: es rule: ended.induct) auto
  then show ?thesis using call_results_entries [OF assms(2-4)] calls by simp
qed

theorem auth_error_loses_all_witness:
  "[Report 1 (lit ''CONNECTION_FAILED'') (JStr (lit ''bad signature''))] =
     [Report 1 (lit ''CONNECTION_FAILED'') (JStr (lit ''bad signature''))] \<and>
   call_results [(0, Finished (Ended_result (of_success 0 (7 :: int) 5))),
     (1, Finished Ended_none :: (call_request, int) progress)] = Some (Inl AttributeError)"
  by (rule auth_error_loses_all
        [of sample_concurrent 1 q 10 5 "lit ''bad signature''" "one_model\<lparr>next_address := 2\<rparr>" _ _
          "Exec_end Ended_none :: (call_request, int) exec_next"
          "initial_system (one_model\<lparr>next_address := 2\<rparr>)" _
          "[Ended_result (of_success 0 7 5), Ended_none]"])
     (auto simp: method_done_def except_clause_def calls_ok_def initial_system_def of_success_def)

end
